(* ===== verification/Prelude.thy ===== *)
theory Prelude
  imports Main "HOL-Library.Sublist" "HOL-Library.Char_ord" "HOL-Library.List_Lexorder"
    "HOL-Library.Multiset"
begin

text \<open>
  Shared vocabulary of the development: the result type of a fallible Go function, the
  traversal of a slice that stops at the first error, Go maps as association lists, and the
  generic list lemmas the component theories use.

  A Go function returning \<open>(T, error)\<close> is a function into \<open>'e + 'a\<close>: \<open>Inl e\<close> is the non-nil
  error, \<open>Inr x\<close> the value with a nil error. A Go \<open>map[string]T\<close> is an association list read
  through \<open>map_of\<close>; the iteration order of the list stands for Go's unspecified map order, so a
  function whose Go code sorts the keys first must not depend on it.
\<close>

named_theorems go_defs "definitions of the small Go library functions"

section \<open>Results\<close>

type_synonym ('e, 'a) result = "'e + 'a"

definition res_map :: "('a \<Rightarrow> 'b) \<Rightarrow> 'e + 'a \<Rightarrow> 'e + 'b" where
  "res_map f r = (case r of Inl e \<Rightarrow> Inl e | Inr x \<Rightarrow> Inr (f x))"

definition res_wrap :: "('e \<Rightarrow> 'f) \<Rightarrow> 'e + 'a \<Rightarrow> 'f + 'a" where
  "res_wrap f r = (case r of Inl e \<Rightarrow> Inl (f e) | Inr x \<Rightarrow> Inr x)"

fun res_traverse :: "('a \<Rightarrow> 'e + 'b) \<Rightarrow> 'a list \<Rightarrow> 'e + 'b list" where
  "res_traverse f [] = Inr []"
| "res_traverse f (x # xs) =
     (case f x of Inl e \<Rightarrow> Inl e
      | Inr y \<Rightarrow> (case res_traverse f xs of Inl e \<Rightarrow> Inl e | Inr ys \<Rightarrow> Inr (y # ys)))"

lemma res_map_simps [simp]: "res_map f (Inr x) = Inr (f x)" "res_map f (Inl e) = Inl e"
  by (simp_all add: res_map_def)

lemma res_map_Inr [simp]: "res_map f r = Inr y \<longleftrightarrow> (\<exists>x. r = Inr x \<and> y = f x)"
  by (auto simp: res_map_def split: sum.splits)

lemma res_map_Inl [simp]: "res_map f r = Inl e \<longleftrightarrow> r = Inl e"
  by (auto simp: res_map_def split: sum.splits)

lemma res_wrap_Inr [simp]: "res_wrap f r = Inr y \<longleftrightarrow> r = Inr y"
  by (auto simp: res_wrap_def split: sum.splits)

lemma res_wrap_Inl [simp]: "res_wrap f r = Inl e \<longleftrightarrow> (\<exists>e'. r = Inl e' \<and> e = f e')"
  by (auto simp: res_wrap_def split: sum.splits)

lemma res_traverse_Inr:
  "res_traverse f xs = Inr ys \<longleftrightarrow> list_all2 (\<lambda>x y. f x = Inr y) xs ys"
proof (induction xs arbitrary: ys)
  case Nil
  then show ?case by (cases ys) auto
next
  case (Cons x xs)
  show ?case
  proof (cases ys)
    case Nil
    then show ?thesis by (auto split: sum.splits)
  next
    case ys: (Cons y ys')
    with Cons.IH [of ys'] show ?thesis
      by (cases "f x"; cases "res_traverse f xs") auto
  qed
qed

lemma res_traverse_InrD:
  assumes "res_traverse f xs = Inr ys" and "y \<in> set ys"
  shows "\<exists>x \<in> set xs. f x = Inr y"
  using assms by (fastforce simp: res_traverse_Inr list_all2_conv_all_nth in_set_conv_nth)

lemma res_traverse_Inl: "res_traverse f xs = Inl e \<Longrightarrow> \<exists>x \<in> set xs. f x = Inl e"
  by (induction xs) (auto split: sum.splits)

lemma res_traverse_ok:
  "(\<And>x. x \<in> set xs \<Longrightarrow> f x = Inr (g x)) \<Longrightarrow> res_traverse f xs = Inr (map g xs)"
  by (induction xs) auto

section \<open>Go maps\<close>

type_synonym 'v gomap = "(string \<times> 'v) list"

text \<open>\<open>m[k]\<close> for a map of strings: the zero value when the key is absent.\<close>

definition map_get :: "string gomap \<Rightarrow> string \<Rightarrow> string" where
  "map_get m k = (case map_of m k of None \<Rightarrow> [] | Some v \<Rightarrow> v)"

text \<open>\<open>m[k] = v\<close>.\<close>

definition map_put :: "string \<Rightarrow> 'v \<Rightarrow> 'v gomap \<Rightarrow> 'v gomap" where
  "map_put k v m = (k, v) # filter (\<lambda>kv. fst kv \<noteq> k) m"

definition map_delete :: "string \<Rightarrow> 'v gomap \<Rightarrow> 'v gomap" where
  "map_delete k m = filter (\<lambda>kv. fst kv \<noteq> k) m"

text \<open>\<open>maps.Copy(dst, src)\<close>, and a loop \<open>for k, v := range src { dst[k] = v }\<close>.\<close>

definition map_copy :: "'v gomap \<Rightarrow> 'v gomap \<Rightarrow> 'v gomap" where
  "map_copy dst src = foldr (\<lambda>kv m. map_put (fst kv) (snd kv) m) src dst"

definition map_keys :: "'v gomap \<Rightarrow> string list" where
  "map_keys m = remdups (map fst m)"

text \<open>The keys in \<open>sort.Strings\<close> order: byte-wise lexicographic.\<close>

definition sorted_keys :: "'v gomap \<Rightarrow> string list" where
  "sorted_keys m = sort (map_keys m)"

lemma map_of_filter_neq: "map_of (filter (\<lambda>kv. fst kv \<noteq> k) m) = (map_of m)(k := None)"
  by (induction m) auto

lemma map_of_map_put [simp]: "map_of (map_put k v m) = (map_of m)(k \<mapsto> v)"
  by (simp add: map_put_def map_of_filter_neq)

lemma map_of_map_delete [simp]: "map_of (map_delete k m) = (map_of m)(k := None)"
  by (simp add: map_delete_def map_of_filter_neq)

lemma map_of_map_copy [simp]: "map_of (map_copy dst src) = map_of dst ++ map_of src"
  unfolding map_copy_def by (induction src) (auto simp: map_add_def fun_eq_iff split: option.splits)

lemma map_get_put [simp]: "map_get (map_put k v m) k' = (if k' = k then v else map_get m k')"
  by (simp add: map_get_def)

lemma set_map_keys [simp]: "set (map_keys m) = dom (map_of m)"
  by (simp add: map_keys_def dom_map_of_conv_image_fst)

lemma distinct_map_keys [simp]: "distinct (map_keys m)"
  by (simp add: map_keys_def)

lemma set_sorted_keys [simp]: "set (sorted_keys m) = dom (map_of m)"
  by (simp add: sorted_keys_def)

lemma distinct_sorted_keys [simp]: "distinct (sorted_keys m)"
  by (simp add: sorted_keys_def)

lemma sorted_sorted_keys [simp]: "sorted (sorted_keys m)"
  by (simp add: sorted_keys_def)

text \<open>
  Sorting the keys first makes the result independent of the map's iteration order.
\<close>

lemma sorted_keys_cong: "map_of m = map_of m' \<Longrightarrow> sorted_keys m = sorted_keys m'"
  by (rule sorted_distinct_set_unique) simp_all

lemma distinct_fst_map_put: "distinct (map fst m) \<Longrightarrow> distinct (map fst (map_put k v m))"
  by (auto simp: map_put_def distinct_map inj_on_def)

section \<open>Lists\<close>

lemma rev_eq_last_Cons: "xs \<noteq> [] \<Longrightarrow> rev xs = last xs # rev (butlast xs)"
  by (cases xs rule: rev_cases) auto

lemma takeWhile_neq_append:
  "c \<notin> set xs \<Longrightarrow> takeWhile (\<lambda>x. x \<noteq> c) (xs @ c # ys) = xs"
  by (induction xs) auto

lemma dropWhile_neq_append:
  "c \<notin> set xs \<Longrightarrow> dropWhile (\<lambda>x. x \<noteq> c) (xs @ c # ys) = c # ys"
  by (induction xs) auto

lemma takeWhile_all: "c \<notin> set xs \<Longrightarrow> takeWhile (\<lambda>x. x \<noteq> c) xs = xs"
  by (induction xs) auto

lemma dropWhile_all: "c \<notin> set xs \<Longrightarrow> dropWhile (\<lambda>x. x \<noteq> c) xs = []"
  by (induction xs) auto

lemma dropWhile_neq_cases:
  "dropWhile (\<lambda>x. x \<noteq> c) xs = [] \<and> c \<notin> set xs
   \<or> (\<exists>ys. dropWhile (\<lambda>x. x \<noteq> c) xs = c # ys \<and> xs = takeWhile (\<lambda>x. x \<noteq> c) xs @ c # ys)"
  by (induction xs) auto

lemma takeWhile_neq_notin: "c \<notin> set (takeWhile (\<lambda>x. x \<noteq> c) xs)"
  by (induction xs) auto

end
