(* ===== verification/GoStrings.thy ===== *)
theory GoStrings
  imports Prelude
begin

text \<open>
  The functions of Go's packages \<open>strings\<close> and \<open>strconv\<close> that devc calls, over byte strings: a Go
  string is a sequence of bytes and an Isabelle \<open>char\<close> is a byte, so \<open>string\<close> is exactly Go's.
  Where a function looks at runes, the UTF-8 encodings that matter to it are written out.
\<close>

section \<open>Bytes\<close>

abbreviation byte :: "char \<Rightarrow> nat" where
  "byte c \<equiv> of_char c"

definition is_digit :: "char \<Rightarrow> bool" where
  [go_defs]: "is_digit c \<longleftrightarrow> 48 \<le> byte c \<and> byte c \<le> 57"

definition is_lower :: "char \<Rightarrow> bool" where
  [go_defs]: "is_lower c \<longleftrightarrow> 97 \<le> byte c \<and> byte c \<le> 122"

definition is_upper :: "char \<Rightarrow> bool" where
  [go_defs]: "is_upper c \<longleftrightarrow> 65 \<le> byte c \<and> byte c \<le> 90"

definition is_hex :: "char \<Rightarrow> bool" where
  [go_defs]: "is_hex c \<longleftrightarrow> is_digit c \<or> (97 \<le> byte c \<and> byte c \<le> 102)"

text \<open>The line feed, carriage return, tab and backslash bytes.\<close>

abbreviation LF :: char where "LF \<equiv> CHR 0x0A"
abbreviation CR :: char where "CR \<equiv> CHR 0x0D"
abbreviation TAB :: char where "TAB \<equiv> CHR 0x09"
abbreviation BSL :: char where "BSL \<equiv> CHR 0x5C"
abbreviation SQ :: char where "SQ \<equiv> CHR 0x27"
abbreviation DQ :: char where "DQ \<equiv> CHR 0x22"

lemma byte_less_256: "byte c < 256"
  by (metis of_char_mod_256 mod_less_divisor zero_less_numeral)

section \<open>Splitting and joining\<close>

fun contains :: "string \<Rightarrow> string \<Rightarrow> bool" where
  "contains [] sub = (sub = [])"
| "contains (c # s) sub = (prefix sub (c # s) \<or> contains s sub)"

text \<open>\<open>strings.Cut\<close> with a one-byte separator: before, after, found.\<close>

definition cut :: "string \<Rightarrow> char \<Rightarrow> string \<times> string \<times> bool" where
  "cut s c = (if c \<in> set s
     then (takeWhile (\<lambda>x. x \<noteq> c) s, tl (dropWhile (\<lambda>x. x \<noteq> c) s), True)
     else (s, [], False))"

text \<open>\<open>strings.Split\<close> with a one-byte separator.\<close>

fun split_on :: "char \<Rightarrow> string \<Rightarrow> string list" where
  "split_on c [] = [[]]"
| "split_on c (x # xs) =
     (if x = c then [] # split_on c xs
      else (case split_on c xs of [] \<Rightarrow> [[x]] | y # ys \<Rightarrow> (x # y) # ys))"

fun join :: "string \<Rightarrow> string list \<Rightarrow> string" where
  "join sep [] = []"
| "join sep [x] = x"
| "join sep (x # y # ys) = x @ sep @ join sep (y # ys)"

definition trim_prefix :: "string \<Rightarrow> string \<Rightarrow> string" where
  "trim_prefix s p = (if prefix p s then drop (length p) s else s)"

definition cut_prefix :: "string \<Rightarrow> string \<Rightarrow> string \<times> bool" where
  "cut_prefix s p = (if prefix p s then (drop (length p) s, True) else (s, False))"

text \<open>\<open>strings.ReplaceAll\<close> of a single byte.\<close>

definition replace_byte :: "char \<Rightarrow> string \<Rightarrow> string \<Rightarrow> string" where
  "replace_byte c r s = concat (map (\<lambda>x. if x = c then r else [x]) s)"

lemma cut_append: "c \<notin> set k \<Longrightarrow> cut (k @ c # v) c = (k, v, True)"
  by (simp add: cut_def takeWhile_neq_append dropWhile_neq_append)

lemma cut_not_found: "c \<notin> set s \<Longrightarrow> cut s c = (s, [], False)"
  by (simp add: cut_def)

lemma cut_found_eq: "cut s c = (k, v, True) \<Longrightarrow> s = k @ c # v \<and> c \<notin> set k"
  using dropWhile_neq_cases [of c s] takeWhile_neq_notin [of c s]
  by (auto simp: cut_def split: if_splits)

lemma split_on_not_Nil [simp]: "split_on c s \<noteq> []"
  by (induction s) (auto split: list.splits)

lemma join_split_on: "join [c] (split_on c s) = s"
proof (induction s)
  case Nil
  then show ?case by simp
next
  case (Cons x xs)
  obtain y ys where split: "split_on c xs = y # ys"
    by (cases "split_on c xs") auto
  show ?case
  proof (cases ys)
    case Nil
    with Cons split show ?thesis by simp
  next
    case (Cons z zs)
    with \<open>join [c] (split_on c xs) = xs\<close> split show ?thesis by simp
  qed
qed

lemma split_on_notin [simp]: "c \<notin> set s \<Longrightarrow> split_on c s = [s]"
  by (induction s) auto

lemma split_on_append: "c \<notin> set x \<Longrightarrow> split_on c (x @ c # s) = x # split_on c s"
  by (induction x) auto

lemma split_on_parts: "x \<in> set (split_on c s) \<Longrightarrow> c \<notin> set x"
proof (induction s arbitrary: x)
  case (Cons a s)
  then show ?case
    by (cases "split_on c s") (auto split: if_splits)
qed auto

lemma split_on_set: "x \<in> set (split_on c s) \<Longrightarrow> set x \<subseteq> set s"
proof (induction s arbitrary: x)
  case (Cons a s)
  obtain y ys where "split_on c s = y # ys"
    by (cases "split_on c s") auto
  with Cons.IH [of y] Cons.IH [of x] Cons.prems show ?case
    by (auto split: if_splits)
qed auto

lemma split_on_join:
  "xs \<noteq> [] \<Longrightarrow> (\<And>x. x \<in> set xs \<Longrightarrow> c \<notin> set x) \<Longrightarrow> split_on c (join [c] xs) = xs"
proof (induction "[c]" xs rule: join.induct)
  case (3 x y ys)
  then show ?case by (simp add: split_on_append)
qed auto

lemma split_on_lines:
  "(\<And>x. x \<in> set xs \<Longrightarrow> c \<notin> set x) \<Longrightarrow>
   split_on c (concat (map (\<lambda>x. x @ [c]) xs)) = xs @ [[]]"
  by (induction xs) (simp_all add: split_on_append)

lemma replace_byte_notin: "c \<notin> set s \<Longrightarrow> replace_byte c r s = s"
  by (induction s) (auto simp: replace_byte_def)

lemma replace_byte_removes: "c \<notin> set r \<Longrightarrow> c \<notin> set (replace_byte c r s)"
  by (induction s) (auto simp: replace_byte_def)

lemma contains_iff_sublist: "contains s sub \<longleftrightarrow> sublist sub s"
  by (induction s) (auto simp: sublist_Cons_right)

section \<open>White space\<close>

text \<open>
  The UTF-8 encodings of the runes for which \<open>unicode.IsSpace\<close> holds. A start byte never occurs
  inside another rune's encoding, so testing a prefix (or, from the right, a suffix) of the byte
  string for one of them decides whether the first (last) rune is white space.
\<close>

definition space_runes :: "string list" where
  "space_runes =
    [[CHR 0x09], [CHR 0x0A], [CHR 0x0B], [CHR 0x0C], [CHR 0x0D], [CHR 0x20],
     [CHR 0xC2, CHR 0x85], [CHR 0xC2, CHR 0xA0], [CHR 0xE1, CHR 0x9A, CHR 0x80],
     [CHR 0xE2, CHR 0x80, CHR 0x80], [CHR 0xE2, CHR 0x80, CHR 0x81],
     [CHR 0xE2, CHR 0x80, CHR 0x82], [CHR 0xE2, CHR 0x80, CHR 0x83],
     [CHR 0xE2, CHR 0x80, CHR 0x84], [CHR 0xE2, CHR 0x80, CHR 0x85],
     [CHR 0xE2, CHR 0x80, CHR 0x86], [CHR 0xE2, CHR 0x80, CHR 0x87],
     [CHR 0xE2, CHR 0x80, CHR 0x88], [CHR 0xE2, CHR 0x80, CHR 0x89],
     [CHR 0xE2, CHR 0x80, CHR 0x8A], [CHR 0xE2, CHR 0x80, CHR 0xA8],
     [CHR 0xE2, CHR 0x80, CHR 0xA9], [CHR 0xE2, CHR 0x80, CHR 0xAF],
     [CHR 0xE2, CHR 0x81, CHR 0x9F], [CHR 0xE3, CHR 0x80, CHR 0x80]]"

text \<open>No white-space rune starts or ends with a printable ASCII byte.\<close>

lemma space_runes_ends:
  "\<forall>r \<in> set space_runes. r \<noteq> [] \<and> (byte (hd r) < 33 \<or> 128 \<le> byte (hd r))
     \<and> (byte (last r) < 33 \<or> 128 \<le> byte (last r))"
  by code_simp

text \<open>The number of bytes of the white-space rune that starts the string, 0 if none does.\<close>

definition lead_space :: "string list \<Rightarrow> string \<Rightarrow> nat" where
  "lead_space runes s = (case find (\<lambda>r. prefix r s) runes of None \<Rightarrow> 0 | Some r \<Rightarrow> length r)"

function trim_lead :: "string list \<Rightarrow> string \<Rightarrow> string" where
  "trim_lead runes s =
     (if lead_space runes s = 0 \<or> s = [] then s
      else trim_lead runes (drop (lead_space runes s) s))"
  by pat_completeness auto
termination
  by (relation "measure (\<lambda>(runes, s). length s)") auto

declare trim_lead.simps [simp del]

definition trim_space :: "string \<Rightarrow> string" where
  "trim_space s =
     rev (trim_lead (map rev space_runes) (rev (trim_lead space_runes s)))"

text \<open>
  \<open>strings.Fields\<close>: the maximal runs of non-space runes. \<open>acc\<close> is the current run, reversed.
\<close>

function split_fields_acc :: "string \<Rightarrow> string \<Rightarrow> string list" where
  "split_fields_acc acc s =
     (if s = [] then (if acc = [] then [] else [rev acc])
      else if lead_space space_runes s = 0 then split_fields_acc (hd s # acc) (tl s)
      else (if acc = [] then [] else [rev acc])
           @ split_fields_acc [] (drop (lead_space space_runes s) s))"
  by pat_completeness auto
termination
  by (relation "measure (\<lambda>(acc, s). length s)") auto

declare split_fields_acc.simps [simp del]

definition split_fields :: "string \<Rightarrow> string list" where
  "split_fields s = split_fields_acc [] s"

lemma lead_space_eq_0: "(\<And>r. r \<in> set runes \<Longrightarrow> \<not> prefix r s) \<Longrightarrow> lead_space runes s = 0"
  by (cases "find (\<lambda>r. prefix r s) runes") (auto simp: lead_space_def find_Some_iff)

lemma lead_space_Nil [simp]: "lead_space space_runes [] = 0"
  using space_runes_ends by (intro lead_space_eq_0) auto

lemma lead_space_ascii:
  assumes "33 \<le> byte c" and "byte c < 128"
  shows "lead_space space_runes (c # s) = 0"
proof (rule lead_space_eq_0)
  fix r assume "r \<in> set space_runes"
  with space_runes_ends assms show "\<not> prefix r (c # s)"
    by (cases r) fastforce+
qed

lemma lead_space_rev_Nil [simp]: "lead_space (map rev space_runes) [] = 0"
  using space_runes_ends by (intro lead_space_eq_0) auto

lemma lead_space_rev_ascii:
  assumes "33 \<le> byte c" and "byte c < 128"
  shows "lead_space (map rev space_runes) (c # s) = 0"
proof (rule lead_space_eq_0)
  fix r assume "r \<in> set (map rev space_runes)"
  then obtain r' where r': "r' \<in> set space_runes" and r: "r = rev r'" by auto
  with space_runes_ends have "r' \<noteq> []" and ends: "byte (last r') < 33 \<or> 128 \<le> byte (last r')"
    by blast+
  moreover have "last r' \<noteq> c" using ends assms by auto
  ultimately show "\<not> prefix r (c # s)" by (subst r, subst rev_eq_last_Cons) auto
qed

lemma trim_lead_no_space [simp]: "lead_space runes s = 0 \<Longrightarrow> trim_lead runes s = s"
  by (subst trim_lead.simps) simp

text \<open>Text that starts and ends with a printable ASCII byte is left alone.\<close>

lemma trim_space_printable:
  assumes "s \<noteq> []" and "33 \<le> byte (hd s)" "byte (hd s) < 128"
    and "33 \<le> byte (last s)" "byte (last s) < 128"
  shows "trim_space s = s"
proof -
  obtain c t where s: "s = c # t" using assms(1) by (cases s) auto
  have "trim_lead space_runes s = s"
    using assms(2,3) by (simp add: s lead_space_ascii)
  moreover have "trim_lead (map rev space_runes) (rev s) = rev s"
    using assms(4,5) by (simp only: rev_eq_last_Cons [OF assms(1)])
      (rule trim_lead_no_space, rule lead_space_rev_ascii)
  ultimately show ?thesis by (simp add: trim_space_def)
qed

lemma trim_space_Nil [simp]: "trim_space [] = []"
  by (simp add: trim_space_def)

section \<open>Numbers\<close>

text \<open>\<open>strconv.Itoa\<close>.\<close>

fun nat_digits :: "nat \<Rightarrow> string" where
  "nat_digits n =
     (if n < 10 then [char_of (48 + n)] else nat_digits (n div 10) @ [char_of (48 + n mod 10)])"

declare nat_digits.simps [simp del]

definition itoa :: "int \<Rightarrow> string" where
  "itoa n = (if n < 0 then CHR ''-'' # nat_digits (nat (- n)) else nat_digits (nat n))"

text \<open>
  \<open>strconv.Atoi\<close>: an optional sign and decimal digits, an error (here \<open>None\<close>) on anything else and
  on a value outside the 64-bit \<open>int\<close>.
\<close>

definition digits_val :: "string \<Rightarrow> nat" where
  "digits_val s = foldl (\<lambda>a c. a * 10 + (byte c - 48)) 0 s"

definition parse_nat :: "string \<Rightarrow> nat option" where
  "parse_nat s = (if s \<noteq> [] \<and> list_all is_digit s then Some (digits_val s) else None)"

definition in_int64 :: "int \<Rightarrow> bool" where
  "in_int64 n \<longleftrightarrow> - (2 ^ 63) \<le> n \<and> n < 2 ^ 63"

definition atoi :: "string \<Rightarrow> int option" where
  "atoi s =
     (let r = (case s of
                 [] \<Rightarrow> None
               | c # t \<Rightarrow>
                   if c = CHR ''-'' then map_option (\<lambda>n. - int n) (parse_nat t)
                   else if c = CHR ''+'' then map_option int (parse_nat t)
                   else map_option int (parse_nat s))
      in case r of None \<Rightarrow> None | Some n \<Rightarrow> if in_int64 n then Some n else None)"

lemma byte_char_of [simp]: "n < 256 \<Longrightarrow> byte (char_of n) = n"
  by (simp add: of_char_of)

lemma digits_val_snoc: "digits_val (s @ [c]) = digits_val s * 10 + (byte c - 48)"
  by (simp add: digits_val_def)

lemma nat_digits_not_Nil [simp]: "nat_digits n \<noteq> []"
  by (subst nat_digits.simps) simp

lemma is_digit_char_of [simp]: "(n::nat) < 10 \<Longrightarrow> is_digit (char_of (48 + n))"
  by (simp add: is_digit_def)

lemma nat_digits_digits: "list_all is_digit (nat_digits n)"
proof (induction n rule: nat_digits.induct)
  case (1 n)
  then show ?case by (subst nat_digits.simps) auto
qed

lemma digits_val_nat_digits: "digits_val (nat_digits n) = n"
proof (induction n rule: nat_digits.induct)
  case (1 n)
  show ?case
  proof (cases "n < 10")
    case True
    then show ?thesis by (subst nat_digits.simps) (simp add: digits_val_def)
  next
    case False
    with 1 show ?thesis by (subst nat_digits.simps) (simp add: digits_val_snoc)
  qed
qed

lemma parse_nat_digits [simp]: "parse_nat (nat_digits n) = Some n"
  by (simp add: parse_nat_def nat_digits_digits digits_val_nat_digits)

lemma nat_digits_hd: "is_digit (hd (nat_digits n))" "is_digit (last (nat_digits n))"
  using nat_digits_digits [of n] nat_digits_not_Nil [of n]
  by (metis list.pred_set hd_in_set, metis list.pred_set last_in_set)

lemma is_digit_sign: "is_digit c \<Longrightarrow> c \<noteq> CHR ''-'' \<and> c \<noteq> CHR ''+''"
  by (auto simp: is_digit_def)

lemma atoi_itoa: "in_int64 n \<Longrightarrow> atoi (itoa n) = Some n"
proof (cases "n < 0")
  case True
  then show "in_int64 n \<Longrightarrow> ?thesis" by (simp add: atoi_def itoa_def)
next
  case False
  obtain c t where ct: "nat_digits (nat n) = c # t"
    using nat_digits_not_Nil by (cases "nat_digits (nat n)") auto
  then have "is_digit c" using nat_digits_hd(1) [of "nat n"] by simp
  then have "c \<noteq> CHR ''-'' \<and> c \<noteq> CHR ''+''" by (rule is_digit_sign)
  moreover have "parse_nat (c # t) = Some (nat n)" using ct parse_nat_digits by metis
  ultimately show "in_int64 n \<Longrightarrow> ?thesis" using False by (simp add: atoi_def itoa_def ct)
qed

lemma nat_digits_printable: "c \<in> set (nat_digits n) \<Longrightarrow> 48 \<le> byte c \<and> byte c \<le> 57"
  using nat_digits_digits [of n] by (auto simp: list_all_iff is_digit_def)

lemma trim_space_nat_digits [simp]: "trim_space (nat_digits n) = nat_digits n"
proof (rule trim_space_printable)
  have "hd (nat_digits n) \<in> set (nat_digits n)" "last (nat_digits n) \<in> set (nat_digits n)" by simp_all
  then show "33 \<le> byte (hd (nat_digits n))" "byte (hd (nat_digits n)) < 128"
    "33 \<le> byte (last (nat_digits n))" "byte (last (nat_digits n)) < 128"
    using nat_digits_printable by fastforce+
qed simp

section \<open>Lower case\<close>

text \<open>
  \<open>strings.ToLower\<close>, as far as ASCII letters of the result go: upper-case ASCII letters, and the only
  two non-ASCII runes whose lower case is ASCII, U+0130 (bytes C4 B0, to \<open>i\<close>) and the Kelvin sign
  U+212A (bytes E2 84 AA, to \<open>k\<close>). Other non-ASCII bytes are kept; Go maps some of them to other
  non-ASCII runes, which no caller of it in devc tells apart.
\<close>

definition lower_byte :: "char \<Rightarrow> char" where
  "lower_byte c = (if is_upper c then char_of (byte c + 32) else c)"

fun to_lower :: "string \<Rightarrow> string" where
  "to_lower (a # b # c # s) =
     (if a = CHR 0xE2 \<and> b = CHR 0x84 \<and> c = CHR 0xAA then CHR ''k'' # to_lower s
      else if a = CHR 0xC4 \<and> b = CHR 0xB0 then CHR ''i'' # to_lower (c # s)
      else lower_byte a # to_lower (b # c # s))"
| "to_lower [a, b] =
     (if a = CHR 0xC4 \<and> b = CHR 0xB0 then [CHR ''i''] else [lower_byte a, lower_byte b])"
| "to_lower [a] = [lower_byte a]"
| "to_lower [] = []"

lemma lower_byte_keeps: "\<not> is_upper c \<Longrightarrow> lower_byte c = c"
  by (simp add: lower_byte_def)

lemma to_lower_ascii_lower:
  "(\<And>c. c \<in> set s \<Longrightarrow> byte c < 128 \<and> \<not> is_upper c) \<Longrightarrow> to_lower s = s"
proof (induction s rule: to_lower.induct)
  case (1 a b c s)
  have "a \<noteq> CHR 0xE2" "a \<noteq> CHR 0xC4" using "1.prems" [of a] by auto
  with 1 show ?case by (simp add: lower_byte_keeps)
next
  case (2 a b)
  have "a \<noteq> CHR 0xC4" using "2.prems" [of a] by auto
  with 2 show ?case by (simp add: lower_byte_keeps)
qed (auto simp: lower_byte_keeps)

lemma lower_byte_not_upper: "\<not> is_upper (lower_byte c)"
proof (cases "is_upper c")
  case True
  then have "byte (lower_byte c) = byte c + 32"
    by (simp add: lower_byte_def is_upper_def)
  with True show ?thesis by (simp add: is_upper_def)
next
  case False
  then show ?thesis by (simp add: lower_byte_def)
qed

lemma to_lower_no_upper: "c \<in> set (to_lower s) \<Longrightarrow> \<not> is_upper c"
proof -
  have "\<not> is_upper (CHR ''k'')" "\<not> is_upper (CHR ''i'')" by code_simp+
  then show "c \<in> set (to_lower s) \<Longrightarrow> \<not> is_upper c"
    by (induction s rule: to_lower.induct) (auto simp: lower_byte_not_upper split: if_splits)
qed

end
