(* ===== verification/GoPath.thy ===== *)
theory GoPath
  imports GoStrings
begin

text \<open>
  The lexical functions of Go's package \<open>path/filepath\<close> on Unix that devc calls. \<open>clean\<close> follows the
  rules the package documents for \<open>Clean\<close>: empty and \<open>.\<close> elements are dropped, an inner \<open>..\<close> removes
  the element before it, a \<open>..\<close> at the root is dropped, and the empty result is \<open>.\<close>.
\<close>

abbreviation SLASH :: char where "SLASH \<equiv> CHR ''/''"

definition is_abs :: "string \<Rightarrow> bool" where
  "is_abs p \<longleftrightarrow> prefix ''/'' p"

fun clean_parts :: "bool \<Rightarrow> string list \<Rightarrow> string list \<Rightarrow> string list" where
  "clean_parts rooted acc [] = rev acc"
| "clean_parts rooted acc (p # ps) =
     (if p = [] \<or> p = ''.'' then clean_parts rooted acc ps
      else if p = ''..'' then
        (if acc \<noteq> [] \<and> hd acc \<noteq> ''..'' then clean_parts rooted (tl acc) ps
         else if rooted then clean_parts rooted acc ps
         else clean_parts rooted (p # acc) ps)
      else clean_parts rooted (p # acc) ps)"

definition parts_path :: "bool \<Rightarrow> string list \<Rightarrow> string" where
  "parts_path rooted ps =
     (if rooted then ''/'' @ join ''/'' ps else if ps = [] then ''.'' else join ''/'' ps)"

definition clean :: "string \<Rightarrow> string" where
  "clean p = (if p = [] then ''.''
     else parts_path (is_abs p) (clean_parts (is_abs p) [] (split_on SLASH p)))"

definition base :: "string \<Rightarrow> string" where
  "base p = (if p = [] then ''.''
     else let q = dropWhile (\<lambda>c. c = SLASH) (rev p)
          in if q = [] then ''/'' else rev (takeWhile (\<lambda>c. c \<noteq> SLASH) q))"

definition dir :: "string \<Rightarrow> string" where
  "dir p = clean (rev (dropWhile (\<lambda>c. c \<noteq> SLASH) (rev p)))"

definition path_join :: "string list \<Rightarrow> string" where
  "path_join elems = (case dropWhile (\<lambda>e. e = []) elems of [] \<Rightarrow> [] | es \<Rightarrow> clean (join ''/'' es))"

section \<open>Normal forms\<close>

text \<open>The element lists of clean paths.\<close>

fun dotdots_lead :: "string list \<Rightarrow> bool" where
  "dotdots_lead [] = True"
| "dotdots_lead (p # ps) = (if p = ''..'' then dotdots_lead ps else ''..'' \<notin> set ps)"

definition plain_part :: "string \<Rightarrow> bool" where
  "plain_part p \<longleftrightarrow> p \<noteq> [] \<and> p \<noteq> ''.'' \<and> SLASH \<notin> set p"

definition normal_parts :: "bool \<Rightarrow> string list \<Rightarrow> bool" where
  "normal_parts rooted ps \<longleftrightarrow>
     (\<forall>p \<in> set ps. plain_part p) \<and> dotdots_lead ps \<and> (rooted \<longrightarrow> ''..'' \<notin> set ps)"

lemma dotdots_lead_append:
  "dotdots_lead (xs @ ys) \<longleftrightarrow>
     (if \<forall>p \<in> set xs. p = ''..'' then dotdots_lead ys else dotdots_lead xs \<and> ''..'' \<notin> set ys)"
  by (induction xs) auto

lemma dotdots_lead_all_intro: "\<forall>p \<in> set xs. p = ''..'' \<Longrightarrow> dotdots_lead xs"
  by (induction xs) auto

lemma plain_dotdot [simp]: "plain_part ''..''"
  by (simp add: plain_part_def)

lemma normal_parts_snoc:
  "normal_parts rooted ps \<Longrightarrow> plain_part p \<Longrightarrow> p \<noteq> ''..'' \<Longrightarrow> normal_parts rooted (ps @ [p])"
  by (auto simp: normal_parts_def dotdots_lead_append)

lemma normal_parts_butlast: "normal_parts rooted (ps @ [p]) \<Longrightarrow> normal_parts rooted ps"
  by (auto simp: normal_parts_def dotdots_lead_append split: if_splits intro: dotdots_lead_all_intro)

lemma normal_parts_dotdot:
  assumes "normal_parts False ps" and "ps = [] \<or> last ps = ''..''"
  shows "normal_parts False (ps @ [''..''])"
  using assms
  by (cases ps rule: rev_cases) (auto simp: normal_parts_def dotdots_lead_append split: if_splits)

lemma clean_parts_normal:
  "normal_parts rooted (rev acc) \<Longrightarrow> (\<forall>p \<in> set ps. SLASH \<notin> set p) \<Longrightarrow>
   normal_parts rooted (clean_parts rooted acc ps)"
proof (induction rooted acc ps rule: clean_parts.induct)
  case (2 rooted acc p ps)
  have pop: "normal_parts rooted (rev (tl acc))" if "acc \<noteq> []"
    using that "2.prems"(1) by (cases acc) (auto dest: normal_parts_butlast)
  have push: "normal_parts rooted (rev (p # acc))" if "p \<noteq> []" "p \<noteq> ''.''" "p \<noteq> ''..''"
    using that "2.prems" by (auto intro: normal_parts_snoc simp: plain_part_def)
  have up: "normal_parts rooted (rev (p # acc))"
    if "\<not> rooted" "p = ''..''" "\<not> (acc \<noteq> [] \<and> hd acc \<noteq> ''..'')"
    using that "2.prems"(1) normal_parts_dotdot [of "rev acc"] by (auto simp: last_rev)
  have rest: "\<forall>q \<in> set ps. SLASH \<notin> set q" using "2.prems"(2) by simp
  consider "p = [] \<or> p = ''.''" | "p = ''..''" "acc \<noteq> [] \<and> hd acc \<noteq> ''..''"
    | "p = ''..''" "\<not> (acc \<noteq> [] \<and> hd acc \<noteq> ''..'')" rooted
    | "p = ''..''" "\<not> (acc \<noteq> [] \<and> hd acc \<noteq> ''..'')" "\<not> rooted"
    | "p \<noteq> []" "p \<noteq> ''.''" "p \<noteq> ''..''"
    by blast
  then show ?case
  proof cases
    case 1
    then show ?thesis using "2.IH"(1) "2.prems"(1) rest by auto
  next
    case 2
    then show ?thesis using "2.IH"(2) pop rest by simp
  next
    case 3
    then show ?thesis using "2.IH"(3) "2.prems"(1) rest by auto
  next
    case 4
    then show ?thesis using "2.IH"(4) up rest by auto
  next
    case 5
    then show ?thesis using "2.IH"(5) push rest by simp
  qed
qed simp

lemma clean_parts_step_normal:
  assumes "normal_parts rooted (rev acc @ ps)"
  shows "clean_parts rooted acc ps = rev acc @ ps"
  using assms
proof (induction ps arbitrary: acc)
  case (Cons p ps)
  have p: "p \<noteq> []" "p \<noteq> ''.''" using Cons.prems by (auto simp: normal_parts_def plain_part_def)
  have IH: "clean_parts rooted (p # acc) ps = rev acc @ p # ps"
    using Cons.IH [of "p # acc"] Cons.prems by simp
  show ?case
  proof (cases "p = ''..''")
    case False
    with IH p show ?thesis by simp
  next
    case True
    have "\<not> rooted" using Cons.prems True by (auto simp: normal_parts_def)
    moreover have "\<forall>q \<in> set acc. q = ''..''"
      using Cons.prems True by (auto simp: normal_parts_def dotdots_lead_append split: if_splits)
    then have "\<not> (acc \<noteq> [] \<and> hd acc \<noteq> ''..'')" by (cases acc) auto
    ultimately show ?thesis using IH p True by auto
  qed
qed simp

lemma normal_clean: "normal_parts (is_abs p) (clean_parts (is_abs p) [] (split_on SLASH p))"
  by (rule clean_parts_normal)
    (auto simp: normal_parts_def dest: split_on_parts)

lemma join_slash_start:
  assumes "normal_parts rooted ps" and "ps \<noteq> []"
  shows "join ''/'' ps \<noteq> []" and "\<not> is_abs (join ''/'' ps)"
proof -
  obtain a as where ps: "ps = a # as" using assms(2) by (cases ps) auto
  then obtain c a' where a: "a = c # a'" "c \<noteq> SLASH"
    using assms(1) by (cases a) (auto simp: normal_parts_def plain_part_def)
  then obtain rest where "join ''/'' ps = c # rest"
    using ps by (cases as) auto
  then show "join ''/'' ps \<noteq> []" "\<not> is_abs (join ''/'' ps)"
    using a(2) by (auto simp: is_abs_def)
qed

lemma is_abs_parts_path: "normal_parts rooted ps \<Longrightarrow> is_abs (parts_path rooted ps) = rooted"
  using join_slash_start(2) [of rooted ps]
  by (cases "ps = []") (auto simp: parts_path_def is_abs_def)

lemma parts_path_not_Nil: "normal_parts rooted ps \<Longrightarrow> parts_path rooted ps \<noteq> []"
  using join_slash_start(1) [of rooted ps] by (auto simp: parts_path_def)

lemma clean_eq_parts: "\<exists>ps. clean p = parts_path (is_abs p) ps \<and> normal_parts (is_abs p) ps"
proof (cases "p = []")
  case True
  then have "clean p = parts_path (is_abs p) [] \<and> normal_parts (is_abs p) []"
    by (simp add: clean_def parts_path_def is_abs_def normal_parts_def)
  then show ?thesis by blast
next
  case False
  then show ?thesis using normal_clean [of p] by (auto simp: clean_def)
qed

lemma is_abs_clean [simp]: "is_abs (clean p) = is_abs p"
  using clean_eq_parts [of p] is_abs_parts_path by metis

lemma clean_not_Nil [simp]: "clean p \<noteq> []"
  using clean_eq_parts [of p] parts_path_not_Nil by metis

lemma split_parts_path:
  assumes "normal_parts rooted ps" and "ps \<noteq> []"
  shows "split_on SLASH (parts_path rooted ps) = (if rooted then [[]] else []) @ ps"
proof -
  have "split_on SLASH (join ''/'' ps) = ps"
    using assms by (intro split_on_join) (auto simp: normal_parts_def plain_part_def)
  with assms(2) show ?thesis by (simp add: parts_path_def)
qed

lemma clean_parts_path:
  assumes "normal_parts rooted ps"
  shows "clean (parts_path rooted ps) = parts_path rooted ps"
proof (cases "ps = []")
  case True
  then show ?thesis by (auto simp: parts_path_def clean_def is_abs_def)
next
  case False
  have "clean_parts rooted [] (split_on SLASH (parts_path rooted ps)) = ps"
    using split_parts_path [OF assms False] clean_parts_step_normal [of rooted "[]" ps] assms
    by (cases rooted) simp_all
  then show ?thesis
    using is_abs_parts_path [OF assms] parts_path_not_Nil [OF assms] by (simp add: clean_def)
qed

lemma clean_idem [simp]: "clean (clean p) = clean p"
  using clean_eq_parts [of p] clean_parts_path by metis

section \<open>Paths below an absolute directory\<close>

lemma split_on_append_sep: "split_on c (u @ c # v) = split_on c u @ split_on c v"
proof (induction u)
  case (Cons a u)
  then show ?case by (cases "split_on c u") auto
qed simp

lemma clean_parts_append:
  "clean_parts rooted acc (xs @ ys) = clean_parts rooted (rev (clean_parts rooted acc xs)) ys"
  by (induction rooted acc xs rule: clean_parts.induct) auto

lemma clean_parts_plain:
  "(\<forall>x \<in> set xs. plain_part x \<and> x \<noteq> ''..'') \<Longrightarrow> clean_parts rooted acc xs = rev acc @ xs"
  by (induction xs arbitrary: acc) (auto simp: plain_part_def)

lemma join_snoc: "join sep (ps @ [x]) = (if ps = [] then x else join sep ps @ sep @ x)"
  by (induction sep ps rule: join.induct) auto

text \<open>The elements of a cleaned absolute path.\<close>

definition abs_parts :: "string list \<Rightarrow> bool" where
  "abs_parts ps \<longleftrightarrow> (\<forall>p \<in> set ps. plain_part p \<and> p \<noteq> ''..'')"

definition abs_of :: "string list \<Rightarrow> string" where
  "abs_of ps = ''/'' @ join ''/'' ps"

lemma dotdots_lead_plain: "''..'' \<notin> set ps \<Longrightarrow> dotdots_lead ps"
  by (cases ps) auto

lemma abs_parts_normal: "abs_parts ps \<longleftrightarrow> normal_parts True ps"
  by (auto simp: abs_parts_def normal_parts_def dotdots_lead_plain)

lemma clean_abs_of: "abs_parts ps \<Longrightarrow> clean (abs_of ps) = abs_of ps"
  using clean_parts_path [of True ps] by (simp add: abs_parts_normal parts_path_def abs_of_def)

lemma abs_of_clean: "is_abs p \<Longrightarrow> \<exists>ps. clean p = abs_of ps \<and> abs_parts ps"
  using clean_eq_parts [of p] by (auto simp: abs_parts_normal parts_path_def abs_of_def)

lemma is_abs_abs_of [simp]: "is_abs (abs_of ps)"
  by (simp add: abs_of_def is_abs_def)

lemma split_abs_of: "abs_parts ps \<Longrightarrow> split_on SLASH (abs_of ps) = [] # (if ps = [] then [[]] else ps)"
  by (auto simp: abs_of_def abs_parts_def plain_part_def intro!: split_on_join)

lemma path_join_below:
  assumes ps: "abs_parts ps" and xs: "abs_parts xs" "xs \<noteq> []"
  shows "path_join (abs_of ps # xs) = abs_of (ps @ xs)"
proof -
  have "join ''/'' (abs_of ps # xs) = abs_of ps @ SLASH # join ''/'' xs"
    using xs(2) by (cases xs) auto
  then have "split_on SLASH (join ''/'' (abs_of ps # xs)) =
      [] # (if ps = [] then [[]] else ps) @ xs"
    using split_abs_of [OF ps] xs
    by (simp add: split_on_append_sep) (auto simp: abs_parts_def plain_part_def intro!: split_on_join)
  moreover have "clean_parts True [] ([] # (if ps = [] then [[]] else ps) @ xs) = ps @ xs"
    using ps xs clean_parts_plain [of "ps @ xs" True "[]"] by (auto simp: abs_parts_def)
  moreover have "is_abs (join ''/'' (abs_of ps # xs))"
    using \<open>join _ _ = _\<close> by (simp add: abs_of_def is_abs_def)
  moreover have "join ''/'' (abs_of ps # xs) \<noteq> []" using \<open>join _ _ = _\<close> by simp
  ultimately show ?thesis
    by (simp add: path_join_def clean_def parts_path_def) (simp add: abs_of_def)
qed

lemma abs_of_snoc: "abs_of (ps @ [x]) = (if ps = [] then ''/'' else abs_of ps @ ''/'') @ x"
  by (simp add: abs_of_def join_snoc)

lemma dropWhile_rev_slash:
  "SLASH \<notin> set x \<Longrightarrow> rev (dropWhile (\<lambda>c. c \<noteq> SLASH) (rev (u @ ''/'' @ x))) = u @ ''/''"
  using dropWhile_neq_append [of SLASH "rev x" "rev u"] by simp

lemma dir_abs_of:
  assumes "abs_parts (ps @ [x])"
  shows "dir (abs_of (ps @ [x])) = abs_of ps"
proof -
  have x: "SLASH \<notin> set x" and ps: "abs_parts ps" using assms by (auto simp: abs_parts_def plain_part_def)
  show ?thesis
  proof (cases "ps = []")
    case True
    then show ?thesis
      using dropWhile_rev_slash [OF x, of "[]"] by (simp add: abs_of_def dir_def clean_def is_abs_def parts_path_def)
  next
    case False
    have "clean (abs_of ps @ ''/'') = abs_of ps"
    proof -
      have "split_on SLASH (abs_of ps @ [SLASH]) = [] # ps @ [[]]"
        using split_on_append_sep [of SLASH "abs_of ps" "[]"] split_abs_of [OF ps] False by simp
      moreover have "clean_parts True [] ([] # ps @ [[]]) = ps"
        using ps clean_parts_plain [of ps True "[]"] by (simp add: clean_parts_append abs_parts_def)
      ultimately show ?thesis by (simp add: clean_def abs_of_def is_abs_def parts_path_def)
    qed
    then show ?thesis
      using dropWhile_rev_slash [OF x, of "abs_of ps"] False by (simp add: abs_of_snoc dir_def)
  qed
qed

lemma base_abs_of:
  assumes "abs_parts (ps @ [x])"
  shows "base (abs_of (ps @ [x])) = x"
proof -
  have x: "SLASH \<notin> set x" "x \<noteq> []" using assms by (auto simp: abs_parts_def plain_part_def)
  define u where "u = (if ps = [] then [] else abs_of ps)"
  have u: "abs_of (ps @ [x]) = u @ ''/'' @ x" by (simp add: abs_of_snoc u_def)
  have "last x \<noteq> SLASH" using x by (metis last_in_set)
  then have "dropWhile (\<lambda>c. c = SLASH) (rev (u @ ''/'' @ x)) = rev (u @ ''/'' @ x)"
    using x(2) by (cases x rule: rev_cases) auto
  then show ?thesis
    using x takeWhile_neq_append [of SLASH "rev x" "rev u"] by (simp add: base_def u Let_def)
qed

end
