(* ===== verification/ConfigTypes.thy ===== *)
theory ConfigTypes
  imports GoPath
begin

text \<open>
  The data of package \<open>config\<close>: the decoded document \<open>Raw\<close> (\<open>config/raw.go\<close>) and the resolved
  \<open>Spec\<close> (\<open>config/spec.go\<close>). A pointer field is an option, a nil slice or map the empty list (Go's
  \<open>len\<close> does not tell them apart, and neither does any code modelled here). A \<open>json.RawMessage\<close> is
  its text, empty when the key was absent. Go's named string types with a fixed set of values that
  \<open>Resolve\<close> checks are datatypes.
\<close>

section \<open>Raw\<close>

text \<open>
  \<open>Command\<close>: the three forms of a lifecycle command. In the code a struct with a kind and one field
  per form, of which only the field of the kind is ever set.
\<close>

datatype command = CommandNone | CommandShell string | CommandArgv "string list"
  | CommandNamed "(string \<times> command) list"

record raw_build =
  rb_dockerfile :: string
  rb_context :: string
  rb_args :: "string gomap"
  rb_target :: string
  rb_cache_from :: "string list"
  rb_options :: "string list"

record raw_credentials =
  rc_forward_agent :: "bool option"
  rc_sync_git_config :: "bool option"

record raw_devc =
  rd_credentials :: "raw_credentials option"

record raw_customizations =
  rcu_devc :: "raw_devc option"

record raw =
  r_name :: string
  r_image :: string
  r_build :: "raw_build option"
  r_docker_compose_file :: "string list"
  r_service :: string
  r_run_services :: "string list"
  r_workspace_folder :: string
  r_workspace_mount :: string
  r_mounts :: "string list"
  r_container_env :: "string gomap"
  r_remote_env :: "string gomap"
  r_container_user :: string
  r_remote_user :: string
  r_forward_ports :: "string list"
  r_app_port :: "string list"
  r_run_args :: "string list"
  r_init :: "bool option"
  r_privileged :: "bool option"
  r_cap_add :: "string list"
  r_security_opt :: "string list"
  r_override_command :: "bool option"
  r_shutdown_action :: string
  r_user_env_probe :: string
  r_wait_for :: string
  r_initialize_command :: command
  r_on_create_command :: command
  r_update_content_command :: command
  r_post_create_command :: command
  r_post_start_command :: command
  r_post_attach_command :: command
  r_customizations :: raw_customizations
  r_features :: string
  r_host_requirements :: string
  r_update_remote_user_uid :: "bool option"
  r_extra :: "string gomap"

text \<open>The zero value of \<open>Raw\<close>.\<close>

definition empty_build :: raw_build where
  "empty_build = \<lparr>rb_dockerfile = [], rb_context = [], rb_args = [], rb_target = [],
     rb_cache_from = [], rb_options = []\<rparr>"

definition empty_raw :: raw where
  "empty_raw = \<lparr>r_name = [], r_image = [], r_build = None, r_docker_compose_file = [],
     r_service = [], r_run_services = [], r_workspace_folder = [], r_workspace_mount = [],
     r_mounts = [], r_container_env = [], r_remote_env = [], r_container_user = [],
     r_remote_user = [], r_forward_ports = [], r_app_port = [], r_run_args = [], r_init = None,
     r_privileged = None, r_cap_add = [], r_security_opt = [], r_override_command = None,
     r_shutdown_action = [], r_user_env_probe = [], r_wait_for = [],
     r_initialize_command = CommandNone, r_on_create_command = CommandNone,
     r_update_content_command = CommandNone, r_post_create_command = CommandNone,
     r_post_start_command = CommandNone, r_post_attach_command = CommandNone,
     r_customizations = \<lparr>rcu_devc = None\<rparr>, r_features = [], r_host_requirements = [],
     r_update_remote_user_uid = None, r_extra = []\<rparr>"

definition is_zero :: "command \<Rightarrow> bool" where
  "is_zero c \<longleftrightarrow> c = CommandNone"

section \<open>Spec\<close>

datatype kind = KindImage | KindBuild | KindCompose

datatype shutdown_action = ShutdownNone | ShutdownStopCtr | ShutdownStopCompose

datatype env_probe = EnvProbeNone | EnvProbeLogin | EnvProbeInteractive | EnvProbeLoginInteractive

datatype hook_name = HookInitialize | HookOnCreate | HookUpdateContent | HookPostCreate
  | HookPostStart | HookPostAttach

fun kind_text :: "kind \<Rightarrow> string" where
  "kind_text KindImage = ''image''"
| "kind_text KindBuild = ''build''"
| "kind_text KindCompose = ''compose''"

fun shutdown_text :: "shutdown_action \<Rightarrow> string" where
  "shutdown_text ShutdownNone = ''none''"
| "shutdown_text ShutdownStopCtr = ''stopContainer''"
| "shutdown_text ShutdownStopCompose = ''stopCompose''"

fun env_probe_text :: "env_probe \<Rightarrow> string" where
  "env_probe_text EnvProbeNone = ''none''"
| "env_probe_text EnvProbeLogin = ''loginShell''"
| "env_probe_text EnvProbeInteractive = ''interactiveShell''"
| "env_probe_text EnvProbeLoginInteractive = ''loginInteractiveShell''"

fun hook_text :: "hook_name \<Rightarrow> string" where
  "hook_text HookInitialize = ''initializeCommand''"
| "hook_text HookOnCreate = ''onCreateCommand''"
| "hook_text HookUpdateContent = ''updateContentCommand''"
| "hook_text HookPostCreate = ''postCreateCommand''"
| "hook_text HookPostStart = ''postStartCommand''"
| "hook_text HookPostAttach = ''postAttachCommand''"

record credentials =
  forward_agent :: bool
  sync_git_config :: bool

record port_forward =
  host_ip :: string
  host_port :: int
  container_port :: int

record build_spec =
  b_dockerfile :: string
  b_context :: string
  b_args :: "string gomap"
  b_target :: string
  b_cache_from :: "string list"
  b_options :: "string list"

record image_spec =
  i_image :: string
  i_build :: "build_spec option"
  i_workspace_mount :: string
  i_mounts :: "string list"
  i_container_env :: "string gomap"
  i_app_ports :: "port_forward list"
  i_run_args :: "string list"
  i_init :: bool
  i_privileged :: bool
  i_cap_add :: "string list"
  i_security_opt :: "string list"

record compose_spec =
  c_files :: "string list"
  c_service :: string
  c_run_services :: "string list"

record hooks =
  h_initialize :: command
  h_on_create :: command
  h_update_content :: command
  h_post_create :: command
  h_post_start :: command
  h_post_attach :: command

record spec =
  s_id :: string
  s_name :: string
  s_kind :: kind
  s_config_path :: string
  s_local_folder :: string
  s_container_folder :: string
  s_image :: "image_spec option"
  s_compose :: "compose_spec option"
  s_container_user :: string
  s_remote_user :: string
  s_remote_env :: "string gomap"
  s_ports :: "port_forward list"
  s_override_command :: bool
  s_shutdown_action :: shutdown_action
  s_env_probe :: env_probe
  s_wait_for :: hook_name
  s_credentials :: credentials
  s_hooks :: hooks

lemma hook_text_inj [simp]: "hook_text a = hook_text b \<longleftrightarrow> a = b"
  by (cases a; cases b) simp_all

lemma hook_text_not_Nil [simp]: "hook_text h \<noteq> []"
  by (cases h) simp_all

end
