(* ===== verification/ConfigDecode.thy ===== *)
theory ConfigDecode
  imports ConfigTypes
begin

text \<open>
  The decoders of \<open>config/raw.go\<close>. The JSON text itself is parsed by \<open>encoding/json\<close>; its value is the
  datatype \<open>json\<close> (a number keeps its literal text, an object its members in document order,
  duplicates included). \<open>UnmarshalJSON\<close> methods look at the first byte of their text to tell the
  kinds of values apart, which is the case split on the constructor here. A decode error of the
  library is \<open>TypeMismatch\<close>; a struct decode reports the first error in document order.
\<close>

datatype json = JNull | JBool bool | JNum string | JStr string | JArr "json list"
  | JObj "(string \<times> json) list"

datatype decode_error = TypeMismatch | CommandShape | NestedNamed string | InCommand string decode_error

section \<open>encoding/json\<close>

text \<open>\<open>null\<close> leaves the element's zero value in place.\<close>

fun json_string :: "json \<Rightarrow> decode_error + string" where
  "json_string (JStr s) = Inr s"
| "json_string JNull = Inr []"
| "json_string _ = Inl TypeMismatch"

fun json_strings :: "json \<Rightarrow> decode_error + string list" where
  "json_strings JNull = Inr []"
| "json_strings (JArr xs) = res_traverse json_string xs"
| "json_strings _ = Inl TypeMismatch"

fun json_int :: "json \<Rightarrow> decode_error + int" where
  "json_int JNull = Inr 0"
| "json_int (JNum t) = (case atoi t of None \<Rightarrow> Inl TypeMismatch | Some n \<Rightarrow> Inr n)"
| "json_int _ = Inl TypeMismatch"

text \<open>A JSON object decoded into a Go map: a later member overwrites an earlier one of the same key.\<close>

definition obj_map :: "(string \<times> 'a) list \<Rightarrow> 'a gomap" where
  "obj_map ms = rev (foldl (\<lambda>m kv. map_put (fst kv) (snd kv) m) [] ms)"

text \<open>
  The key folding of a struct decode: ASCII letters without case, and the two non-ASCII runes that
  fold to an ASCII letter, U+017F (bytes C5 BF, to \<open>s\<close>) and the Kelvin sign (to \<open>k\<close>).
\<close>

fun fold_name :: "string \<Rightarrow> string" where
  "fold_name (a # b # c # s) =
     (if a = CHR 0xE2 \<and> b = CHR 0x84 \<and> c = CHR 0xAA then CHR ''k'' # fold_name s
      else if a = CHR 0xC5 \<and> b = CHR 0xBF then CHR ''s'' # fold_name (c # s)
      else lower_byte a # fold_name (b # c # s))"
| "fold_name [a, b] =
     (if a = CHR 0xC5 \<and> b = CHR 0xBF then [CHR ''s''] else [lower_byte a, lower_byte b])"
| "fold_name [a] = [lower_byte a]"
| "fold_name [] = []"

section \<open>StringOrArray\<close>

fun decode_string_or_array :: "json \<Rightarrow> decode_error + string list" where
  "decode_string_or_array JNull = Inr []"
| "decode_string_or_array (JArr xs) = json_strings (JArr xs)"
| "decode_string_or_array j = res_map (\<lambda>s. [s]) (json_string j)"

section \<open>Command\<close>

lemma res_traverse_cong [fundef_cong]:
  "xs = ys \<Longrightarrow> (\<And>x. x \<in> set ys \<Longrightarrow> f x = g x) \<Longrightarrow> res_traverse f xs = res_traverse g ys"
  by (induction ys arbitrary: xs) (auto split: sum.splits)

lemma set_map_put: "set (map_put k v m) \<subseteq> insert (k, v) (set m)"
  by (auto simp: map_put_def)

lemma set_foldl_put:
  "set (foldl (\<lambda>m kv. map_put (fst kv) (snd kv) m) a ms) \<subseteq> set a \<union> set ms"
proof (induction ms arbitrary: a)
  case (Cons x ms)
  have "set (map_put (fst x) (snd x) a) \<subseteq> insert x (set a)"
    using set_map_put [of "fst x" "snd x" a] by simp
  then show ?case using Cons.IH [of "map_put (fst x) (snd x) a"] by auto
qed simp

lemma set_obj_map: "set (obj_map ms) \<subseteq> set ms"
  using set_foldl_put [of "[]" ms] by (simp add: obj_map_def)

function decode_command :: "json \<Rightarrow> decode_error + command" where
  "decode_command j =
     (case j of
        JNull \<Rightarrow> Inr CommandNone
      | JStr s \<Rightarrow> Inr (CommandShell s)
      | JArr xs \<Rightarrow> res_map CommandArgv (json_strings (JArr xs))
      | JObj ms \<Rightarrow>
          res_map CommandNamed
            (res_traverse
               (\<lambda>(name, v).
                  case decode_command v of
                    Inl e \<Rightarrow> Inl (InCommand name e)
                  | Inr (CommandNamed cs) \<Rightarrow> Inl (NestedNamed name)
                  | Inr c \<Rightarrow> Inr (name, c))
               (obj_map ms))
      | _ \<Rightarrow> Inl CommandShape)"
  by pat_completeness auto
termination
proof (relation "measure size")
  fix j ms x name v
  assume "j = JObj ms" "x \<in> set (obj_map ms)" "(name, v) = x"
  then have "(name, v) \<in> set ms" using set_obj_map by fastforce
  then have "size v < Suc (size_list (size_prod (\<lambda>_. 0) size) ms)"
    by (induction ms) auto
  then show "(v, j) \<in> measure size" using \<open>j = JObj ms\<close> by simp
qed simp

declare decode_command.simps [simp del]

text \<open>\<open>Command.MarshalJSON\<close>: the original shape.\<close>

fun command_json :: "command \<Rightarrow> json" where
  "command_json CommandNone = JNull"
| "command_json (CommandShell s) = JStr s"
| "command_json (CommandArgv xs) = JArr (map JStr xs)"
| "command_json (CommandNamed cs) = JObj (map (\<lambda>(n, c). (n, command_json c)) cs)"

section \<open>PortList\<close>

fun decode_port :: "json \<Rightarrow> decode_error + string" where
  "decode_port (JStr s) = Inr s"
| "decode_port j = res_map itoa (json_int j)"

fun decode_port_list :: "string list \<Rightarrow> json \<Rightarrow> decode_error + string list" where
  "decode_port_list p JNull = Inr p"
| "decode_port_list p (JArr xs) = res_map (\<lambda>ys. p @ ys) (res_traverse decode_port xs)"
| "decode_port_list p j = res_map (\<lambda>ys. p @ ys) (res_traverse decode_port [j])"

section \<open>MountList\<close>

record mount_obj =
  m_source :: string
  m_target :: string
  m_type :: string

fun mount_member :: "mount_obj \<Rightarrow> string \<times> json \<Rightarrow> decode_error + mount_obj" where
  "mount_member m (k, v) =
     (let put = (\<lambda>set. case v of JNull \<Rightarrow> Inr m | _ \<Rightarrow> res_map (\<lambda>s. set s) (json_string v)) in
      if fold_name k = ''source'' then put (\<lambda>s. m\<lparr>m_source := s\<rparr>)
      else if fold_name k = ''target'' then put (\<lambda>s. m\<lparr>m_target := s\<rparr>)
      else if fold_name k = ''type'' then put (\<lambda>s. m\<lparr>m_type := s\<rparr>)
      else Inr m)"

fun res_foldl :: "('s \<Rightarrow> 'a \<Rightarrow> 'e + 's) \<Rightarrow> 's \<Rightarrow> 'a list \<Rightarrow> 'e + 's" where
  "res_foldl f s [] = Inr s"
| "res_foldl f s (x # xs) = (case f s x of Inl e \<Rightarrow> Inl e | Inr s' \<Rightarrow> res_foldl f s' xs)"

fun decode_mount_obj :: "json \<Rightarrow> decode_error + mount_obj" where
  "decode_mount_obj JNull = Inr \<lparr>m_source = [], m_target = [], m_type = []\<rparr>"
| "decode_mount_obj (JObj ms) = res_foldl mount_member \<lparr>m_source = [], m_target = [], m_type = []\<rparr> ms"
| "decode_mount_obj _ = Inl TypeMismatch"

definition mount_text :: "mount_obj \<Rightarrow> string" where
  "mount_text m =
     ''type='' @ (if m_type m = [] then ''bind'' else m_type m)
     @ '',source='' @ m_source m @ '',target='' @ m_target m"

fun decode_mount :: "json \<Rightarrow> decode_error + string" where
  "decode_mount (JStr s) = Inr s"
| "decode_mount j = res_map mount_text (decode_mount_obj j)"

fun decode_mount_list :: "string list \<Rightarrow> json \<Rightarrow> decode_error + string list" where
  "decode_mount_list m JNull = Inr m"
| "decode_mount_list m (JArr xs) = res_map (\<lambda>ys. m @ ys) (res_traverse decode_mount xs)"
| "decode_mount_list m _ = Inl TypeMismatch"

section \<open>Struct decoding\<close>

text \<open>
  What \<open>json.Unmarshal\<close> does to a field that already has a value (the zero value, or the value of an
  earlier member of the same name): \<open>null\<close> leaves a string or struct alone and clears a pointer,
  slice or map; an object is merged into a map or struct; \<open>StringOrArray\<close> ignores \<open>null\<close>.
\<close>

fun into_string :: "string \<Rightarrow> json \<Rightarrow> decode_error + string" where
  "into_string old JNull = Inr old"
| "into_string old v = json_string v"

fun into_strings :: "string list \<Rightarrow> json \<Rightarrow> decode_error + string list" where
  "into_strings old JNull = Inr old"
| "into_strings old v = decode_string_or_array v"

fun json_bool :: "json \<Rightarrow> decode_error + bool option" where
  "json_bool JNull = Inr None"
| "json_bool (JBool b) = Inr (Some b)"
| "json_bool _ = Inl TypeMismatch"

definition map_member :: "string gomap \<Rightarrow> string \<times> json \<Rightarrow> decode_error + string gomap" where
  "map_member m kv = res_map (\<lambda>s. map_put (fst kv) s m) (json_string (snd kv))"

fun into_map :: "string gomap \<Rightarrow> json \<Rightarrow> decode_error + string gomap" where
  "into_map old JNull = Inr []"
| "into_map old (JObj ms) = res_foldl map_member old ms"
| "into_map old _ = Inl TypeMismatch"

fun into_struct :: "('s \<Rightarrow> string \<times> json \<Rightarrow> decode_error + 's) \<Rightarrow> 's \<Rightarrow> json \<Rightarrow> decode_error + 's" where
  "into_struct member old JNull = Inr old"
| "into_struct member old (JObj ms) = res_foldl member old ms"
| "into_struct member old _ = Inl TypeMismatch"

fun into_ptr :: "'s \<Rightarrow> ('s \<Rightarrow> string \<times> json \<Rightarrow> decode_error + 's) \<Rightarrow> 's option \<Rightarrow> json
    \<Rightarrow> decode_error + 's option" where
  "into_ptr zero member old JNull = Inr None"
| "into_ptr zero member old v =
     res_map Some (into_struct member (case old of None \<Rightarrow> zero | Some s \<Rightarrow> s) v)"

definition build_member :: "raw_build \<Rightarrow> string \<times> json \<Rightarrow> decode_error + raw_build" where
  "build_member b kv =
     (let k = fold_name (fst kv); v = snd kv in
      if k = ''dockerfile'' then res_map (\<lambda>x. b\<lparr>rb_dockerfile := x\<rparr>) (into_string (rb_dockerfile b) v)
      else if k = ''context'' then res_map (\<lambda>x. b\<lparr>rb_context := x\<rparr>) (into_string (rb_context b) v)
      else if k = ''args'' then res_map (\<lambda>x. b\<lparr>rb_args := x\<rparr>) (into_map (rb_args b) v)
      else if k = ''target'' then res_map (\<lambda>x. b\<lparr>rb_target := x\<rparr>) (into_string (rb_target b) v)
      else if k = ''cachefrom'' then
        res_map (\<lambda>x. b\<lparr>rb_cache_from := x\<rparr>) (into_strings (rb_cache_from b) v)
      else if k = ''options'' then res_map (\<lambda>x. b\<lparr>rb_options := x\<rparr>) (json_strings v)
      else Inr b)"

definition credentials_member :: "raw_credentials \<Rightarrow> string \<times> json \<Rightarrow> decode_error + raw_credentials" where
  "credentials_member c kv =
     (let k = fold_name (fst kv); v = snd kv in
      if k = ''forwardagent'' then res_map (\<lambda>x. c\<lparr>rc_forward_agent := x\<rparr>) (json_bool v)
      else if k = ''syncgitconfig'' then res_map (\<lambda>x. c\<lparr>rc_sync_git_config := x\<rparr>) (json_bool v)
      else Inr c)"

definition devc_member :: "raw_devc \<Rightarrow> string \<times> json \<Rightarrow> decode_error + raw_devc" where
  "devc_member d kv =
     (if fold_name (fst kv) = ''credentials''
      then res_map (\<lambda>x. d\<lparr>rd_credentials := x\<rparr>)
        (into_ptr \<lparr>rc_forward_agent = None, rc_sync_git_config = None\<rparr> credentials_member
           (rd_credentials d) (snd kv))
      else Inr d)"

definition customizations_member ::
    "raw_customizations \<Rightarrow> string \<times> json \<Rightarrow> decode_error + raw_customizations" where
  "customizations_member c kv =
     (if fold_name (fst kv) = ''devc''
      then res_map (\<lambda>x. c\<lparr>rcu_devc := x\<rparr>)
        (into_ptr \<lparr>rd_credentials = None\<rparr> devc_member (rcu_devc c) (snd kv))
      else Inr c)"

section \<open>Raw\<close>

text \<open>
  A member of the document: its key, the text of its value and the value. \<open>json.RawMessage\<close> fields
  keep the text.
\<close>

type_synonym doc_member = "string \<times> string \<times> json"

definition raw_member :: "raw \<Rightarrow> doc_member \<Rightarrow> decode_error + raw" where
  "raw_member r m =
     (let k = fold_name (fst m); t = fst (snd m); v = snd (snd m) in
      if k = ''name'' then
        res_map (\<lambda>x. r\<lparr>r_name := x\<rparr>) (into_string (r_name r) v)
      else if k = ''image'' then
        res_map (\<lambda>x. r\<lparr>r_image := x\<rparr>) (into_string (r_image r) v)
      else if k = ''build'' then
        res_map (\<lambda>x. r\<lparr>r_build := x\<rparr>) (into_ptr empty_build build_member (r_build r) v)
      else if k = ''dockercomposefile'' then
        res_map (\<lambda>x. r\<lparr>r_docker_compose_file := x\<rparr>) (into_strings (r_docker_compose_file r) v)
      else if k = ''service'' then
        res_map (\<lambda>x. r\<lparr>r_service := x\<rparr>) (into_string (r_service r) v)
      else if k = ''runservices'' then
        res_map (\<lambda>x. r\<lparr>r_run_services := x\<rparr>) (json_strings v)
      else if k = ''workspacefolder'' then
        res_map (\<lambda>x. r\<lparr>r_workspace_folder := x\<rparr>) (into_string (r_workspace_folder r) v)
      else if k = ''workspacemount'' then
        res_map (\<lambda>x. r\<lparr>r_workspace_mount := x\<rparr>) (into_string (r_workspace_mount r) v)
      else if k = ''mounts'' then
        res_map (\<lambda>x. r\<lparr>r_mounts := x\<rparr>) (decode_mount_list (r_mounts r) v)
      else if k = ''containerenv'' then
        res_map (\<lambda>x. r\<lparr>r_container_env := x\<rparr>) (into_map (r_container_env r) v)
      else if k = ''remoteenv'' then
        res_map (\<lambda>x. r\<lparr>r_remote_env := x\<rparr>) (into_map (r_remote_env r) v)
      else if k = ''containeruser'' then
        res_map (\<lambda>x. r\<lparr>r_container_user := x\<rparr>) (into_string (r_container_user r) v)
      else if k = ''remoteuser'' then
        res_map (\<lambda>x. r\<lparr>r_remote_user := x\<rparr>) (into_string (r_remote_user r) v)
      else if k = ''forwardports'' then
        res_map (\<lambda>x. r\<lparr>r_forward_ports := x\<rparr>) (decode_port_list (r_forward_ports r) v)
      else if k = ''appport'' then
        res_map (\<lambda>x. r\<lparr>r_app_port := x\<rparr>) (decode_port_list (r_app_port r) v)
      else if k = ''runargs'' then
        res_map (\<lambda>x. r\<lparr>r_run_args := x\<rparr>) (json_strings v)
      else if k = ''init'' then
        res_map (\<lambda>x. r\<lparr>r_init := x\<rparr>) (json_bool v)
      else if k = ''privileged'' then
        res_map (\<lambda>x. r\<lparr>r_privileged := x\<rparr>) (json_bool v)
      else if k = ''capadd'' then
        res_map (\<lambda>x. r\<lparr>r_cap_add := x\<rparr>) (json_strings v)
      else if k = ''securityopt'' then
        res_map (\<lambda>x. r\<lparr>r_security_opt := x\<rparr>) (json_strings v)
      else if k = ''overridecommand'' then
        res_map (\<lambda>x. r\<lparr>r_override_command := x\<rparr>) (json_bool v)
      else if k = ''shutdownaction'' then
        res_map (\<lambda>x. r\<lparr>r_shutdown_action := x\<rparr>) (into_string (r_shutdown_action r) v)
      else if k = ''userenvprobe'' then
        res_map (\<lambda>x. r\<lparr>r_user_env_probe := x\<rparr>) (into_string (r_user_env_probe r) v)
      else if k = ''waitfor'' then
        res_map (\<lambda>x. r\<lparr>r_wait_for := x\<rparr>) (into_string (r_wait_for r) v)
      else if k = ''initializecommand'' then
        res_map (\<lambda>x. r\<lparr>r_initialize_command := x\<rparr>) (decode_command v)
      else if k = ''oncreatecommand'' then
        res_map (\<lambda>x. r\<lparr>r_on_create_command := x\<rparr>) (decode_command v)
      else if k = ''updatecontentcommand'' then
        res_map (\<lambda>x. r\<lparr>r_update_content_command := x\<rparr>) (decode_command v)
      else if k = ''postcreatecommand'' then
        res_map (\<lambda>x. r\<lparr>r_post_create_command := x\<rparr>) (decode_command v)
      else if k = ''poststartcommand'' then
        res_map (\<lambda>x. r\<lparr>r_post_start_command := x\<rparr>) (decode_command v)
      else if k = ''postattachcommand'' then
        res_map (\<lambda>x. r\<lparr>r_post_attach_command := x\<rparr>) (decode_command v)
      else if k = ''customizations'' then
        res_map (\<lambda>x. r\<lparr>r_customizations := x\<rparr>) (into_struct customizations_member (r_customizations r) v)
      else if k = ''features'' then
        Inr (r\<lparr>r_features := t\<rparr>)
      else if k = ''hostrequirements'' then
        Inr (r\<lparr>r_host_requirements := t\<rparr>)
      else if k = ''updateremoteuseruid'' then
        res_map (\<lambda>x. r\<lparr>r_update_remote_user_uid := x\<rparr>) (json_bool v)
      else Inr r)"

definition known_keys :: "string list" where
  "known_keys =
    [''name'', ''image'', ''build'', ''dockerComposeFile'', ''service'', ''runServices'',
     ''workspaceFolder'', ''workspaceMount'', ''mounts'', ''containerEnv'', ''remoteEnv'',
     ''containerUser'', ''remoteUser'', ''forwardPorts'', ''appPort'', ''runArgs'',
     ''init'', ''privileged'', ''capAdd'', ''securityOpt'', ''overrideCommand'',
     ''shutdownAction'', ''userEnvProbe'', ''waitFor'', ''initializeCommand'',
     ''onCreateCommand'', ''updateContentCommand'', ''postCreateCommand'',
     ''postStartCommand'', ''postAttachCommand'', ''features'', ''hostRequirements'',
     ''updateRemoteUserUID'', ''customizations'']"

definition extra_keys :: "doc_member list \<Rightarrow> string gomap" where
  "extra_keys ms = filter (\<lambda>kv. fst kv \<notin> set known_keys) (obj_map (map (\<lambda>(k, t, v). (k, t)) ms))"

text \<open>\<open>Raw.UnmarshalJSON\<close> of an object with the given members.\<close>

definition decode_raw :: "doc_member list \<Rightarrow> decode_error + raw" where
  "decode_raw ms = res_map (\<lambda>r. r\<lparr>r_extra := extra_keys ms\<rparr>) (res_foldl raw_member empty_raw ms)"

section \<open>Lemmas\<close>

lemma res_foldl_append:
  "res_foldl f s (xs @ ys) = (case res_foldl f s xs of Inl e \<Rightarrow> Inl e | Inr s' \<Rightarrow> res_foldl f s' ys)"
  by (induction xs arbitrary: s) (auto split: sum.splits)

lemma res_foldl_filter:
  "(\<And>s x. \<not> P x \<Longrightarrow> f s x = Inr s) \<Longrightarrow> res_foldl f s xs = res_foldl f s (filter P xs)"
  by (induction xs arbitrary: s) (auto split: sum.splits)

lemma known_keys_folded:
  "map fold_name known_keys =
    [''name'', ''image'', ''build'', ''dockercomposefile'', ''service'', ''runservices'',
     ''workspacefolder'', ''workspacemount'', ''mounts'', ''containerenv'', ''remoteenv'',
     ''containeruser'', ''remoteuser'', ''forwardports'', ''appport'', ''runargs'',
     ''init'', ''privileged'', ''capadd'', ''securityopt'', ''overridecommand'',
     ''shutdownaction'', ''userenvprobe'', ''waitfor'', ''initializecommand'',
     ''oncreatecommand'', ''updatecontentcommand'', ''postcreatecommand'',
     ''poststartcommand'', ''postattachcommand'', ''features'', ''hostrequirements'',
     ''updateremoteuseruid'', ''customizations'']"
  by code_simp

lemma raw_member_unknown:
  "fold_name k \<notin> set (map fold_name known_keys) \<Longrightarrow> raw_member r (k, t, v) = Inr r"
  unfolding known_keys_folded raw_member_def Let_def fst_conv
  by (simp only: list.set insert_iff de_Morgan_disj if_False simp_thms)

lemma distinct_foldl_put:
  "distinct (map fst a) \<Longrightarrow> distinct (map fst (foldl (\<lambda>m kv. map_put (fst kv) (snd kv) m) a ms))"
  by (induction ms arbitrary: a) (simp_all add: distinct_fst_map_put)

lemma distinct_obj_map: "distinct (map fst (obj_map ms))"
  using distinct_foldl_put [of "[]" ms] by (simp add: obj_map_def rev_map [symmetric])

lemma map_put_fresh: "k \<notin> fst ` set m \<Longrightarrow> map_put k v m = (k, v) # m"
  by (auto simp: map_put_def filter_id_conv)

lemma foldl_put_distinct:
  "distinct (map fst ms) \<Longrightarrow> fst ` set ms \<inter> fst ` set a = {} \<Longrightarrow>
   foldl (\<lambda>m kv. map_put (fst kv) (snd kv) m) a ms = rev ms @ a"
proof (induction ms arbitrary: a)
  case (Cons x ms)
  have "map_put (fst x) (snd x) a = x # a" using Cons.prems(2) by (simp add: map_put_fresh)
  then show ?case using Cons by (auto simp: image_iff)
qed simp

lemma obj_map_distinct: "distinct (map fst ms) \<Longrightarrow> obj_map ms = ms"
  by (simp add: obj_map_def foldl_put_distinct)

text \<open>The commands the decoder produces: no name twice, no object inside an object.\<close>

fun is_named :: "command \<Rightarrow> bool" where
  "is_named (CommandNamed cs) = True"
| "is_named _ = False"

fun wf_command :: "command \<Rightarrow> bool" where
  "wf_command (CommandNamed cs) \<longleftrightarrow> distinct (map fst cs) \<and> list_all (\<lambda>nc. \<not> is_named (snd nc)) cs"
| "wf_command _ = True"

lemma json_strings_JStr: "json_strings (JArr (map JStr xs)) = Inr xs"
  by (induction xs) auto

lemma decode_command_leaf:
  "\<not> is_named c \<Longrightarrow> decode_command (command_json c) = Inr c"
  by (cases c) (simp_all add: decode_command.simps json_strings_JStr del: json_strings.simps)

lemma decode_command_wf: "decode_command j = Inr c \<Longrightarrow> wf_command c"
proof (cases j)
  case (JObj ms)
  let ?f = "\<lambda>(name, v). case decode_command v of Inl e \<Rightarrow> Inl (InCommand name e)
    | Inr (CommandNamed cs) \<Rightarrow> Inl (NestedNamed name) | Inr c \<Rightarrow> Inr (name, c)"
  assume "decode_command j = Inr c"
  then obtain cs where cs: "res_traverse ?f (obj_map ms) = Inr cs" "c = CommandNamed cs"
    by (subst (asm) decode_command.simps) (auto simp: JObj)
  have step: "?f x = Inr y \<Longrightarrow> fst y = fst x \<and> \<not> is_named (snd y)" for x y
    by (cases x) (auto split: sum.splits command.splits)
  have all2: "list_all2 (\<lambda>x y. ?f x = Inr y) (obj_map ms) cs"
    using cs(1) by (simp add: res_traverse_Inr)
  then have "map fst cs = map fst (obj_map ms)"
    by (induction rule: list_all2_induct) (use step in auto)
  moreover have "list_all (\<lambda>nc. \<not> is_named (snd nc)) cs"
    using all2 by (induction rule: list_all2_induct) (use step in auto)
  ultimately show ?thesis using distinct_obj_map [of ms] cs(2) by simp
qed (auto simp: decode_command.simps)

lemma decode_named:
  "list_all (\<lambda>nc. \<not> is_named (snd nc)) cs \<Longrightarrow>
   res_traverse
     (\<lambda>(name, v). case decode_command v of Inl e \<Rightarrow> Inl (InCommand name e)
        | Inr (CommandNamed cs) \<Rightarrow> Inl (NestedNamed name) | Inr c \<Rightarrow> Inr (name, c))
     (map (\<lambda>(n, c). (n, command_json c)) cs) = Inr cs"
  by (induction cs) (auto simp: decode_command_leaf split: command.splits)

lemma decode_command_json: "wf_command c \<Longrightarrow> decode_command (command_json c) = Inr c"
proof (cases c)
  case (CommandNamed cs)
  assume wf: "wf_command c"
  have keys: "map fst (map (\<lambda>(n, c). (n, command_json c)) cs) = map fst cs"
    by (induction cs) auto
  have "obj_map (map (\<lambda>(n, c). (n, command_json c)) cs) = map (\<lambda>(n, c). (n, command_json c)) cs"
    using wf by (intro obj_map_distinct) (simp only: keys CommandNamed wf_command.simps)
  then show ?thesis
    using wf by (subst decode_command.simps) (simp add: CommandNamed decode_named)
qed (simp_all add: decode_command_leaf del: command_json.simps)

text \<open>
  \<open>devc config\<close> round-trips lifecycle commands. A command that was decoded is marshalled back to
  a JSON value that decodes to the same command, and it never holds an object inside an object or
  the same name twice.
\<close>

lemma command_roundtrip:
  assumes "decode_command j = Inr c"
  shows "decode_command (command_json c) = Inr c \<and> wf_command c"
  using assms decode_command_wf decode_command_json by blast

lemma command_roundtrip_witness:
  "decode_command (command_json (CommandNamed [(''a'', CommandShell ''make''),
      (''b'', CommandArgv [''go'', ''vet''])])) =
     Inr (CommandNamed [(''a'', CommandShell ''make''), (''b'', CommandArgv [''go'', ''vet''])])"
  by (rule conjunct1 [OF command_roundtrip [of "JObj [(''b'', JNull), (''a'', JStr ''make''),
      (''b'', JArr [JStr ''go'', JStr ''vet''])]"
    "CommandNamed [(''a'', CommandShell ''make''), (''b'', CommandArgv [''go'', ''vet''])]"]])
    code_simp

text \<open>
  A document's unknown keys never change or break the decode. Decoding a document gives the
  result of decoding only its recognised members (matched without case, as \<open>encoding/json\<close> does),
  an error exactly when that is one; the other keys are reported in \<open>Extra\<close> and nowhere else.
\<close>

lemma decode_raw_unknown:
  "decode_raw ms =
     res_map (\<lambda>r. r\<lparr>r_extra := extra_keys ms\<rparr>)
       (decode_raw (filter (\<lambda>m. fold_name (fst m) \<in> set (map fold_name known_keys)) ms))"
proof -
  have "res_foldl raw_member empty_raw ms =
      res_foldl raw_member empty_raw
        (filter (\<lambda>m. fold_name (fst m) \<in> set (map fold_name known_keys)) ms)"
    by (rule res_foldl_filter) (metis prod.collapse raw_member_unknown)
  then show ?thesis by (simp add: decode_raw_def res_map_def split: sum.split)
qed

end
