(* ===== verification/Subst.thy ===== *)
theory Subst
  imports ConfigDecode
begin

text \<open>
  Variable substitution (\<open>config/subst.go\<close>): the expansion of \<open>${...}\<close> references in one string, the
  passes over every string of \<open>Raw\<close>, and the check for references that are left. The code walks
  \<open>Raw\<close> by reflection; here the walk is the list of \<open>Raw\<close>'s string-bearing fields in declaration
  order. Map values are visited in the list order of the map (in the code in no fixed order, which
  shows only in which of several errors is reported).
\<close>

section \<open>References\<close>

text \<open>
  The matches of \<open>varPattern\<close>, \<open>\$\{[^}]*\}\<close>, leftmost first: a string as the sequence of its bytes
  outside any match and the bodies of its matches.
\<close>

datatype seg = Lit char | Ref string

function var_segs :: "string \<Rightarrow> seg list" where
  "var_segs s =
     (case s of
        [] \<Rightarrow> []
      | c # t \<Rightarrow>
          if prefix ''${'' s \<and> CHR ''}'' \<in> set (drop 2 s)
          then Ref (takeWhile (\<lambda>x. x \<noteq> CHR ''}'') (drop 2 s))
                 # var_segs (tl (dropWhile (\<lambda>x. x \<noteq> CHR ''}'') (drop 2 s)))
          else Lit c # var_segs t)"
  by pat_completeness auto
termination
proof (relation "measure length")
  fix s c t
  assume s: "s = c # t" and "prefix ''${'' s \<and> CHR ''}'' \<in> set (drop 2 s)"
  have "length (tl (dropWhile (\<lambda>x. x \<noteq> CHR ''}'') (drop 2 s))) \<le> length (drop 2 s)"
    by (metis diff_le_self dual_order.trans length_dropWhile_le length_tl)
  then show "(tl (dropWhile (\<lambda>x. x \<noteq> CHR ''}'') (drop 2 s)), s) \<in> measure length"
    using s by simp
qed simp_all

declare var_segs.simps [simp del]

fun seg_text :: "seg \<Rightarrow> string" where
  "seg_text (Lit c) = [c]"
| "seg_text (Ref b) = ''${'' @ b @ ''}''"

fun seg_refs :: "seg \<Rightarrow> string list" where
  "seg_refs (Lit c) = []"
| "seg_refs (Ref b) = [b]"

definition refs :: "string \<Rightarrow> string list" where
  "refs s = concat (map seg_refs (var_segs s))"

section \<open>Expansion of one string\<close>

record subst_context =
  sc_local_folder :: string
  sc_container_folder :: string
  sc_devcontainer_id :: string
  sc_lookup_env :: "string \<Rightarrow> string option"

datatype subst_error = UnknownVariable string | UnresolvedVariable string

definition split_env_ref :: "string \<Rightarrow> string \<times> string \<times> bool" where
  "split_env_ref s =
     (if CHR '':'' \<in> set s
      then (takeWhile (\<lambda>c. c \<noteq> CHR '':'') s, tl (dropWhile (\<lambda>c. c \<noteq> CHR '':'') s), True)
      else (s, [], False))"

text \<open>\<open>resolveVar\<close>: \<open>Inr None\<close> is a deferred reference.\<close>

definition resolve_var :: "subst_context \<Rightarrow> string \<Rightarrow> subst_error + string option" where
  "resolve_var ctx body =
     (if body = ''localWorkspaceFolder'' then Inr (Some (sc_local_folder ctx))
      else if body = ''localWorkspaceFolderBasename'' then Inr (Some (base (sc_local_folder ctx)))
      else if body = ''containerWorkspaceFolder'' then Inr (Some (sc_container_folder ctx))
      else if body = ''containerWorkspaceFolderBasename''
        then Inr (Some (base (sc_container_folder ctx)))
      else if body = ''devcontainerId'' then Inr (Some (sc_devcontainer_id ctx))
      else if prefix ''localEnv:'' body then
        (case split_env_ref (drop 9 body) of (name, def, has_def) \<Rightarrow>
           case sc_lookup_env ctx name of
             Some v \<Rightarrow> Inr (Some v)
           | None \<Rightarrow> if has_def then Inr (Some def) else Inr (Some []))
      else if prefix ''containerEnv:'' body then Inr None
      else Inl (UnknownVariable body))"

fun seg_expand :: "subst_context \<Rightarrow> seg \<Rightarrow> subst_error + string \<times> bool" where
  "seg_expand ctx (Lit c) = Inr ([c], False)"
| "seg_expand ctx (Ref b) =
     (case resolve_var ctx b of
        Inl e \<Rightarrow> Inl e
      | Inr None \<Rightarrow> Inr (seg_text (Ref b), True)
      | Inr (Some r) \<Rightarrow> Inr (r, False))"

fun errors :: "('e + 'a) list \<Rightarrow> 'e list" where
  "errors [] = []"
| "errors (Inl e # xs) = e # errors xs"
| "errors (Inr x # xs) = errors xs"

fun oks :: "('e + 'a) list \<Rightarrow> 'a list" where
  "oks [] = []"
| "oks (Inl e # xs) = oks xs"
| "oks (Inr x # xs) = x # oks xs"

text \<open>
  \<open>expand\<close>: every match is replaced, whatever the others do; the error reported is that of the last
  reference that has one.
\<close>

definition expand :: "subst_context \<Rightarrow> string \<Rightarrow> subst_error + string \<times> bool" where
  "expand ctx s =
     (if \<not> contains s ''${'' then Inr (s, False)
      else (let rs = map (seg_expand ctx) (var_segs s) in
            if errors rs \<noteq> [] then Inl (last (errors rs))
            else Inr (concat (map fst (oks rs)), list_ex snd (oks rs))))"

section \<open>The passes over Raw\<close>

definition expand_string :: "subst_context \<Rightarrow> string \<Rightarrow> subst_error + string" where
  "expand_string ctx s = res_map fst (expand ctx s)"

definition subst_list :: "subst_context \<Rightarrow> string list \<Rightarrow> subst_error + string list" where
  "subst_list ctx xs = res_traverse (expand_string ctx) xs"

definition subst_map :: "subst_context \<Rightarrow> string gomap \<Rightarrow> subst_error + string gomap" where
  "subst_map ctx m = res_traverse (\<lambda>(k, v). res_map (Pair k) (expand_string ctx v)) m"

definition subst_opt :: "('a \<Rightarrow> 'e + 'a) \<Rightarrow> 'a option \<Rightarrow> 'e + 'a option" where
  "subst_opt f v = (case v of None \<Rightarrow> Inr None | Some x \<Rightarrow> res_map Some (f x))"

fun subst_command :: "subst_context \<Rightarrow> command \<Rightarrow> subst_error + command" where
  "subst_command ctx CommandNone = Inr CommandNone"
| "subst_command ctx (CommandShell s) = res_map CommandShell (expand_string ctx s)"
| "subst_command ctx (CommandArgv xs) = res_map CommandArgv (subst_list ctx xs)"
| "subst_command ctx (CommandNamed cs) =
     res_map CommandNamed (res_traverse (\<lambda>(n, c). res_map (Pair n) (subst_command ctx c)) cs)"

definition subst_build :: "subst_context \<Rightarrow> raw_build \<Rightarrow> subst_error + raw_build" where
  "subst_build ctx b = res_foldl (\<lambda>b f. f b) b
    [\<lambda>b. res_map (\<lambda>x. b\<lparr>rb_dockerfile := x\<rparr>) (expand_string ctx (rb_dockerfile b)),
     \<lambda>b. res_map (\<lambda>x. b\<lparr>rb_context := x\<rparr>) (expand_string ctx (rb_context b)),
     \<lambda>b. res_map (\<lambda>x. b\<lparr>rb_args := x\<rparr>) (subst_map ctx (rb_args b)),
     \<lambda>b. res_map (\<lambda>x. b\<lparr>rb_target := x\<rparr>) (expand_string ctx (rb_target b)),
     \<lambda>b. res_map (\<lambda>x. b\<lparr>rb_cache_from := x\<rparr>) (subst_list ctx (rb_cache_from b)),
     \<lambda>b. res_map (\<lambda>x. b\<lparr>rb_options := x\<rparr>) (subst_list ctx (rb_options b))]"

text \<open>\<open>substituteValue\<close> on \<open>Raw\<close>, one pass.\<close>

definition subst_raw :: "subst_context \<Rightarrow> raw \<Rightarrow> subst_error + raw" where
  "subst_raw ctx r = res_foldl (\<lambda>r f. f r) r
    [\<lambda>r. res_map (\<lambda>x. r\<lparr>r_name := x\<rparr>) (expand_string ctx (r_name r)),
     \<lambda>r. res_map (\<lambda>x. r\<lparr>r_image := x\<rparr>) (expand_string ctx (r_image r)),
     \<lambda>r. res_map (\<lambda>x. r\<lparr>r_build := x\<rparr>) (subst_opt (subst_build ctx) (r_build r)),
     \<lambda>r. res_map (\<lambda>x. r\<lparr>r_docker_compose_file := x\<rparr>) (subst_list ctx (r_docker_compose_file r)),
     \<lambda>r. res_map (\<lambda>x. r\<lparr>r_service := x\<rparr>) (expand_string ctx (r_service r)),
     \<lambda>r. res_map (\<lambda>x. r\<lparr>r_run_services := x\<rparr>) (subst_list ctx (r_run_services r)),
     \<lambda>r. res_map (\<lambda>x. r\<lparr>r_workspace_folder := x\<rparr>) (expand_string ctx (r_workspace_folder r)),
     \<lambda>r. res_map (\<lambda>x. r\<lparr>r_workspace_mount := x\<rparr>) (expand_string ctx (r_workspace_mount r)),
     \<lambda>r. res_map (\<lambda>x. r\<lparr>r_mounts := x\<rparr>) (subst_list ctx (r_mounts r)),
     \<lambda>r. res_map (\<lambda>x. r\<lparr>r_container_env := x\<rparr>) (subst_map ctx (r_container_env r)),
     \<lambda>r. res_map (\<lambda>x. r\<lparr>r_remote_env := x\<rparr>) (subst_map ctx (r_remote_env r)),
     \<lambda>r. res_map (\<lambda>x. r\<lparr>r_container_user := x\<rparr>) (expand_string ctx (r_container_user r)),
     \<lambda>r. res_map (\<lambda>x. r\<lparr>r_remote_user := x\<rparr>) (expand_string ctx (r_remote_user r)),
     \<lambda>r. res_map (\<lambda>x. r\<lparr>r_forward_ports := x\<rparr>) (subst_list ctx (r_forward_ports r)),
     \<lambda>r. res_map (\<lambda>x. r\<lparr>r_app_port := x\<rparr>) (subst_list ctx (r_app_port r)),
     \<lambda>r. res_map (\<lambda>x. r\<lparr>r_run_args := x\<rparr>) (subst_list ctx (r_run_args r)),
     \<lambda>r. res_map (\<lambda>x. r\<lparr>r_cap_add := x\<rparr>) (subst_list ctx (r_cap_add r)),
     \<lambda>r. res_map (\<lambda>x. r\<lparr>r_security_opt := x\<rparr>) (subst_list ctx (r_security_opt r)),
     \<lambda>r. res_map (\<lambda>x. r\<lparr>r_shutdown_action := x\<rparr>) (expand_string ctx (r_shutdown_action r)),
     \<lambda>r. res_map (\<lambda>x. r\<lparr>r_user_env_probe := x\<rparr>) (expand_string ctx (r_user_env_probe r)),
     \<lambda>r. res_map (\<lambda>x. r\<lparr>r_wait_for := x\<rparr>) (expand_string ctx (r_wait_for r)),
     \<lambda>r. res_map (\<lambda>x. r\<lparr>r_initialize_command := x\<rparr>) (subst_command ctx (r_initialize_command r)),
     \<lambda>r. res_map (\<lambda>x. r\<lparr>r_on_create_command := x\<rparr>) (subst_command ctx (r_on_create_command r)),
     \<lambda>r. res_map (\<lambda>x. r\<lparr>r_update_content_command := x\<rparr>) (subst_command ctx (r_update_content_command r)),
     \<lambda>r. res_map (\<lambda>x. r\<lparr>r_post_create_command := x\<rparr>) (subst_command ctx (r_post_create_command r)),
     \<lambda>r. res_map (\<lambda>x. r\<lparr>r_post_start_command := x\<rparr>) (subst_command ctx (r_post_start_command r)),
     \<lambda>r. res_map (\<lambda>x. r\<lparr>r_post_attach_command := x\<rparr>) (subst_command ctx (r_post_attach_command r))]"

text \<open>
  A pass reports a change exactly when some string was replaced by a different one, that is when its
  result differs. At most three passes, fewer when one changes nothing.
\<close>

fun passes :: "nat \<Rightarrow> ('a \<Rightarrow> 'e + 'a) \<Rightarrow> 'a \<Rightarrow> 'e + 'a" where
  "passes 0 f x = Inr x"
| "passes (Suc n) f x =
     (case f x of Inl e \<Rightarrow> Inl e | Inr y \<Rightarrow> if y = x then Inr x else passes n f y)"

section \<open>The check for references left over\<close>

fun command_strings :: "command \<Rightarrow> string list" where
  "command_strings CommandNone = []"
| "command_strings (CommandShell s) = [s]"
| "command_strings (CommandArgv xs) = xs"
| "command_strings (CommandNamed cs) = concat (map (\<lambda>(n, c). command_strings c) cs)"

definition build_strings :: "raw_build \<Rightarrow> string list" where
  "build_strings b = [rb_dockerfile b, rb_context b] @ map snd (rb_args b)
     @ [rb_target b] @ rb_cache_from b @ rb_options b"

text \<open>The strings the walk of \<open>Raw\<close> visits, in its order.\<close>

definition raw_strings :: "raw \<Rightarrow> string list" where
  "raw_strings r =
     [r_name r]
     @ [r_image r]
     @ (case r_build r of None \<Rightarrow> [] | Some b \<Rightarrow> build_strings b)
     @ r_docker_compose_file r
     @ [r_service r]
     @ r_run_services r
     @ [r_workspace_folder r]
     @ [r_workspace_mount r]
     @ r_mounts r
     @ map snd (r_container_env r)
     @ map snd (r_remote_env r)
     @ [r_container_user r]
     @ [r_remote_user r]
     @ r_forward_ports r
     @ r_app_port r
     @ r_run_args r
     @ r_cap_add r
     @ r_security_opt r
     @ [r_shutdown_action r]
     @ [r_user_env_probe r]
     @ [r_wait_for r]
     @ command_strings (r_initialize_command r)
     @ command_strings (r_on_create_command r)
     @ command_strings (r_update_content_command r)
     @ command_strings (r_post_create_command r)
     @ command_strings (r_post_start_command r)
     @ command_strings (r_post_attach_command r)"

definition is_deferred :: "string \<Rightarrow> bool" where
  "is_deferred b \<longleftrightarrow> prefix ''containerEnv:'' b"

definition check_residual :: "raw \<Rightarrow> subst_error + unit" where
  "check_residual r =
     (case filter (\<lambda>b. \<not> is_deferred b) (concat (map refs (raw_strings r))) of
        [] \<Rightarrow> Inr ()
      | b # _ \<Rightarrow> Inl (UnresolvedVariable b))"

text \<open>\<open>Substitute\<close>: the container workspace folder first, since it feeds the other fields.\<close>

definition substitute :: "string \<Rightarrow> (string \<Rightarrow> string option) \<Rightarrow> string \<Rightarrow> raw \<Rightarrow> subst_error + raw" where
  "substitute local_folder lookup wid r =
     (let ctx = (\<lambda>cwf. \<lparr>sc_local_folder = local_folder, sc_container_folder = cwf,
                  sc_devcontainer_id = wid, sc_lookup_env = lookup\<rparr>) in
      case passes 3 (\<lambda>cwf. expand_string (ctx cwf) cwf) (r_workspace_folder r) of
        Inl e \<Rightarrow> Inl e
      | Inr cwf \<Rightarrow>
          (case passes 3 (subst_raw (ctx cwf)) (r\<lparr>r_workspace_folder := cwf\<rparr>) of
             Inl e \<Rightarrow> Inl e
           | Inr r' \<Rightarrow> res_map (\<lambda>_. r') (check_residual r')))"

section \<open>Segments\<close>

lemma var_segs_Nil [simp]: "var_segs [] = []"
  by (simp add: var_segs.simps)

lemma var_segs_text: "concat (map seg_text (var_segs s)) = s"
proof (induction s rule: var_segs.induct)
  case (1 s)
  show ?case
  proof (cases s)
    case Nil
    then show ?thesis by simp
  next
    case (Cons c t)
    show ?thesis
    proof (cases "prefix ''${'' s \<and> CHR ''}'' \<in> set (drop 2 s)")
      case False
      have "concat (map seg_text (var_segs t)) = t" using 1(2) [OF Cons False] .
      then show ?thesis using False by (subst var_segs.simps) (auto simp: Cons)
    next
      case True
      then obtain u where s: "s = ''${'' @ u" by (auto simp: prefix_def)
      obtain v where v: "dropWhile (\<lambda>x. x \<noteq> CHR ''}'') u = CHR ''}'' # v"
          "u = takeWhile (\<lambda>x. x \<noteq> CHR ''}'') u @ CHR ''}'' # v"
        using dropWhile_neq_cases [of "CHR ''}''" u] True s by auto
      have "concat (map seg_text (var_segs v)) = v" using 1(1) [OF Cons True] s v(1) by simp
      moreover have "var_segs s = Ref (takeWhile (\<lambda>x. x \<noteq> CHR ''}'') u) # var_segs v"
        using True by (subst var_segs.simps) (simp add: s v(1))
      ultimately show ?thesis using v(2) by (simp add: s)
    qed
  qed
qed

lemma var_segs_no_open: "\<not> contains s ''${'' \<Longrightarrow> var_segs s = map Lit s"
proof (induction s)
  case (Cons c s)
  then show ?case by (subst var_segs.simps) auto
qed simp

lemma var_segs_Ref: "CHR ''}'' \<notin> set b \<Longrightarrow> var_segs (''${'' @ b @ ''}'' @ s) = Ref b # var_segs s"
  by (subst var_segs.simps) (simp add: takeWhile_neq_append dropWhile_neq_append)

lemma var_segs_Lit: "CHR ''$'' \<noteq> c \<Longrightarrow> var_segs (c # s) = Lit c # var_segs s"
  by (subst var_segs.simps) simp

lemma var_segs_Lits: "CHR ''$'' \<notin> set t \<Longrightarrow> var_segs (t @ s) = map Lit t @ var_segs s"
  by (induction t) (simp_all add: var_segs_Lit)

lemma refs_no_open: "\<not> contains s ''${'' \<Longrightarrow> refs s = []"
  by (simp add: refs_def var_segs_no_open comp_def)

lemma seg_expand_deferred:
  "list_all is_deferred (concat (map seg_refs segs)) \<Longrightarrow>
   errors (map (seg_expand ctx) segs) = [] \<and>
   concat (map fst (oks (map (seg_expand ctx) segs))) = concat (map seg_text segs)"
proof (induction segs)
  case (Cons x segs)
  then show ?case
    by (cases x) (auto simp: is_deferred_def resolve_var_def prefix_def)
qed simp

text \<open>A string whose references are all deferred is left as it is.\<close>

lemma expand_stable: "list_all is_deferred (refs s) \<Longrightarrow> expand_string ctx s = Inr s"
  using seg_expand_deferred [of "var_segs s" ctx]
  by (auto simp: expand_string_def expand_def refs_def Let_def var_segs_text)

section \<open>Stable configurations\<close>

definition stable :: "string list \<Rightarrow> bool" where
  "stable ss \<longleftrightarrow> (\<forall>s \<in> set ss. list_all is_deferred (refs s))"

lemma stable_simps [simp]:
  "stable []" "stable (s # ss) \<longleftrightarrow> list_all is_deferred (refs s) \<and> stable ss"
  "stable (xs @ ys) \<longleftrightarrow> stable xs \<and> stable ys"
  by (auto simp: stable_def)

lemma stable_concat: "stable (concat xss) \<longleftrightarrow> (\<forall>xs \<in> set xss. stable xs)"
  by (auto simp: stable_def)

lemma subst_list_stable: "stable xs \<Longrightarrow> subst_list ctx xs = Inr xs"
  using res_traverse_ok [of xs "expand_string ctx" "\<lambda>x. x"]
  by (auto simp: subst_list_def stable_def expand_stable)

lemma subst_map_stable: "stable (map snd m) \<Longrightarrow> subst_map ctx m = Inr m"
  unfolding subst_map_def by (induction m) (auto simp: expand_stable)

lemma subst_command_stable: "stable (command_strings c) \<Longrightarrow> subst_command ctx c = Inr c"
proof (induction ctx c rule: subst_command.induct)
  case (4 ctx cs)
  have "res_traverse (\<lambda>(n, c). res_map (Pair n) (subst_command ctx c)) cs = Inr (map (\<lambda>x. x) cs)"
  proof (rule res_traverse_ok)
    fix x assume x: "x \<in> set cs"
    then have "stable (command_strings (snd x))"
      using "4.prems" by (auto simp: stable_concat case_prod_beta)
    then show "(case x of (n, c) \<Rightarrow> res_map (Pair n) (subst_command ctx c)) = Inr x"
      using "4.IH" x by (cases x) auto
  qed
  then show ?case by simp
qed (simp_all add: expand_stable subst_list_stable)

lemma subst_build_stable: "stable (build_strings b) \<Longrightarrow> subst_build ctx b = Inr b"
  by (simp add: build_strings_def subst_build_def expand_stable subst_list_stable subst_map_stable)

lemma subst_raw_stable: "stable (raw_strings r) \<Longrightarrow> subst_raw ctx r = Inr r"
  unfolding subst_raw_def raw_strings_def stable_simps
  by (simp add: expand_stable subst_list_stable subst_map_stable subst_command_stable
      subst_build_stable subst_opt_def split: option.splits)

lemma check_residual_ok: "check_residual r = Inr () \<longleftrightarrow> stable (raw_strings r)"
proof (cases "filter (\<lambda>b. \<not> is_deferred b) (concat (map refs (raw_strings r)))")
  case Nil
  then show ?thesis by (auto simp: check_residual_def stable_def list_all_iff filter_empty_conv)
next
  case (Cons b bs)
  then obtain us vs where "concat (map refs (raw_strings r)) = us @ b # vs" "\<not> is_deferred b"
    by (auto dest!: filter_eq_ConsD)
  then have "b \<in> set (concat (map refs (raw_strings r)))" "\<not> is_deferred b"
    by (simp_all del: set_concat)
  then have "\<not> stable (raw_strings r)" by (auto simp: stable_def list_all_iff)
  with Cons show ?thesis by (simp add: check_residual_def)
qed

lemma substitute_stable:
  assumes "stable (raw_strings r)"
  shows "substitute lf lookup wid r = Inr r"
proof -
  have "list_all is_deferred (refs (r_workspace_folder r))"
    using assms by (simp add: raw_strings_def)
  then have "passes 3 (\<lambda>cwf. expand_string (ctx cwf) cwf) (r_workspace_folder r) =
      Inr (r_workspace_folder r)" for ctx
    by (simp add: expand_stable numeral_3_eq_3)
  moreover have "passes 3 (subst_raw ctx) r = Inr r" for ctx
    using subst_raw_stable [OF assms] by (simp add: numeral_3_eq_3)
  ultimately show ?thesis
    using assms by (simp add: substitute_def Let_def check_residual_ok)
qed

text \<open>A pass expands the name, and expands nothing else into it.\<close>

definition keeps :: "('s \<Rightarrow> 'a) \<Rightarrow> ('s \<Rightarrow> 'e + 's) \<Rightarrow> bool" where
  "keeps g f \<longleftrightarrow> (\<forall>x y. f x = Inr y \<longrightarrow> g y = g x)"

lemma res_foldl_keeps:
  "list_all (keeps g) fs \<Longrightarrow> res_foldl (\<lambda>r f. f r) r fs = Inr r' \<Longrightarrow> g r' = g r"
  by (induction fs arbitrary: r) (fastforce simp: keeps_def split: sum.splits)+

lemma res_foldl_first:
  assumes "res_foldl (\<lambda>r f. f r) r (f # fs) = Inr r'" and "list_all (keeps g) fs"
  shows "\<exists>r1. f r = Inr r1 \<and> g r' = g r1"
  using assms res_foldl_keeps [of g fs] by (auto split: sum.splits)

lemma subst_raw_name:
  assumes "subst_raw ctx r = Inr r'"
  shows "expand_string ctx (r_name r) = Inr (r_name r')"
proof -
  have "\<exists>r1. res_map (\<lambda>x. r\<lparr>r_name := x\<rparr>) (expand_string ctx (r_name r)) = Inr r1 \<and> r_name r' = r_name r1"
    by (rule res_foldl_first [OF assms [unfolded subst_raw_def]]) (auto simp: keeps_def)
  then show ?thesis by auto
qed

lemma subst_raw_keeps_name:
  "list_all is_deferred (refs (r_name r)) \<Longrightarrow> subst_raw ctx r = Inr r' \<Longrightarrow> r_name r' = r_name r"
  using subst_raw_name [of ctx r r'] expand_stable [of "r_name r" ctx] by simp

lemma passes_keeps_name:
  "list_all is_deferred (refs (r_name r)) \<Longrightarrow> passes n (subst_raw ctx) r = Inr r' \<Longrightarrow> r_name r' = r_name r"
proof (induction n arbitrary: r)
  case (Suc n)
  then obtain r1 where r1: "subst_raw ctx r = Inr r1" and "r1 = r \<and> r' = r \<or> passes n (subst_raw ctx) r1 = Inr r'"
    by (auto split: sum.splits if_splits)
  moreover have "r_name r1 = r_name r" using subst_raw_keeps_name [OF Suc.prems(1) r1] .
  ultimately show ?case using Suc.IH [of r1] Suc.prems(1) by auto
qed simp

lemma substitute_keeps_name:
  assumes "list_all is_deferred (refs (r_name r))" and "substitute lf lookup wid r = Inr r'"
  shows "r_name r' = r_name r"
proof -
  obtain ctx cwf where "passes 3 (subst_raw ctx) (r\<lparr>r_workspace_folder := cwf\<rparr>) = Inr r'"
    using assms(2) by (auto simp: substitute_def Let_def split: sum.splits)
  then show ?thesis using passes_keeps_name [of "r\<lparr>r_workspace_folder := cwf\<rparr>"] assms(1) by simp
qed

section \<open>Properties\<close>

text \<open>
  A string written as a template: text without a dollar sign, and references to the documented variables.
  What a variable stands for is said here without looking at how its reference is taken apart.
\<close>

datatype variable = LocalFolder | LocalBasename | ContainerFolder | ContainerBasename | DevcontainerId
  | LocalEnv string "string option" | ContainerEnv string | OtherVar string

fun var_body :: "variable \<Rightarrow> string" where
  "var_body LocalFolder = ''localWorkspaceFolder''"
| "var_body LocalBasename = ''localWorkspaceFolderBasename''"
| "var_body ContainerFolder = ''containerWorkspaceFolder''"
| "var_body ContainerBasename = ''containerWorkspaceFolderBasename''"
| "var_body DevcontainerId = ''devcontainerId''"
| "var_body (LocalEnv n d) = ''localEnv:'' @ n @ (case d of None \<Rightarrow> [] | Some t \<Rightarrow> CHR '':'' # t)"
| "var_body (ContainerEnv t) = ''containerEnv:'' @ t"
| "var_body (OtherVar b) = b"

fun var_ok :: "variable \<Rightarrow> bool" where
  "var_ok (LocalEnv n d) \<longleftrightarrow> CHR '':'' \<notin> set n"
| "var_ok (OtherVar b) \<longleftrightarrow>
     b \<notin> set (map var_body [LocalFolder, LocalBasename, ContainerFolder, ContainerBasename, DevcontainerId])
     \<and> \<not> prefix ''localEnv:'' b \<and> \<not> prefix ''containerEnv:'' b"
| "var_ok _ \<longleftrightarrow> True"

fun var_value :: "subst_context \<Rightarrow> variable \<Rightarrow> subst_error + string" where
  "var_value ctx LocalFolder = Inr (sc_local_folder ctx)"
| "var_value ctx LocalBasename = Inr (base (sc_local_folder ctx))"
| "var_value ctx ContainerFolder = Inr (sc_container_folder ctx)"
| "var_value ctx ContainerBasename = Inr (base (sc_container_folder ctx))"
| "var_value ctx DevcontainerId = Inr (sc_devcontainer_id ctx)"
| "var_value ctx (LocalEnv n d) =
     Inr (case sc_lookup_env ctx n of Some v \<Rightarrow> v | None \<Rightarrow> (case d of Some t \<Rightarrow> t | None \<Rightarrow> []))"
| "var_value ctx (ContainerEnv t) = Inr (''${containerEnv:'' @ t @ ''}'')"
| "var_value ctx (OtherVar b) = Inl (UnknownVariable b)"

lemma split_env_ref_body:
  "CHR '':'' \<notin> set n \<Longrightarrow> split_env_ref (n @ (case d of None \<Rightarrow> [] | Some t \<Rightarrow> CHR '':'' # t)) =
     (n, case d of None \<Rightarrow> [] | Some t \<Rightarrow> t, d \<noteq> None)"
  by (cases d) (simp_all add: split_env_ref_def takeWhile_neq_append dropWhile_neq_append)

lemma resolve_var_value:
  "var_ok v \<Longrightarrow> res_map (\<lambda>r. case r of None \<Rightarrow> ''${'' @ var_body v @ ''}'' | Some t \<Rightarrow> t) (resolve_var ctx (var_body v))
     = var_value ctx v"
proof (cases v)
  case (LocalEnv n d)
  assume "var_ok v"
  then have "split_env_ref (drop 9 (var_body v)) = (n, case d of None \<Rightarrow> [] | Some t \<Rightarrow> t, d \<noteq> None)"
    using split_env_ref_body [of n d] LocalEnv by simp
  then show ?thesis using LocalEnv by (auto simp: resolve_var_def split: option.split)
qed (auto simp: resolve_var_def)

lemma var_total: "\<exists>v. var_ok v \<and> var_body v = b"
proof (cases "var_ok (OtherVar b)")
  case False
  then consider (name) v where "v \<in> {LocalFolder, LocalBasename, ContainerFolder, ContainerBasename, DevcontainerId}" "b = var_body v"
    | (env) t where "b = ''localEnv:'' @ t" | (container) t where "b = ''containerEnv:'' @ t"
    by (fastforce simp: prefix_def)
  then show ?thesis
  proof cases
    case env
    let ?n = "takeWhile (\<lambda>c. c \<noteq> CHR '':'') t" and ?r = "dropWhile (\<lambda>c. c \<noteq> CHR '':'') t"
    have "var_ok (LocalEnv ?n (if ?r = [] then None else Some (tl ?r)))"
      using set_takeWhileD [of "CHR '':''" "\<lambda>c. c \<noteq> CHR '':''" t] by auto
    moreover have "?r = CHR '':'' # tl ?r" if "?r \<noteq> []"
      using hd_dropWhile [OF that] that by (metis list.collapse)
    then have "var_body (LocalEnv ?n (if ?r = [] then None else Some (tl ?r))) = b"
      using env takeWhile_dropWhile_id [of "\<lambda>c. c \<noteq> CHR '':''" t] by (cases "?r = []") auto
    ultimately show ?thesis by blast
  next
    case (name v)
    then show ?thesis by (intro exI [of _ v]) auto
  next
    case (container t)
    then show ?thesis by (intro exI [of _ "ContainerEnv t"]) simp
  qed
qed (rule exI [of _ "OtherVar b"]; simp)

datatype piece = Text string | Var "variable"

fun piece_ok :: "piece \<Rightarrow> bool" where
  "piece_ok (Text t) \<longleftrightarrow> CHR ''$'' \<notin> set t"
| "piece_ok (Var v) \<longleftrightarrow> CHR ''}'' \<notin> set (var_body v) \<and> var_ok v"

fun piece_text :: "piece \<Rightarrow> string" where
  "piece_text (Text t) = t"
| "piece_text (Var v) = ''${'' @ var_body v @ ''}''"

fun piece_value :: "subst_context \<Rightarrow> piece \<Rightarrow> subst_error + string" where
  "piece_value ctx (Text t) = Inr t"
| "piece_value ctx (Var v) = var_value ctx v"

lemma errors_append [simp]: "errors (xs @ ys) = errors xs @ errors ys"
  by (induction xs rule: errors.induct) auto

lemma oks_append [simp]: "oks (xs @ ys) = oks xs @ oks ys"
  by (induction xs rule: oks.induct) auto

lemma lits_expand:
  "errors (map (seg_expand ctx) (map Lit t)) = []"
  "concat (map fst (oks (map (seg_expand ctx) (map Lit t)))) = t"
  by (induction t) auto

lemma pieces_expand:
  assumes "list_all piece_ok ps"
  shows "errors (map (seg_expand ctx) (var_segs (concat (map piece_text ps)))) =
      errors (map (piece_value ctx) ps) \<and>
    (errors (map (piece_value ctx) ps) = [] \<longrightarrow>
     concat (map fst (oks (map (seg_expand ctx) (var_segs (concat (map piece_text ps)))))) =
       concat (oks (map (piece_value ctx) ps)))"
  using assms
proof (induction ps)
  case (Cons p ps)
  show ?case
  proof (cases p)
    case (Text t)
    then show ?thesis
      using Cons lits_expand [of ctx t] by (simp add: var_segs_Lits del: map_map)
  next
    case (Var v)
    then have segs: "var_segs (concat (map piece_text (p # ps))) =
        Ref (var_body v) # var_segs (concat (map piece_text ps))"
      using Cons.prems var_segs_Ref [of "var_body v" "concat (map piece_text ps)"] by simp
    have "piece_value ctx p = res_map (\<lambda>r. case r of None \<Rightarrow> ''${'' @ var_body v @ ''}'' | Some t \<Rightarrow> t) (resolve_var ctx (var_body v))"
      using Cons.prems Var by (simp add: resolve_var_value)
    then show ?thesis
      using Cons segs by (auto split: sum.splits option.splits)
  qed
qed simp



text \<open>
  C23: a substitution that succeeds leaves nothing to substitute. Every reference in any string of the
  result is a deferred \<open>containerEnv\<close> one, and substituting the result again, in any context,
  returns it unchanged.
\<close>

theorem substitute_complete:
  assumes "substitute lf lookup wid r = Inr r'"
  shows "list_all is_deferred (concat (map refs (raw_strings r'))) \<and>
    substitute lf' lookup' wid' r' = Inr r'"
proof -
  from assms have "check_residual r' = Inr ()"
    by (auto simp: substitute_def Let_def split: sum.splits)
  then have stable: "stable (raw_strings r')" by (simp add: check_residual_ok)
  moreover have "list_all is_deferred (concat (map refs (raw_strings r')))"
    using stable by (auto simp: stable_def list_all_iff)
  ultimately show ?thesis using substitute_stable by blast
qed

lemma substitute_complete_witness:
  "let r = empty_raw\<lparr>r_name := ''demo'', r_workspace_folder := ''/ws/${localWorkspaceFolderBasename}'',
         r_container_env := [(''W'', ''${containerWorkspaceFolder}'')],
         r_post_create_command := CommandNamed [(''a'', CommandShell ''echo ${containerEnv:HOME}'')]\<rparr>;
       r' = r\<lparr>r_workspace_folder := ''/ws/app'', r_container_env := [(''W'', ''/ws/app'')]\<rparr>
   in substitute ''/src/app'' (\<lambda>_. None) ''demo-1'' r = Inr r'
      \<and> substitute ''/other'' (\<lambda>_. None) ''x'' r' = Inr r'"
  using substitute_complete [of "''/src/app''" "\<lambda>_. None" "''demo-1''"
    "empty_raw\<lparr>r_name := ''demo'', r_workspace_folder := ''/ws/${localWorkspaceFolderBasename}'',
         r_container_env := [(''W'', ''${containerWorkspaceFolder}'')],
         r_post_create_command := CommandNamed [(''a'', CommandShell ''echo ${containerEnv:HOME}'')]\<rparr>"
    "empty_raw\<lparr>r_name := ''demo'', r_workspace_folder := ''/ws/app'',
         r_container_env := [(''W'', ''/ws/app'')],
         r_post_create_command := CommandNamed [(''a'', CommandShell ''echo ${containerEnv:HOME}'')]\<rparr>"
    "''/other''" "\<lambda>_. None" "''x''"]
  by code_simp

end
