(* ===== verification/Sha256.thy ===== *)
theory Sha256
  imports GoStrings "HOL-Library.Word"
begin

unbundle bit_operations_syntax

text \<open>
  \<open>crypto/sha256\<close> and \<open>encoding/hex\<close>, which \<open>WorkspaceID\<close> and \<open>ConfigHash\<close> call: SHA-256 of a byte
  string as in FIPS 180-4, on 32-bit words, and its lower-case hexadecimal text.
\<close>

type_synonym w32 = "32 word"

section \<open>Functions and constants\<close>

definition sha_ch :: "w32 \<Rightarrow> w32 \<Rightarrow> w32 \<Rightarrow> w32" where
  "sha_ch x y z = (x AND y) XOR (NOT x AND z)"

definition sha_maj :: "w32 \<Rightarrow> w32 \<Rightarrow> w32 \<Rightarrow> w32" where
  "sha_maj x y z = (x AND y) XOR (x AND z) XOR (y AND z)"

definition big_sigma0 :: "w32 \<Rightarrow> w32" where
  "big_sigma0 x = word_rotr 2 x XOR word_rotr 13 x XOR word_rotr 22 x"

definition big_sigma1 :: "w32 \<Rightarrow> w32" where
  "big_sigma1 x = word_rotr 6 x XOR word_rotr 11 x XOR word_rotr 25 x"

definition small_sigma0 :: "w32 \<Rightarrow> w32" where
  "small_sigma0 x = word_rotr 7 x XOR word_rotr 18 x XOR drop_bit 3 x"

definition small_sigma1 :: "w32 \<Rightarrow> w32" where
  "small_sigma1 x = word_rotr 17 x XOR word_rotr 19 x XOR drop_bit 10 x"

text \<open>Four words packed into one number, most significant first.\<close>

definition unpack_words :: "int \<Rightarrow> w32 list" where
  "unpack_words n = map (\<lambda>k. word_of_int (n div 2 ^ k)) [96, 64, 32, 0]"

text \<open>The fractional parts of the cube roots of the first 64 primes.\<close>

definition round_constants :: "w32 list" where
  "round_constants = concat (map unpack_words
    [0x428a2f9871374491b5c0fbcfe9b5dba5, 0x3956c25b59f111f1923f82a4ab1c5ed5,
     0xd807aa9812835b01243185be550c7dc3, 0x72be5d7480deb1fe9bdc06a7c19bf174,
     0xe49b69c1efbe47860fc19dc6240ca1cc, 0x2de92c6f4a7484aa5cb0a9dc76f988da,
     0x983e5152a831c66db00327c8bf597fc7, 0xc6e00bf3d5a7914706ca635114292967,
     0x27b70a852e1b21384d2c6dfc53380d13, 0x650a7354766a0abb81c2c92e92722c85,
     0xa2bfe8a1a81a664bc24b8b70c76c51a3, 0xd192e819d6990624f40e3585106aa070,
     0x19a4c1161e376c082748774c34b0bcb5, 0x391c0cb34ed8aa4a5b9cca4f682e6ff3,
     0x748f82ee78a5636f84c878148cc70208, 0x90befffaa4506cebbef9a3f7c67178f2])"

type_synonym hash_state = "w32 \<times> w32 \<times> w32 \<times> w32 \<times> w32 \<times> w32 \<times> w32 \<times> w32"

definition init_hash :: hash_state where
  "init_hash = (0x6a09e667, 0xbb67ae85, 0x3c6ef372, 0xa54ff53a,
                0x510e527f, 0x9b05688c, 0x1f83d9ab, 0x5be0cd19)"

section \<open>Padding\<close>

definition sha_pad :: "string \<Rightarrow> int list" where
  "sha_pad s =
     (let l = length s in
      map of_char s @ [0x80] @ replicate ((119 - l mod 64) mod 64) 0
      @ map (\<lambda>i. (8 * int l) div 256 ^ (7 - i) mod 256) [0..<8])"

fun be_words :: "int list \<Rightarrow> w32 list" where
  "be_words (a # b # c # d # bs) =
     word_of_int (((a * 256 + b) * 256 + c) * 256 + d) # be_words bs"
| "be_words _ = []"

text \<open>The blocks of 16 words.\<close>

fun sha_blocks :: "nat \<Rightarrow> w32 list \<Rightarrow> w32 list list" where
  "sha_blocks 0 ws = []"
| "sha_blocks (Suc n) ws = take 16 ws # sha_blocks n (drop 16 ws)"

section \<open>Compression\<close>

text \<open>The message schedule, its latest word first.\<close>

fun sha_extend :: "nat \<Rightarrow> w32 list \<Rightarrow> w32 list" where
  "sha_extend 0 ws = ws"
| "sha_extend (Suc n) ws =
     sha_extend n ((small_sigma1 (ws ! 1) + ws ! 6 + small_sigma0 (ws ! 14) + ws ! 15) # ws)"

definition sha_schedule :: "w32 list \<Rightarrow> w32 list" where
  "sha_schedule blk = rev (sha_extend 48 (rev blk))"

fun sha_round :: "hash_state \<Rightarrow> w32 \<times> w32 \<Rightarrow> hash_state" where
  "sha_round (a, b, c, d, e, f, g, h) (k, w) =
     (let t1 = h + big_sigma1 e + sha_ch e f g + k + w;
          t2 = big_sigma0 a + sha_maj a b c
      in (t1 + t2, a, b, c, d + t1, e, f, g))"

fun add_state :: "hash_state \<Rightarrow> hash_state \<Rightarrow> hash_state" where
  "add_state (a, b, c, d, e, f, g, h) (a', b', c', d', e', f', g', h') =
     (a + a', b + b', c + c', d + d', e + e', f + f', g + g', h + h')"

definition sha_compress :: "hash_state \<Rightarrow> w32 list \<Rightarrow> hash_state" where
  "sha_compress st blk = add_state st (foldl sha_round st (zip round_constants (sha_schedule blk)))"

definition sha256 :: "string \<Rightarrow> hash_state" where
  "sha256 s = (let bs = sha_pad s in foldl sha_compress init_hash (sha_blocks (length bs div 64) (be_words bs)))"

section \<open>Hexadecimal text\<close>

definition hex_digit :: "nat \<Rightarrow> char" where
  "hex_digit n = (if n < 10 then char_of (48 + n) else char_of (87 + n))"

text \<open>The eight hexadecimal digits of a word, most significant first.\<close>

definition hex_word :: "w32 \<Rightarrow> string" where
  "hex_word w = map (\<lambda>i. hex_digit (nat (uint w div 16 ^ (7 - i) mod 16))) [0..<8]"

fun hex_state :: "hash_state \<Rightarrow> string" where
  "hex_state (a, b, c, d, e, f, g, h) = concat (map hex_word [a, b, c, d, e, f, g, h])"

definition sha256_hex :: "string \<Rightarrow> string" where
  "sha256_hex s = hex_state (sha256 s)"

section \<open>Shape of a digest\<close>

lemma hex_digit_is_hex: "n < 16 \<Longrightarrow> is_hex (hex_digit n)"
  by (auto simp: hex_digit_def is_hex_def is_digit_def)

lemma hex_word_length [simp]: "length (hex_word w) = 8"
  by (simp add: hex_word_def)

lemma hex_word_is_hex: "c \<in> set (hex_word w) \<Longrightarrow> is_hex c"
  by (auto simp: hex_word_def intro!: hex_digit_is_hex)

lemma sha256_hex_length [simp]: "length (sha256_hex s) = 64"
  by (cases "sha256 s" rule: hex_state.cases) (simp add: sha256_hex_def)

lemma sha256_hex_is_hex: "c \<in> set (sha256_hex s) \<Longrightarrow> is_hex c"
  by (cases "sha256 s" rule: hex_state.cases) (auto simp: sha256_hex_def dest: hex_word_is_hex)

text \<open>Every block is full: the padded length is a multiple of 64.\<close>

lemma pad_length: "length (sha_pad s) mod 64 = 0"
proof -
  have "(l + 1 + (119 - l mod 64) mod 64 + 8) mod 64 = 0" for l :: nat
  proof -
    define r where "r = l mod 64"
    have "r < 64" and l: "l = 64 * (l div 64) + r" by (simp_all add: r_def)
    then have "(119 - r) mod 64 = (if r \<le> 55 then 55 - r else 119 - r)"
      by (auto simp: mod_if)
    then have "(119 - r) mod 64 + r = (if r \<le> 55 then 55 else 119)" using \<open>r < 64\<close> by auto
    then have "l + 1 + (119 - r) mod 64 + 8 = 64 * (l div 64 + (if r \<le> 55 then 1 else 2))"
      using l by (auto split: if_splits)
    then show ?thesis by (simp add: r_def)
  qed
  then show ?thesis by (simp add: sha_pad_def Let_def add.commute add.left_commute)
qed

end
