(* ===== verification/Resolve.thy ===== *)
theory Resolve
  imports Subst Sha256
begin

text \<open>
  \<open>config/resolve.go\<close>: from the substituted \<open>Raw\<close> to the validated \<open>Spec\<close>. The home directory
  (\<open>os.UserHomeDir\<close>) is a parameter, \<open>None\<close> when \<open>$HOME\<close> is not set.
\<close>

datatype resolve_error = ComposeAndImage | ImageAndBuild | ComposeNeedsService | NoSource
  | FeaturesUnsupported | HostRequirementsUnsupported | UpdateUidUnsupported
  | InvalidShutdown string | InvalidEnvProbe string | InvalidWaitFor string
  | InvalidPort string | InvalidPortNumber string
  | InForwardPorts resolve_error | InAppPort resolve_error
  | SingleContainerKeys "string list" | ComposeNeedsFolder

section \<open>Names and identifiers\<close>

definition is_slug_char :: "char \<Rightarrow> bool" where
  "is_slug_char c \<longleftrightarrow> is_lower c \<or> is_digit c"

abbreviation HYPHEN :: char where "HYPHEN \<equiv> CHR ''-''"

text \<open>\<open>slugInvalid.ReplaceAllString(s, "-")\<close>: every maximal run of other characters is one hyphen.\<close>

fun collapse :: "string \<Rightarrow> string" where
  "collapse [] = []"
| "collapse [c] = (if is_slug_char c then [c] else [HYPHEN])"
| "collapse (c # d # s) =
     (if is_slug_char c then c # collapse (d # s)
      else if is_slug_char d then HYPHEN # collapse (d # s)
      else collapse (d # s))"

definition trim_hyphens :: "string \<Rightarrow> string" where
  "trim_hyphens s = rev (dropWhile (\<lambda>c. c = HYPHEN) (rev (dropWhile (\<lambda>c. c = HYPHEN) s)))"

definition slug :: "string \<Rightarrow> string" where
  "slug s = (let t = trim_hyphens (collapse (to_lower s)) in if t = [] then ''devc'' else t)"

definition workspace_id :: "string \<Rightarrow> string \<Rightarrow> string" where
  "workspace_id name local_folder = slug name @ ''-'' @ take 8 (sha256_hex local_folder)"

text \<open>The name of a workspace: the \<open>name\<close> property, by default the folder's base name.\<close>

definition display_name :: "raw \<Rightarrow> string \<Rightarrow> string" where
  "display_name r local_folder = (if r_name r = [] then base local_folder else r_name r)"

section \<open>Small helpers\<close>

definition abs_from :: "string \<Rightarrow> string \<Rightarrow> string" where
  "abs_from b p = (if p = [] then [] else if is_abs p then clean p else path_join [b, p])"

definition bool_value :: "bool option \<Rightarrow> bool \<Rightarrow> bool" where
  "bool_value p def = (case p of None \<Rightarrow> def | Some b \<Rightarrow> b)"

definition expand_tilde :: "string option \<Rightarrow> string \<Rightarrow> string" where
  "expand_tilde home p =
     (if p \<noteq> ''~'' \<and> \<not> prefix ''~/'' p then p
      else (case home of
              None \<Rightarrow> p
            | Some h \<Rightarrow> if h = [] then p else if p = ''~'' then h else h @ tl p))"

definition mount_part :: "string option \<Rightarrow> string \<Rightarrow> string" where
  "mount_part home p =
     (case cut p (CHR ''='') of (k, v, ok) \<Rightarrow>
        if \<not> ok then p
        else if to_lower (trim_space k) = ''source'' \<or> to_lower (trim_space k) = ''src''
        then k @ ''='' @ expand_tilde home v
        else p)"

definition expand_mount_tilde :: "string option \<Rightarrow> string \<Rightarrow> string" where
  "expand_mount_tilde home mount =
     (if mount = [] \<or> CHR ''~'' \<notin> set mount then mount
      else join '','' (map (mount_part home) (split_on (CHR '','') mount)))"

definition expand_mounts_tilde :: "string option \<Rightarrow> string list \<Rightarrow> string list" where
  "expand_mounts_tilde home mounts = map (expand_mount_tilde home) mounts"

section \<open>Ports\<close>

definition atoi_port :: "string \<Rightarrow> resolve_error + int" where
  "atoi_port s =
     (case atoi (trim_space s) of
        None \<Rightarrow> Inl (InvalidPortNumber s)
      | Some n \<Rightarrow> if n < 1 \<or> n > 65535 then Inl (InvalidPortNumber s) else Inr n)"

definition is_numeric :: "string \<Rightarrow> bool" where
  "is_numeric s \<longleftrightarrow> s \<noteq> [] \<and> list_all is_digit s"

definition parse_port :: "string \<Rightarrow> resolve_error + port_forward" where
  "parse_port entry =
     (case split_on (CHR '':'') entry of
        [p] \<Rightarrow>
          (case atoi_port p of
             Inl e \<Rightarrow> Inl e
           | Inr n \<Rightarrow> Inr \<lparr>host_ip = [], host_port = n, container_port = n\<rparr>)
      | [a, b] \<Rightarrow>
          if is_numeric a then
            (case atoi_port a of
               Inl e \<Rightarrow> Inl e
             | Inr hp \<Rightarrow>
                 (case atoi_port b of
                    Inl e \<Rightarrow> Inl e
                  | Inr cp \<Rightarrow> Inr \<lparr>host_ip = [], host_port = hp, container_port = cp\<rparr>))
          else
            (case atoi_port b of
               Inl e \<Rightarrow> Inl e
             | Inr cp \<Rightarrow> Inr \<lparr>host_ip = a, host_port = cp, container_port = cp\<rparr>)
      | _ \<Rightarrow> Inl (InvalidPort entry))"

definition parse_ports :: "string list \<Rightarrow> resolve_error + port_forward list" where
  "parse_ports entries = res_traverse parse_port entries"

section \<open>Enumerated properties\<close>

definition resolve_shutdown :: "raw \<Rightarrow> kind \<Rightarrow> resolve_error + shutdown_action" where
  "resolve_shutdown r k =
     (let s = r_shutdown_action r in
      if s = [] then Inr (if k = KindCompose then ShutdownStopCompose else ShutdownStopCtr)
      else (case find (\<lambda>a. shutdown_text a = s) [ShutdownNone, ShutdownStopCtr, ShutdownStopCompose] of
              Some a \<Rightarrow> Inr a
            | None \<Rightarrow> Inl (InvalidShutdown s)))"

definition resolve_env_probe :: "raw \<Rightarrow> resolve_error + env_probe" where
  "resolve_env_probe r =
     (let s = r_user_env_probe r in
      if s = [] then Inr EnvProbeLoginInteractive
      else (case find (\<lambda>a. env_probe_text a = s)
              [EnvProbeNone, EnvProbeLogin, EnvProbeInteractive, EnvProbeLoginInteractive] of
              Some a \<Rightarrow> Inr a
            | None \<Rightarrow> Inl (InvalidEnvProbe s)))"

definition resolve_wait_for :: "raw \<Rightarrow> resolve_error + hook_name" where
  "resolve_wait_for r =
     (let s = r_wait_for r in
      if s = [] then Inr HookUpdateContent
      else (case find (\<lambda>a. hook_text a = s)
              [HookOnCreate, HookUpdateContent, HookPostCreate, HookPostStart, HookPostAttach] of
              Some a \<Rightarrow> Inr a
            | None \<Rightarrow> Inl (InvalidWaitFor s)))"

definition resolve_credentials :: "raw \<Rightarrow> credentials" where
  "resolve_credentials r =
     (case rcu_devc (r_customizations r) of
        None \<Rightarrow> \<lparr>forward_agent = False, sync_git_config = False\<rparr>
      | Some d \<Rightarrow>
          (case rd_credentials d of
             None \<Rightarrow> \<lparr>forward_agent = False, sync_git_config = False\<rparr>
           | Some c \<Rightarrow>
               \<lparr>forward_agent = bool_value (rc_forward_agent c) False,
                sync_git_config = bool_value (rc_sync_git_config c) False\<rparr>))"

definition default_override_command :: "raw \<Rightarrow> kind \<Rightarrow> bool" where
  "default_override_command r k =
     (case r_override_command r of Some b \<Rightarrow> b | None \<Rightarrow> k \<noteq> KindCompose)"

section \<open>Bring-up kinds\<close>

definition detect_kind :: "raw \<Rightarrow> resolve_error + kind" where
  "detect_kind r =
     (let has_image = r_image r \<noteq> [];
          has_build = (case r_build r of None \<Rightarrow> False | Some b \<Rightarrow> rb_dockerfile b \<noteq> []);
          has_compose = r_docker_compose_file r \<noteq> [] in
      if has_compose \<and> (has_image \<or> has_build) then Inl ComposeAndImage
      else if has_image \<and> has_build then Inl ImageAndBuild
      else if has_compose then (if r_service r = [] then Inl ComposeNeedsService else Inr KindCompose)
      else if has_build then Inr KindBuild
      else if has_image then Inr KindImage
      else Inl NoSource)"

definition single_container_keys :: "raw \<Rightarrow> string list" where
  "single_container_keys r =
     (if r_image r \<noteq> [] then [''image''] else [])
     @ (if r_build r \<noteq> None then [''build''] else [])
     @ (if r_mounts r \<noteq> [] then [''mounts''] else [])
     @ (if r_workspace_mount r \<noteq> [] then [''workspaceMount''] else [])
     @ (if r_container_env r \<noteq> [] then [''containerEnv''] else [])
     @ (if r_container_user r \<noteq> [] then [''containerUser''] else [])
     @ (if r_run_args r \<noteq> [] then [''runArgs''] else [])
     @ (if r_app_port r \<noteq> [] then [''appPort''] else [])
     @ (if r_privileged r \<noteq> None then [''privileged''] else [])
     @ (if r_cap_add r \<noteq> [] then [''capAdd''] else [])
     @ (if r_security_opt r \<noteq> [] then [''securityOpt''] else [])"

definition reject_single_container_keys :: "raw \<Rightarrow> resolve_error + unit" where
  "reject_single_container_keys r =
     (if single_container_keys r \<noteq> [] then Inl (SingleContainerKeys (single_container_keys r))
      else Inr ())"

text \<open>
  \<open>resolveImage\<close>. It is called with \<open>KindBuild\<close> only when the document has a \<open>build\<close>; the code
  dereferences the pointer, so the branch without one is never reached.
\<close>

definition resolve_image :: "string option \<Rightarrow> raw \<Rightarrow> kind \<Rightarrow> string \<Rightarrow> resolve_error + image_spec" where
  "resolve_image home r k config_path =
     (case parse_ports (r_app_port r) of
        Inl e \<Rightarrow> Inl (InAppPort e)
      | Inr ap \<Rightarrow>
          Inr \<lparr>i_image = r_image r,
            i_build =
              (if k \<noteq> KindBuild then None
               else (case r_build r of
                       None \<Rightarrow> None
                     | Some b \<Rightarrow>
                         Some \<lparr>b_dockerfile = abs_from (dir config_path) (rb_dockerfile b),
                           b_context = abs_from (dir config_path)
                             (if rb_context b = [] then ''.'' else rb_context b),
                           b_args = rb_args b, b_target = rb_target b,
                           b_cache_from = rb_cache_from b, b_options = rb_options b\<rparr>)),
            i_workspace_mount = expand_mount_tilde home (r_workspace_mount r),
            i_mounts = expand_mounts_tilde home (r_mounts r),
            i_container_env = r_container_env r,
            i_app_ports = ap,
            i_run_args = r_run_args r,
            i_init = bool_value (r_init r) False,
            i_privileged = bool_value (r_privileged r) False,
            i_cap_add = r_cap_add r,
            i_security_opt = r_security_opt r\<rparr>)"

definition resolve_compose :: "raw \<Rightarrow> string \<Rightarrow> compose_spec" where
  "resolve_compose r config_path =
     \<lparr>c_files = map (abs_from (dir config_path)) (r_docker_compose_file r),
      c_service = r_service r, c_run_services = r_run_services r\<rparr>"

section \<open>Resolve\<close>

record loaded =
  l_config_path :: string
  l_local_folder :: string
  l_raw :: raw
  l_warnings :: "string list"

definition resolve_hooks :: "raw \<Rightarrow> hooks" where
  "resolve_hooks r =
     \<lparr>h_initialize = r_initialize_command r, h_on_create = r_on_create_command r,
      h_update_content = r_update_content_command r, h_post_create = r_post_create_command r,
      h_post_start = r_post_start_command r, h_post_attach = r_post_attach_command r\<rparr>"

definition unsupported :: "raw \<Rightarrow> resolve_error option" where
  "unsupported r =
     (if r_features r \<noteq> [] \<and> r_features r \<noteq> ''null'' \<and> r_features r \<noteq> ''{}''
        then Some FeaturesUnsupported
      else if r_host_requirements r \<noteq> [] \<and> r_host_requirements r \<noteq> ''null''
        then Some HostRequirementsUnsupported
      else if r_update_remote_user_uid r = Some True then Some UpdateUidUnsupported
      else None)"

text \<open>
  The last part of \<open>Resolve\<close>: the bring-up details of the kind, on a \<open>Spec\<close> filled in otherwise.
\<close>

definition resolve_source :: "string option \<Rightarrow> loaded \<Rightarrow> kind \<Rightarrow> spec \<Rightarrow> resolve_error + spec" where
  "resolve_source home l k s =
     (let r = l_raw l in
      if k = KindCompose then
        (case reject_single_container_keys r of
           Inl e \<Rightarrow> Inl e
         | Inr _ \<Rightarrow>
             if s_container_folder s = [] then Inl ComposeNeedsFolder
             else Inr (s\<lparr>s_compose := Some (resolve_compose r (l_config_path l))\<rparr>))
      else
        (case resolve_image home r k (l_config_path l) of
           Inl e \<Rightarrow> Inl e
         | Inr img \<Rightarrow>
             Inr (s\<lparr>s_image := Some img,
               s_container_folder :=
                 (if s_container_folder s = [] then ''/workspaces/'' @ slug (base (l_local_folder l))
                  else s_container_folder s)\<rparr>)))"

definition resolve :: "string option \<Rightarrow> loaded \<Rightarrow> resolve_error + spec" where
  "resolve home l =
     (let r = l_raw l; name = display_name r (l_local_folder l) in
      case detect_kind r of
        Inl e \<Rightarrow> Inl e
      | Inr k \<Rightarrow>
      (case unsupported r of
        Some e \<Rightarrow> Inl e
      | None \<Rightarrow>
      (case resolve_shutdown r k of
        Inl e \<Rightarrow> Inl e
      | Inr sa \<Rightarrow>
      (case resolve_env_probe r of
        Inl e \<Rightarrow> Inl e
      | Inr probe \<Rightarrow>
      (case resolve_wait_for r of
        Inl e \<Rightarrow> Inl e
      | Inr wait \<Rightarrow>
      (case parse_ports (r_forward_ports r) of
        Inl e \<Rightarrow> Inl (InForwardPorts e)
      | Inr ports \<Rightarrow>
          resolve_source home l k
            \<lparr>s_id = workspace_id name (l_local_folder l), s_name = slug name, s_kind = k,
             s_config_path = l_config_path l, s_local_folder = l_local_folder l,
             s_container_folder = r_workspace_folder r, s_image = None, s_compose = None,
             s_container_user = r_container_user r, s_remote_user = r_remote_user r,
             s_remote_env = r_remote_env r, s_ports = ports,
             s_override_command = default_override_command r k, s_shutdown_action = sa,
             s_env_probe = probe, s_wait_for = wait, s_credentials = resolve_credentials r,
             s_hooks = resolve_hooks r\<rparr>))))))"

section \<open>Slugs\<close>

definition wf_slug :: "string \<Rightarrow> bool" where
  "wf_slug s \<longleftrightarrow> s \<noteq> [] \<and> list_all (\<lambda>c. is_slug_char c \<or> c = HYPHEN) s
     \<and> hd s \<noteq> HYPHEN \<and> last s \<noteq> HYPHEN
     \<and> successively (\<lambda>a b. a \<noteq> HYPHEN \<or> b \<noteq> HYPHEN) s"

lemma hyphen_not_slug [simp]: "\<not> is_slug_char HYPHEN"
  by code_simp

lemma slug_char_not_hyphen: "is_slug_char c \<Longrightarrow> c \<noteq> HYPHEN"
  using hyphen_not_slug by blast

lemma collapse_slug_Cons: "is_slug_char c \<Longrightarrow> collapse (c # s) = c # collapse s"
  by (cases s) auto

lemma collapse_chars: "list_all (\<lambda>c. is_slug_char c \<or> c = HYPHEN) (collapse s)"
  by (induction s rule: collapse.induct) auto

lemma collapse_single: "successively (\<lambda>a b. a \<noteq> HYPHEN \<or> b \<noteq> HYPHEN) (collapse s)"
proof (induction s rule: collapse.induct)
  case (3 c d s)
  then show ?case
    by (auto simp: successively_Cons collapse_slug_Cons dest: slug_char_not_hyphen)
qed auto

lemma collapse_id:
  "list_all (\<lambda>c. is_slug_char c \<or> c = HYPHEN) s \<Longrightarrow>
   successively (\<lambda>a b. a \<noteq> HYPHEN \<or> b \<noteq> HYPHEN) s \<Longrightarrow> collapse s = s"
proof (induction s rule: collapse.induct)
  case (3 c d s)
  then show ?case by (auto simp: successively_Cons)
qed auto

lemma trim_hyphens_props:
  assumes "trim_hyphens s \<noteq> []"
  shows "hd (trim_hyphens s) \<noteq> HYPHEN" "last (trim_hyphens s) \<noteq> HYPHEN" "sublist (trim_hyphens s) s"
proof -
  define u where "u = dropWhile (\<lambda>c. c = HYPHEN) s"
  define v where "v = dropWhile (\<lambda>c. c = HYPHEN) (rev u)"
  have t: "trim_hyphens s = rev v" by (simp add: trim_hyphens_def u_def v_def)
  with assms have "v \<noteq> []" by simp
  then show "last (trim_hyphens s) \<noteq> HYPHEN"
    unfolding t using hd_dropWhile [of "\<lambda>c. c = HYPHEN" "rev u"] by (simp add: v_def last_rev)
  have "suffix v (rev u)" by (simp add: v_def suffix_dropWhile)
  then obtain w where w: "rev u = w @ v" by (auto simp: suffix_def)
  then have u: "u = rev v @ rev w" by (metis rev_append rev_rev_ident)
  then have "u \<noteq> []" using \<open>v \<noteq> []\<close> by simp
  then have "hd u \<noteq> HYPHEN" using hd_dropWhile [of "\<lambda>c. c = HYPHEN" s] by (simp add: u_def)
  then show "hd (trim_hyphens s) \<noteq> HYPHEN" using u t \<open>v \<noteq> []\<close> by simp
  have "sublist u s" by (simp add: u_def suffix_dropWhile suffix_imp_sublist)
  moreover have "sublist (rev v) u" unfolding u by simp
  ultimately show "sublist (trim_hyphens s) s" using t sublist_order.order.trans by metis
qed

lemma successively_sublist: "sublist xs ys \<Longrightarrow> successively P ys \<Longrightarrow> successively P xs"
  by (auto simp: sublist_def successively_append_iff)

lemma list_all_sublist: "sublist xs ys \<Longrightarrow> list_all P ys \<Longrightarrow> list_all P xs"
  by (auto simp: sublist_def)

lemma wf_slug_devc: "wf_slug ''devc''"
  by code_simp

lemma slug_wf: "wf_slug (slug s)"
proof (cases "trim_hyphens (collapse (to_lower s)) = []")
  case True
  then show ?thesis using wf_slug_devc by (simp add: slug_def)
next
  case False
  note props = trim_hyphens_props [OF False]
  have "wf_slug (trim_hyphens (collapse (to_lower s)))"
    using False props successively_sublist [OF props(3) collapse_single]
      list_all_sublist [OF props(3) collapse_chars]
    by (simp add: wf_slug_def)
  with False show ?thesis by (simp add: slug_def)
qed

lemma slug_char_lower: "is_slug_char c \<or> c = HYPHEN \<Longrightarrow> byte c < 128 \<and> \<not> is_upper c"
  by (auto simp: is_slug_char_def go_defs)

lemma dropWhile_hd: "s \<noteq> [] \<Longrightarrow> hd s \<noteq> c \<Longrightarrow> dropWhile (\<lambda>x. x = c) s = s"
  by (cases s) auto

lemma trim_hyphens_id: "s \<noteq> [] \<Longrightarrow> hd s \<noteq> HYPHEN \<Longrightarrow> last s \<noteq> HYPHEN \<Longrightarrow> trim_hyphens s = s"
  by (simp add: trim_hyphens_def dropWhile_hd hd_rev)

lemma slug_id: "wf_slug s \<Longrightarrow> slug s = s"
proof -
  assume s: "wf_slug s"
  then have "\<forall>c \<in> set s. byte c < 128 \<and> \<not> is_upper c"
    using slug_char_lower by (simp add: wf_slug_def list_all_iff)
  then have "to_lower s = s" by (intro to_lower_ascii_lower) simp
  with s show ?thesis
    by (simp add: slug_def wf_slug_def collapse_id trim_hyphens_id)
qed

text \<open>
  Every slug is usable as a DNS label, container name part and file name (not empty, only
  \<open>[a-z0-9-]\<close>, no hyphen at either end, no two in a row), and slugging is a projection onto those
  texts: it leaves exactly the well-formed slugs unchanged.
\<close>

lemma slug_projection: "wf_slug (slug s) \<and> slug (slug s) = slug s \<and> (slug s = s \<longleftrightarrow> wf_slug s)"
  using slug_wf slug_id by metis

section \<open>Ports\<close>

definition port_ok :: "int \<Rightarrow> bool" where
  "port_ok n \<longleftrightarrow> 1 \<le> n \<and> n \<le> 65535"

lemma atoi_port_Inr: "atoi_port s = Inr n \<longleftrightarrow> atoi (trim_space s) = Some n \<and> port_ok n"
  by (auto simp: atoi_port_def port_ok_def split: option.splits)

lemma itoa_pos: "0 \<le> n \<Longrightarrow> itoa n = nat_digits (nat n)"
  by (simp add: itoa_def)

lemma atoi_port_itoa: "port_ok n \<Longrightarrow> atoi_port (itoa n) = Inr n"
proof -
  assume n: "port_ok n"
  then have "trim_space (itoa n) = itoa n" by (simp add: itoa_pos port_ok_def)
  moreover have "in_int64 n" using n by (simp add: in_int64_def port_ok_def)
  ultimately show ?thesis using n by (simp add: atoi_port_Inr atoi_itoa)
qed

lemma is_numeric_itoa: "0 \<le> n \<Longrightarrow> is_numeric (itoa n)"
  by (simp add: is_numeric_def itoa_pos nat_digits_digits)

lemma digits_no_colon: "0 \<le> n \<Longrightarrow> CHR '':'' \<notin> set (itoa n)"
  using nat_digits_printable [of "CHR '':''" "nat n"] by (auto simp: itoa_pos)

definition wf_port :: "port_forward \<Rightarrow> bool" where
  "wf_port pf \<longleftrightarrow> port_ok (host_port pf) \<and> port_ok (container_port pf)
     \<and> CHR '':'' \<notin> set (host_ip pf) \<and> \<not> is_numeric (host_ip pf)
     \<and> (host_ip pf \<noteq> [] \<longrightarrow> host_port pf = container_port pf)"

lemma split_two: "split_on c s = [a, b] \<Longrightarrow> c \<notin> set a \<and> c \<notin> set b"
  using split_on_parts [of _ c s] by auto

lemma parse_port_wf: "parse_port e = Inr pf \<Longrightarrow> wf_port pf"
  unfolding parse_port_def wf_port_def
  by (auto simp: atoi_port_Inr is_numeric_def dest!: split_two split: list.splits sum.splits if_splits)

text \<open>The entry a resolved port would be written as.\<close>

definition port_entry :: "port_forward \<Rightarrow> string" where
  "port_entry pf =
     (if host_ip pf = [] then itoa (host_port pf) @ '':'' @ itoa (container_port pf)
      else host_ip pf @ '':'' @ itoa (container_port pf))"

lemma parse_port_entry: "wf_port pf \<Longrightarrow> parse_port (port_entry pf) = Inr pf"
proof -
  assume wf: "wf_port pf"
  then have pos: "0 \<le> host_port pf" "0 \<le> container_port pf" by (auto simp: wf_port_def port_ok_def)
  have split: "split_on (CHR '':'') (a @ '':'' @ itoa (container_port pf)) =
      [a, itoa (container_port pf)]" if "CHR '':'' \<notin> set a" for a
    using that digits_no_colon [OF pos(2)] split_on_append [of "CHR '':''" a] by simp
  show ?thesis
  proof (cases "host_ip pf = []")
    case True
    then show ?thesis
      using wf split [OF digits_no_colon [OF pos(1)]] is_numeric_itoa [OF pos(1)]
      by (simp add: port_entry_def parse_port_def wf_port_def atoi_port_itoa)
  next
    case False
    then show ?thesis
      using wf split [of "host_ip pf"]
      by (simp add: port_entry_def parse_port_def wf_port_def atoi_port_itoa)
  qed
qed

text \<open>
  A port entry that is accepted gives two ports between 1 and 65535 and a bind address without a
  colon that is not a number, the same port on both sides when there is an address; and every such
  mapping is the parse of its own \<open>host:container\<close> or \<open>address:port\<close> text, so no accepted mapping is
  out of reach of the syntax.
\<close>

lemma parse_port_roundtrip:
  assumes "parse_port e = Inr pf"
  shows "wf_port pf \<and> parse_port (port_entry pf) = Inr pf"
  using assms parse_port_wf parse_port_entry by blast

lemma parse_port_roundtrip_witness:
  "wf_port \<lparr>host_ip = ''127.0.0.1'', host_port = 3000, container_port = 3000\<rparr>
   \<and> parse_port ''127.0.0.1:3000'' =
       Inr \<lparr>host_ip = ''127.0.0.1'', host_port = 3000, container_port = 3000\<rparr>"
  using parse_port_roundtrip [of "''127.0.0.1: +3000''"
    "\<lparr>host_ip = ''127.0.0.1'', host_port = 3000, container_port = 3000\<rparr>"]
  by code_simp

section \<open>Mounts\<close>

lemma mount_part_no_tilde: "CHR ''~'' \<notin> set p \<Longrightarrow> mount_part home p = p"
proof -
  assume p: "CHR ''~'' \<notin> set p"
  obtain k v ok where c: "cut p (CHR ''='') = (k, v, ok)" by (cases "cut p (CHR ''='')")
  show ?thesis
  proof (cases ok)
    case True
    then have "p = k @ CHR ''='' # v" using c cut_found_eq [of p "CHR ''=''" k v] by simp
    with p have "expand_tilde home v = v" by (auto simp: expand_tilde_def prefix_def)
    with c \<open>p = k @ CHR ''='' # v\<close> show ?thesis by (simp add: mount_part_def)
  next
    case False
    with c show ?thesis by (simp add: mount_part_def)
  qed
qed

lemma expand_mount_tilde_parts:
  "expand_mount_tilde home m = join '','' (map (mount_part home) (split_on (CHR '','') m))"
proof (cases "m = [] \<or> CHR ''~'' \<notin> set m")
  case True
  then have "map (mount_part home) (split_on (CHR '','') m) = split_on (CHR '','') m"
    by (intro map_idI mount_part_no_tilde) (auto dest: split_on_set)
  with True show ?thesis by (simp add: expand_mount_tilde_def join_split_on)
next
  case False
  then show ?thesis by (simp add: expand_mount_tilde_def)
qed

text \<open>
  In a mount text, only the value of a \<open>source\<close> or \<open>src\<close> field is ever changed. For a text built from
  \<open>key=value\<close> fields, the result is the same text in which exactly the values of those fields have a
  leading \<open>~\<close> or \<open>~/\<close> replaced by the home directory; without a home directory nothing changes.
\<close>

lemma expand_mount_tilde_fields:
  assumes "fs \<noteq> []"
    and "\<forall>(k, v) \<in> set fs. CHR '','' \<notin> set k \<and> CHR '','' \<notin> set v \<and> CHR ''='' \<notin> set k"
  shows "expand_mount_tilde home (join '','' (map (\<lambda>(k, v). k @ ''='' @ v) fs)) =
    join '','' (map (\<lambda>(k, v). k @ ''='' @
      (if to_lower (trim_space k) \<in> {''source'', ''src''} then expand_tilde home v else v)) fs)"
proof -
  have "split_on (CHR '','') (join '','' (map (\<lambda>(k, v). k @ ''='' @ v) fs)) =
      map (\<lambda>(k, v). k @ ''='' @ v) fs"
    using assms by (intro split_on_join) auto
  moreover have "map (mount_part home) (map (\<lambda>(k, v). k @ ''='' @ v) fs) =
      map (\<lambda>(k, v). k @ ''='' @
        (if to_lower (trim_space k) \<in> {''source'', ''src''} then expand_tilde home v else v)) fs"
    using assms(2) by (auto simp: mount_part_def cut_append)
  ultimately show ?thesis by (simp only: expand_mount_tilde_parts)
qed

lemma expand_mount_tilde_fields_witness:
  "expand_mount_tilde (Some ''/home/u'') ''type=bind,Source=~/p,target=~/x'' =
     ''type=bind,Source=/home/u/p,target=~/x''"
  using expand_mount_tilde_fields [of "[(''type'', ''bind''), (''Source'', ''~/p''), (''target'', ''~/x'')]"
    "Some ''/home/u''"]
  by code_simp

section \<open>Which configurations resolve\<close>

definition is_ok :: "'e + 'a \<Rightarrow> bool" where
  "is_ok r = (case r of Inl _ \<Rightarrow> False | Inr _ \<Rightarrow> True)"

lemma is_ok_iff: "is_ok r \<longleftrightarrow> (\<exists>x. r = Inr x)"
  by (cases r) (simp_all add: is_ok_def)

lemma is_ok_simps [simp]: "is_ok (Inr x)" "\<not> is_ok (Inl e)"
  by (simp_all add: is_ok_def)

lemma is_ok_case [simp]:
  "is_ok (case r of Inl e \<Rightarrow> Inl (g e) | Inr x \<Rightarrow> f x) \<longleftrightarrow> (\<exists>x. r = Inr x \<and> is_ok (f x))"
  by (cases r) simp_all

lemma is_ok_case_option [simp]:
  "is_ok (case r of Some e \<Rightarrow> Inl (g e) | None \<Rightarrow> x) \<longleftrightarrow> r = None \<and> is_ok x"
  by (cases r) simp_all

definition has_dockerfile :: "raw \<Rightarrow> bool" where
  "has_dockerfile r = (case r_build r of None \<Rightarrow> False | Some b \<Rightarrow> rb_dockerfile b \<noteq> [])"

definition one_source :: "raw \<Rightarrow> bool" where
  "one_source r \<longleftrightarrow>
     length (filter id [r_image r \<noteq> [], has_dockerfile r, r_docker_compose_file r \<noteq> []]) = 1"

definition valid_compose :: "raw \<Rightarrow> bool" where
  "valid_compose r \<longleftrightarrow> r_service r \<noteq> [] \<and> r_workspace_folder r \<noteq> []
     \<and> r_build r = None \<and> r_mounts r = [] \<and> r_workspace_mount r = [] \<and> r_container_env r = []
     \<and> r_container_user r = [] \<and> r_run_args r = [] \<and> r_app_port r = [] \<and> r_privileged r = None
     \<and> r_cap_add r = [] \<and> r_security_opt r = []"

definition valid_choices :: "raw \<Rightarrow> bool" where
  "valid_choices r \<longleftrightarrow>
     r_shutdown_action r \<in> {[], ''none'', ''stopContainer'', ''stopCompose''}
     \<and> r_user_env_probe r \<in>
         {[], ''none'', ''loginShell'', ''interactiveShell'', ''loginInteractiveShell''}
     \<and> r_wait_for r \<in> {[], ''onCreateCommand'', ''updateContentCommand'', ''postCreateCommand'',
         ''postStartCommand'', ''postAttachCommand''}"

definition nothing_unsupported :: "raw \<Rightarrow> bool" where
  "nothing_unsupported r \<longleftrightarrow> r_features r \<in> {[], ''null'', ''{}''}
     \<and> r_host_requirements r \<in> {[], ''null''} \<and> r_update_remote_user_uid r \<noteq> Some True"

definition valid_config :: "raw \<Rightarrow> bool" where
  "valid_config r \<longleftrightarrow> one_source r \<and> nothing_unsupported r \<and> valid_choices r
     \<and> list_all (\<lambda>e. is_ok (parse_port e)) (r_forward_ports r)
     \<and> (if r_docker_compose_file r \<noteq> [] then valid_compose r
        else list_all (\<lambda>e. is_ok (parse_port e)) (r_app_port r))"

lemma is_ok_traverse: "is_ok (res_traverse f xs) \<longleftrightarrow> list_all (\<lambda>x. is_ok (f x)) xs"
  by (induction xs) (auto simp: is_ok_def split: sum.splits)

lemma unsupported_None: "unsupported r = None \<longleftrightarrow> nothing_unsupported r"
  by (auto simp: unsupported_def nothing_unsupported_def)

lemma choices_ok:
  "is_ok (resolve_shutdown r k) \<and> is_ok (resolve_env_probe r) \<and> is_ok (resolve_wait_for r)
   \<longleftrightarrow> valid_choices r"
  by (auto simp: is_ok_def resolve_shutdown_def resolve_env_probe_def resolve_wait_for_def
      valid_choices_def Let_def)

lemma single_container_keys_Nil:
  "single_container_keys r = [] \<longleftrightarrow> r_image r = [] \<and> r_build r = None \<and> r_mounts r = []
     \<and> r_workspace_mount r = [] \<and> r_container_env r = [] \<and> r_container_user r = []
     \<and> r_run_args r = [] \<and> r_app_port r = [] \<and> r_privileged r = None \<and> r_cap_add r = []
     \<and> r_security_opt r = []"
  unfolding single_container_keys_def append_is_Nil_conv by simp

lemma detect_kind_Inr:
  "detect_kind r = Inr k \<longleftrightarrow> one_source r \<and>
     k = (if r_docker_compose_file r \<noteq> [] then KindCompose
          else if has_dockerfile r then KindBuild else KindImage) \<and>
     (k = KindCompose \<longrightarrow> r_service r \<noteq> [])"
  unfolding detect_kind_def has_dockerfile_def [symmetric] one_source_def Let_def
  by (auto split: if_splits)

lemma parse_ports_ok: "(\<exists>ps. parse_ports es = Inr ps) \<longleftrightarrow> list_all (\<lambda>e. is_ok (parse_port e)) es"
  unfolding parse_ports_def is_ok_traverse [symmetric] by (simp add: is_ok_iff)

lemma resolve_image_ok:
  "is_ok (resolve_image home r k p) \<longleftrightarrow> list_all (\<lambda>e. is_ok (parse_port e)) (r_app_port r)"
  by (simp add: resolve_image_def parse_ports_ok)

lemma resolve_source_ok:
  assumes "s_container_folder s = r_workspace_folder (l_raw l)"
  shows "is_ok (resolve_source home l k s) \<longleftrightarrow>
     (if k = KindCompose
      then single_container_keys (l_raw l) = [] \<and> r_workspace_folder (l_raw l) \<noteq> []
      else list_all (\<lambda>e. is_ok (parse_port e)) (r_app_port (l_raw l)))"
proof (cases "k = KindCompose")
  case True
  then show ?thesis
    by (auto simp: resolve_source_def Let_def reject_single_container_keys_def assms)
next
  case False
  then have "is_ok (resolve_source home l k s) \<longleftrightarrow>
      is_ok (resolve_image home (l_raw l) k (l_config_path l))"
    by (simp add: resolve_source_def Let_def) (simp add: is_ok_iff)
  with False show ?thesis by (simp add: resolve_image_ok)
qed

lemma is_ok_ex_conj: "(\<exists>x. r = Inr x \<and> P) \<longleftrightarrow> is_ok r \<and> P"
  by (auto simp: is_ok_iff)

lemma parse_ports_is_ok: "is_ok (parse_ports es) \<longleftrightarrow> list_all (\<lambda>e. is_ok (parse_port e)) es"
  using parse_ports_ok [of es] by (simp add: is_ok_iff)

lemma resolve_ok_stages:
  "is_ok (resolve home l) \<longleftrightarrow>
    (\<exists>k. detect_kind (l_raw l) = Inr k \<and> nothing_unsupported (l_raw l)
       \<and> is_ok (resolve_shutdown (l_raw l) k) \<and> is_ok (resolve_env_probe (l_raw l))
       \<and> is_ok (resolve_wait_for (l_raw l))
       \<and> list_all (\<lambda>e. is_ok (parse_port e)) (r_forward_ports (l_raw l))
       \<and> (if k = KindCompose
          then single_container_keys (l_raw l) = [] \<and> r_workspace_folder (l_raw l) \<noteq> []
          else list_all (\<lambda>e. is_ok (parse_port e)) (r_app_port (l_raw l))))"
  unfolding resolve_def Let_def is_ok_case is_ok_case_option unsupported_None
  by (simp only: resolve_source_ok spec.simps is_ok_ex_conj parse_ports_is_ok)

text \<open>
  C7: a configuration resolves exactly when it is valid: one source (an image, a Dockerfile or compose
  files), nothing devc does not support, every enumerated property one of its values, every port
  entry well formed, and for compose a service and workspace folder and none of the properties that
  need a container devc creates itself. (\<open>init\<close> is such a property, but it is not among those
  refused.)
\<close>

theorem resolve_succeeds_iff: "is_ok (resolve home l) \<longleftrightarrow> valid_config (l_raw l)"
proof -
  have "is_ok (resolve home l) \<longleftrightarrow>
      (\<exists>k. detect_kind (l_raw l) = Inr k \<and> nothing_unsupported (l_raw l) \<and> valid_choices (l_raw l)
         \<and> list_all (\<lambda>e. is_ok (parse_port e)) (r_forward_ports (l_raw l))
         \<and> (if k = KindCompose
            then single_container_keys (l_raw l) = [] \<and> r_workspace_folder (l_raw l) \<noteq> []
            else list_all (\<lambda>e. is_ok (parse_port e)) (r_app_port (l_raw l))))"
    using choices_ok [of "l_raw l"] unfolding resolve_ok_stages by blast
  then show ?thesis
    by (auto simp: detect_kind_Inr valid_config_def valid_compose_def single_container_keys_Nil
        one_source_def split: if_splits)
qed

section \<open>What a resolved Spec promises\<close>

definition clean_abs :: "string \<Rightarrow> bool" where
  "clean_abs p \<longleftrightarrow> is_abs p \<and> clean p = p"

lemma is_abs_Cons: "is_abs (c # p) \<longleftrightarrow> c = SLASH"
  by (auto simp: is_abs_def)

lemma is_abs_dir:
  assumes "is_abs p"
  shows "is_abs (dir p)"
proof -
  obtain t where p: "p = SLASH # t" using assms by (cases p) (auto simp: is_abs_def)
  define v where "v = dropWhile (\<lambda>c. c \<noteq> SLASH) (rev p)"
  have "suffix v (rev p)" by (simp add: v_def suffix_dropWhile)
  then obtain w where w: "rev p = w @ v" by (auto simp: suffix_def)
  have "v \<noteq> []" using p by (simp add: v_def dropWhile_eq_Nil_conv)
  moreover have "p = rev v @ rev w" using w by (metis rev_append rev_rev_ident)
  ultimately have "is_abs (rev v)" using p by (cases "rev v") (auto simp: is_abs_Cons)
  then show ?thesis by (simp add: dir_def v_def)
qed

lemma abs_from_clean:
  assumes "is_abs b" and "p \<noteq> []"
  shows "clean_abs (abs_from b p)"
proof -
  have "b \<noteq> []" using assms(1) by (auto simp: is_abs_def)
  moreover have "is_abs (b @ ''/'' @ p)" using assms(1) by (cases b) (auto simp: is_abs_Cons is_abs_def)
  ultimately show ?thesis
    using assms by (auto simp: abs_from_def clean_abs_def path_join_def)
qed

lemma abs_from_Nil [simp]: "abs_from b [] = []"
  by (simp add: abs_from_def)

text \<open>The part of a \<open>Spec\<close> that describes how the container comes up.\<close>

fun source_ok :: "kind \<Rightarrow> image_spec option \<Rightarrow> compose_spec option \<Rightarrow> bool" where
  "source_ok KindImage (Some i) None \<longleftrightarrow> i_image i \<noteq> [] \<and> i_build i = None \<and> list_all wf_port (i_app_ports i)"
| "source_ok KindBuild (Some i) None \<longleftrightarrow> i_image i = [] \<and> list_all wf_port (i_app_ports i) \<and>
     (case i_build i of None \<Rightarrow> False
      | Some b \<Rightarrow> clean_abs (b_dockerfile b) \<and> clean_abs (b_context b))"
| "source_ok KindCompose None (Some c) \<longleftrightarrow> c_service c \<noteq> [] \<and> c_files c \<noteq> []
     \<and> list_all (\<lambda>f. f = [] \<or> clean_abs f) (c_files c)"
| "source_ok _ _ _ \<longleftrightarrow> False"

definition wf_spec :: "spec \<Rightarrow> bool" where
  "wf_spec s \<longleftrightarrow>
     wf_slug (s_name s) \<and> s_id s = s_name s @ ''-'' @ take 8 (sha256_hex (s_local_folder s))
     \<and> source_ok (s_kind s) (s_image s) (s_compose s)
     \<and> s_container_folder s \<noteq> [] \<and> list_all wf_port (s_ports s)
     \<and> s_wait_for s \<noteq> HookInitialize"

lemma parse_ports_wf: "parse_ports es = Inr ps \<Longrightarrow> list_all wf_port ps"
  unfolding parse_ports_def list_all_iff using parse_port_wf res_traverse_InrD by fastforce

lemma resolve_wait_for_not_initialize: "resolve_wait_for r = Inr h \<Longrightarrow> h \<noteq> HookInitialize"
  by (auto simp: resolve_wait_for_def Let_def split: if_splits)

lemma resolve_source_wf:
  assumes "resolve_source home l k s = Inr s'" and "detect_kind (l_raw l) = Inr k"
    and "is_abs (l_config_path l)"
    and "s_kind s = k" "s_image s = None" "s_compose s = None"
  shows "source_ok (s_kind s') (s_image s') (s_compose s') \<and> s_container_folder s' \<noteq> []
    \<and> s_name s' = s_name s \<and> s_id s' = s_id s \<and> s_local_folder s' = s_local_folder s
    \<and> s_ports s' = s_ports s \<and> s_wait_for s' = s_wait_for s"
proof (cases "k = KindCompose")
  case True
  have files: "list_all (\<lambda>f. f = [] \<or> clean_abs f)
      (map (abs_from (dir (l_config_path l))) (r_docker_compose_file (l_raw l)))"
    using abs_from_clean [OF is_abs_dir [OF assms(3)]] by (auto simp: list_all_iff) (metis abs_from_Nil)
  with True assms show ?thesis
    by (auto simp: resolve_source_def Let_def resolve_compose_def detect_kind_Inr
        split: sum.splits if_splits)
next
  case False
  then obtain img where img: "resolve_image home (l_raw l) k (l_config_path l) = Inr img"
      "s' = s\<lparr>s_image := Some img, s_container_folder :=
         (if s_container_folder s = [] then ''/workspaces/'' @ slug (base (l_local_folder l))
          else s_container_folder s)\<rparr>"
    using assms(1) by (auto simp: resolve_source_def Let_def split: sum.splits)
  then have "list_all wf_port (i_app_ports img)"
    by (auto simp: resolve_image_def split: sum.splits dest: parse_ports_wf)
  moreover have "i_image img = r_image (l_raw l)"
    using img(1) by (auto simp: resolve_image_def split: sum.splits)
  ultimately show ?thesis
    using False assms img abs_from_clean [OF is_abs_dir [OF assms(3)]]
    by (auto simp: detect_kind_Inr resolve_image_def one_source_def has_dockerfile_def
        split: sum.splits option.splits if_splits)
qed

lemma resolved_spec_wf:
  assumes "resolve home l = Inr s" and "is_abs (l_config_path l)"
  shows "wf_spec s"
proof -
  obtain k s0 sa pr w ps where
    k: "detect_kind (l_raw l) = Inr k" and w: "resolve_wait_for (l_raw l) = Inr w"
    and ps: "parse_ports (r_forward_ports (l_raw l)) = Inr ps"
    and src: "resolve_source home l k s0 = Inr s"
    and s0: "s_kind s0 = k" "s_image s0 = None" "s_compose s0 = None" "s_ports s0 = ps"
      "s_wait_for s0 = w" "s_name s0 = slug (display_name (l_raw l) (l_local_folder l))"
      "s_id s0 = workspace_id (display_name (l_raw l) (l_local_folder l)) (l_local_folder l)"
      "s_local_folder s0 = l_local_folder l"
    using assms(1) by (fastforce simp: resolve_def Let_def split: sum.splits option.splits)
  from resolve_source_wf [OF src k assms(2) s0(1-3)] s0 parse_ports_wf [OF ps]
    resolve_wait_for_not_initialize [OF w] slug_wf
  show ?thesis by (simp add: wf_spec_def workspace_id_def)
qed

text \<open>
  What every later stage relies on. A resolved \<open>Spec\<close> has a slug as name and the id built from it
  and the folder's digest; exactly the details of its kind, with absolute cleaned paths for the
  Dockerfile and build context (and every non-empty compose file entry), whatever the document wrote;
  a container workspace folder; only ports in range; and a hook to wait for that runs in the
  container.
\<close>

lemma resolve_wf:
  assumes "resolve home l = Inr s" and "is_abs (l_config_path l)"
  shows "wf_spec s"
  using assms by (rule resolved_spec_wf)

lemma resolve_wf_witness:
  "case resolve (Some ''/home/u'')
      \<lparr>l_config_path = ''/src/app/.devcontainer/devcontainer.json'', l_local_folder = ''/src/app'',
       l_raw = empty_raw\<lparr>r_build := Some (empty_build\<lparr>rb_dockerfile := ''../Dockerfile''\<rparr>),
         r_forward_ports := [''8080:80'']\<rparr>, l_warnings = []\<rparr> of
     Inl _ \<Rightarrow> False | Inr s \<Rightarrow> wf_spec s"
  (is "case resolve ?home ?l of Inl _ \<Rightarrow> False | Inr s \<Rightarrow> wf_spec s")
proof -
  have "is_ok (resolve ?home ?l)"
    unfolding resolve_ok_stages by (rule exI [of _ KindBuild]) code_simp
  then obtain s where s: "resolve ?home ?l = Inr s" by (auto simp: is_ok_iff)
  moreover have "is_abs (l_config_path ?l)" by code_simp
  ultimately have "wf_spec s" by (rule resolve_wf)
  with s show ?thesis by simp
qed

end
