(* ===== verification/ContainerArgs.thy ===== *)
theory ContainerArgs
  imports Resolve
begin

text \<open>
  The command lines package \<open>container\<close> builds: \<open>container/single.go\<close>, the argument builders of
  \<open>container/compose.go\<close>, \<open>container/labels.go\<close>, \<open>container/util.go\<close>. \<open>json_spec\<close> is
  \<open>json.Marshal\<close> of a \<open>Spec\<close>.
\<close>

section \<open>Shared pieces\<close>

definition sorted_pairs :: "string gomap \<Rightarrow> (string \<times> string) list" where
  "sorted_pairs m = map (\<lambda>k. (k, map_get m k)) (sorted_keys m)"

definition pair_flags :: "string \<Rightarrow> (string \<times> string) list \<Rightarrow> string list" where
  "pair_flags flag kvs = concat (map (\<lambda>(k, v). [flag, k @ ''='' @ v]) kvs)"

definition value_flags :: "string \<Rightarrow> string list \<Rightarrow> string list" where
  "value_flags flag vs = concat (map (\<lambda>v. [flag, v]) vs)"

text \<open>\<open>if v != "" { args = append(args, flag, v) }\<close>\<close>

definition opt_flag :: "string \<Rightarrow> string \<Rightarrow> string list" where
  "opt_flag flag v = (if v = [] then [] else [flag, v])"

definition switch :: "string \<Rightarrow> bool \<Rightarrow> string list" where
  "switch flag b = (if b then [flag] else [])"

section \<open>Labels\<close>

definition label_id :: string where "label_id = ''com.github.terrakuh.devc.id''"
definition label_name :: string where "label_name = ''com.github.terrakuh.devc.name''"
definition label_local :: string where "label_local = ''com.github.terrakuh.devc.local''"
definition label_config :: string where "label_config = ''com.github.terrakuh.devc.config''"
definition label_config_hash :: string where
  "label_config_hash = ''com.github.terrakuh.devc.config-hash''"

definition container_name :: "spec \<Rightarrow> string" where
  "container_name s = ''devc-'' @ s_id s"

text \<open>The match of \<open>idHashSuffix\<close>, \<open>-[0-9a-f]{8}$\<close>, and its removal.\<close>

definition has_hash_suffix :: "string \<Rightarrow> bool" where
  "has_hash_suffix wid \<longleftrightarrow> 9 \<le> length wid \<and> wid ! (length wid - 9) = HYPHEN
     \<and> list_all is_hex (drop (length wid - 8) wid)"

definition name_from_id :: "string \<Rightarrow> string" where
  "name_from_id wid = (if has_hash_suffix wid then take (length wid - 9) wid else wid)"

definition config_hash :: "(spec \<Rightarrow> string) \<Rightarrow> spec \<Rightarrow> string" where
  "config_hash json_spec s =
     take 16 (sha256_hex (json_spec (s\<lparr>s_id := [], s_config_path := [], s_local_folder := []\<rparr>)))"

definition labels :: "(spec \<Rightarrow> string) \<Rightarrow> spec \<Rightarrow> string gomap" where
  "labels json_spec s =
     [(label_id, s_id s), (label_name, s_name s), (label_local, s_local_folder s),
      (label_config, s_config_path s), (label_config_hash, config_hash json_spec s)]"

definition label_args :: "string gomap \<Rightarrow> string list" where
  "label_args ls = concat (map (\<lambda>k. case map_of ls k of None \<Rightarrow> [] | Some v \<Rightarrow> [''--label'', k @ ''='' @ v])
     [label_id, label_name, label_local, label_config, label_config_hash])"

section \<open>Single-container commands\<close>

record create_options =
  co_userns :: string
  co_selinux_label :: string

definition keep_alive_entrypoint :: string where
  "keep_alive_entrypoint = ''/bin/sh''"

definition keep_alive_args :: "string list" where
  "keep_alive_args = [''-c'', ''while sleep 2147483647; do :; done'']"

definition build_image_tag :: "spec \<Rightarrow> string" where
  "build_image_tag s = ''devc/'' @ s_id s @ '':latest''"

datatype args_error = NoBuild | NotSingleContainer

definition build_args :: "spec \<Rightarrow> string \<Rightarrow> args_error + string list" where
  "build_args s platform =
     (case Option.bind (s_image s) i_build of
        None \<Rightarrow> Inl NoBuild
      | Some b \<Rightarrow>
          Inr ([''build'', ''--tag'', build_image_tag s]
            @ opt_flag ''--file'' (b_dockerfile b)
            @ opt_flag ''--target'' (b_target b)
            @ opt_flag ''--platform'' platform
            @ pair_flags ''--build-arg'' (sorted_pairs (b_args b))
            @ value_flags ''--cache-from'' (b_cache_from b)
            @ b_options b
            @ [if b_context b = [] then ''.'' else b_context b]))"

definition publish_spec :: "port_forward \<Rightarrow> string" where
  "publish_spec p =
     (if host_ip p \<noteq> [] then host_ip p @ '':'' @ itoa (host_port p) @ '':'' @ itoa (container_port p)
      else itoa (host_port p) @ '':'' @ itoa (container_port p))"

text \<open>The default workspace bind mount, and the one used.\<close>

definition default_volume :: "spec \<Rightarrow> create_options \<Rightarrow> string" where
  "default_volume s opts =
     s_local_folder s @ '':'' @ s_container_folder s
     @ (if co_selinux_label opts = [] then [] else '':'' @ co_selinux_label opts)"

definition workspace_mount_args :: "spec \<Rightarrow> image_spec \<Rightarrow> create_options \<Rightarrow> string list" where
  "workspace_mount_args s img opts =
     (if i_workspace_mount img \<noteq> [] then [''--mount'', i_workspace_mount img]
      else [''--volume'', default_volume s opts])"

definition run_args :: "(spec \<Rightarrow> string) \<Rightarrow> spec \<Rightarrow> create_options \<Rightarrow> string \<Rightarrow> args_error + string list" where
  "run_args json_spec s opts platform =
     (case s_image s of
        None \<Rightarrow> Inl NotSingleContainer
      | Some img \<Rightarrow>
          Inr ([''run'', ''--detach'', ''--name'', container_name s]
            @ label_args (labels json_spec s)
            @ opt_flag ''--platform'' platform
            @ opt_flag ''--userns'' (co_userns opts)
            @ workspace_mount_args s img opts
            @ value_flags ''--mount'' (i_mounts img)
            @ [''--workdir'', s_container_folder s]
            @ pair_flags ''--env'' (sorted_pairs (i_container_env img))
            @ opt_flag ''--user'' (s_container_user s)
            @ switch ''--init'' (i_init img)
            @ switch ''--privileged'' (i_privileged img)
            @ value_flags ''--cap-add'' (i_cap_add img)
            @ value_flags ''--security-opt'' (i_security_opt img)
            @ value_flags ''--publish'' (map publish_spec (i_app_ports img))
            @ i_run_args img
            @ (if s_override_command s then [''--entrypoint'', keep_alive_entrypoint] else [])
            @ [if s_kind s = KindBuild then build_image_tag s else i_image img]
            @ (if s_override_command s then keep_alive_args else [])))"

definition exec_args :: "string \<Rightarrow> string \<Rightarrow> string \<Rightarrow> string gomap \<Rightarrow> bool \<Rightarrow> bool \<Rightarrow> string list \<Rightarrow> string list" where
  "exec_args name user workdir env interactive tty argv =
     [''exec''] @ switch ''--interactive'' interactive @ switch ''--tty'' tty
     @ opt_flag ''--workdir'' workdir @ opt_flag ''--user'' user
     @ pair_flags ''--env'' (sorted_pairs env) @ [name] @ argv"

section \<open>Compose commands\<close>

definition label_compose_project :: string where
  "label_compose_project = ''com.docker.compose.project''"

definition label_compose_service :: string where
  "label_compose_service = ''com.docker.compose.service''"

text \<open>\<open>ProjectName\<close>; the argument is the value of \<open>COMPOSE_PROJECT_NAME\<close>.\<close>

definition project_name :: "string \<Rightarrow> spec \<Rightarrow> string" where
  "project_name env_name s = (if env_name \<noteq> [] then env_name else ''devc-'' @ s_id s)"

definition workspace_id_from_project :: "string \<Rightarrow> string option" where
  "workspace_id_from_project project =
     (case cut_prefix project ''devc-'' of (wid, ok) \<Rightarrow> if \<not> ok \<or> wid = [] then None else Some wid)"

definition compose_files :: "spec \<Rightarrow> string list" where
  "compose_files s = (case s_compose s of None \<Rightarrow> [] | Some c \<Rightarrow> c_files c)"

definition base_args :: "spec \<Rightarrow> string \<Rightarrow> string list" where
  "base_args s project = [''--project-name'', project] @ value_flags ''--file'' (compose_files s)"

definition compose_targets :: "string list \<Rightarrow> string list \<Rightarrow> string list" where
  "compose_targets explicit fallback = (if explicit \<noteq> [] then explicit else fallback)"

definition compose_covers :: "string list \<Rightarrow> string \<Rightarrow> bool" where
  "compose_covers targets service \<longleftrightarrow> targets = [] \<or> service \<in> set targets"

definition compose_up_args :: "spec \<Rightarrow> string \<Rightarrow> bool \<Rightarrow> bool \<Rightarrow> string list \<Rightarrow> string list" where
  "compose_up_args s project rebuild recreate services =
     base_args s project @ [''up'', ''--detach''] @ switch ''--build'' rebuild
     @ switch ''--force-recreate'' (recreate \<or> rebuild) @ services"

definition compose_down_args :: "spec \<Rightarrow> string \<Rightarrow> bool \<Rightarrow> string list" where
  "compose_down_args s project volumes = base_args s project @ [''down''] @ switch ''--volumes'' volumes"

definition compose_remove_args :: "spec \<Rightarrow> string \<Rightarrow> string list \<Rightarrow> string list" where
  "compose_remove_args s project services =
     base_args s project @ [''rm'', ''--force'', ''--stop''] @ services"

definition compose_stop_args :: "spec \<Rightarrow> string \<Rightarrow> string list \<Rightarrow> string list" where
  "compose_stop_args s project services = base_args s project @ [''stop''] @ services"

definition compose_restart_args :: "spec \<Rightarrow> string \<Rightarrow> string list \<Rightarrow> string list" where
  "compose_restart_args s project services = base_args s project @ [''restart''] @ services"

definition compose_logs_args :: "spec \<Rightarrow> string \<Rightarrow> bool \<Rightarrow> string list \<Rightarrow> string list" where
  "compose_logs_args s project follow services =
     base_args s project @ [''logs''] @ switch ''--follow'' follow @ services"

definition compose_config_args :: "spec \<Rightarrow> string \<Rightarrow> string list" where
  "compose_config_args s project = base_args s project @ [''config'', ''--services'']"

definition non_empty_lines :: "string \<Rightarrow> string list" where
  "non_empty_lines s = filter (\<lambda>t. t \<noteq> []) (map trim_space (split_on LF s))"

section \<open>Names and ids\<close>

lemma name_from_id_suffix:
  "length h = 8 \<Longrightarrow> list_all is_hex h \<Longrightarrow> name_from_id (n @ HYPHEN # h) = n"
  by (simp add: name_from_id_def has_hash_suffix_def nth_append)

text \<open>
  The identifiers devc derives lead back to the workspace. The display name is recovered from the
  id of any workspace, and the workspace id from its derived compose project name; the container
  name is the same text as that project name.
\<close>

lemma identifiers_invert:
  "name_from_id (workspace_id name folder) = slug name
   \<and> workspace_id_from_project (project_name [] (s\<lparr>s_id := workspace_id name folder\<rparr>)) =
       Some (workspace_id name folder)
   \<and> container_name s = project_name [] s"
proof -
  have "list_all is_hex (take 8 (sha256_hex folder))"
    by (auto simp: list_all_iff dest!: in_set_takeD intro: sha256_hex_is_hex)
  then have "name_from_id (workspace_id name folder) = slug name"
    using name_from_id_suffix [of "take 8 (sha256_hex folder)" "slug name"] by (simp add: workspace_id_def)
  moreover have "workspace_id name folder \<noteq> []" by (simp add: workspace_id_def)
  ultimately show ?thesis
    by (simp add: workspace_id_from_project_def cut_prefix_def project_name_def container_name_def)
qed

section \<open>Reading a command line back\<close>

text \<open>
  A command line is read as groups: a flag that takes a value with its value, and single words.
  \<open>group_values\<close> are the values a flag occurs with.
\<close>

definition group_values :: "string \<Rightarrow> string list list \<Rightarrow> string list" where
  "group_values flag gs = concat (map (\<lambda>g. if length g = 2 \<and> hd g = flag then tl g else []) gs)"

definition flag_groups :: "string \<Rightarrow> string list \<Rightarrow> string list list" where
  "flag_groups flag vs = map (\<lambda>v. [flag, v]) vs"

lemma group_values_append [simp]: "group_values f (gs @ hs) = group_values f gs @ group_values f hs"
  by (simp add: group_values_def)

lemma group_values_flag_groups [simp]:
  "group_values f (flag_groups g vs) = (if f = g then vs else [])"
  by (induction vs) (auto simp: group_values_def flag_groups_def)

lemma concat_flag_groups [simp]: "concat (flag_groups f vs) = value_flags f vs"
  by (simp add: flag_groups_def value_flags_def)

lemma pair_flags_value: "pair_flags f kvs = value_flags f (map (\<lambda>(k, v). k @ ''='' @ v) kvs)"
  by (induction kvs) (auto simp: pair_flags_def value_flags_def)

lemma opt_flag_value: "opt_flag f v = value_flags f (if v = [] then [] else [v])"
  by (simp add: opt_flag_def value_flags_def)

lemma two_value: "[f, v] = value_flags f [v]"
  by (simp add: value_flags_def)

definition run_groups :: "(spec \<Rightarrow> string) \<Rightarrow> spec \<Rightarrow> image_spec \<Rightarrow> create_options \<Rightarrow> string \<Rightarrow> string list list" where
  "run_groups json_spec s img opts platform =
     [[''--detach'']] @ flag_groups ''--name'' [container_name s]
     @ flag_groups ''--label'' (map (\<lambda>(k, v). k @ ''='' @ v) (labels json_spec s))
     @ flag_groups ''--platform'' (filter (\<lambda>v. v \<noteq> []) [platform])
     @ flag_groups ''--userns'' (filter (\<lambda>v. v \<noteq> []) [co_userns opts])
     @ flag_groups ''--mount'' (filter (\<lambda>v. v \<noteq> []) [i_workspace_mount img])
     @ flag_groups ''--volume'' (if i_workspace_mount img = [] then [default_volume s opts] else [])
     @ flag_groups ''--mount'' (i_mounts img)
     @ flag_groups ''--workdir'' [s_container_folder s]
     @ flag_groups ''--env'' (map (\<lambda>(k, v). k @ ''='' @ v) (sorted_pairs (i_container_env img)))
     @ flag_groups ''--user'' (filter (\<lambda>v. v \<noteq> []) [s_container_user s])
     @ map (\<lambda>f. [f]) (switch ''--init'' (i_init img) @ switch ''--privileged'' (i_privileged img))
     @ flag_groups ''--cap-add'' (i_cap_add img)
     @ flag_groups ''--security-opt'' (i_security_opt img)
     @ flag_groups ''--publish'' (map publish_spec (i_app_ports img))"

lemma label_args_labels:
  "label_args (labels js s) = value_flags ''--label'' (map (\<lambda>(k, v). k @ ''='' @ v) (labels js s))"
  by (simp add: label_args_def labels_def value_flags_def label_id_def label_name_def label_local_def
      label_config_def label_config_hash_def)

lemma run_args_groups:
  "s_image s = Some img \<Longrightarrow>
   run_args js s opts pl = Inr (''run'' # concat (run_groups js s img opts pl) @ i_run_args img
     @ (if s_override_command s then [''--entrypoint'', keep_alive_entrypoint] else [])
     @ [if s_kind s = KindBuild then build_image_tag s else i_image img]
     @ (if s_override_command s then keep_alive_args else []))"
  by (simp add: run_args_def run_groups_def label_args_labels workspace_mount_args_def
      pair_flags_value opt_flag_value two_value [of "''--workdir''"] two_value [of "''--name''"])
    (simp add: value_flags_def)

lemma group_values_single [simp]: "group_values f (map (\<lambda>x. [x]) xs) = []"
  by (induction xs) (auto simp: group_values_def)

lemma group_values_Cons_single [simp]: "group_values f ([x] # gs) = group_values f gs"
  by (simp add: group_values_def)


section \<open>A sample\<close>

definition demo_image :: image_spec where
  "demo_image = \<lparr>i_image = ''golang'', i_build = None, i_workspace_mount = [],
     i_mounts = [''type=volume,source=c,target=/c''], i_container_env = [(''B'', ''2''), (''A'', ''1'')],
     i_app_ports = [\<lparr>host_ip = [], host_port = 80, container_port = 80\<rparr>], i_run_args = [],
     i_init = True, i_privileged = False, i_cap_add = [], i_security_opt = []\<rparr>"

definition demo_hooks :: hooks where
  "demo_hooks = \<lparr>h_initialize = CommandNone, h_on_create = CommandShell ''make'',
     h_update_content = CommandNone, h_post_create = CommandArgv [''go'', ''mod'', ''download''],
     h_post_start = CommandShell ''date'', h_post_attach = CommandNone\<rparr>"

definition demo_spec :: spec where
  "demo_spec = \<lparr>s_id = ''app-0123abcd'', s_name = ''app'', s_kind = KindImage,
     s_config_path = ''/src/app/.devcontainer.json'', s_local_folder = ''/src/app'',
     s_container_folder = ''/workspaces/app'', s_image = Some demo_image, s_compose = None,
     s_container_user = ''dev'', s_remote_user = [], s_remote_env = [], s_ports = [],
     s_override_command = True, s_shutdown_action = ShutdownStopCtr, s_env_probe = EnvProbeNone,
     s_wait_for = HookUpdateContent,
     s_credentials = \<lparr>forward_agent = False, sync_git_config = False\<rparr>, s_hooks = demo_hooks\<rparr>"


section \<open>Argument lists do not depend on map order\<close>

lemma map_get_cong: "map_of m = map_of m' \<Longrightarrow> map_get m = map_get m'"
  by (simp add: map_get_def fun_eq_iff)

lemma sorted_pairs_cong: "map_of m = map_of m' \<Longrightarrow> sorted_pairs m = sorted_pairs m'"
  using sorted_keys_cong [of m m'] map_get_cong [of m m'] by (simp add: sorted_pairs_def)

text \<open>
  The generated command lines are reproducible: two environments with the same variables give the
  same \<open>run\<close> and the same \<open>exec\<close> command, whatever order their maps are iterated in (given a JSON
  encoder that is itself independent of that order).
\<close>

lemma args_reproducible:
  assumes "map_of env = map_of env'"
    and "json_spec (s\<lparr>s_image := Some (img\<lparr>i_container_env := env\<rparr>), s_id := [], s_config_path := [], s_local_folder := []\<rparr>) =
      json_spec (s\<lparr>s_image := Some (img\<lparr>i_container_env := env'\<rparr>), s_id := [], s_config_path := [], s_local_folder := []\<rparr>)"
  shows "run_args json_spec (s\<lparr>s_image := Some (img\<lparr>i_container_env := env\<rparr>)\<rparr>) opts pl =
      run_args json_spec (s\<lparr>s_image := Some (img\<lparr>i_container_env := env'\<rparr>)\<rparr>) opts pl
    \<and> exec_args n u d env i t argv = exec_args n u d env' i t argv"
  using assms(2) sorted_pairs_cong [OF assms(1)]
  by (simp add: run_args_def exec_args_def labels_def label_args_def config_hash_def container_name_def
      build_image_tag_def workspace_mount_args_def default_volume_def)

lemma args_reproducible_witness:
  "exec_args ''c'' ''root'' [] [(''B'', ''2''), (''A'', ''1'')] False False [''env''] =
     exec_args ''c'' ''root'' [] [(''A'', ''1''), (''B'', ''2'')] False False [''env'']"
proof -
  have "map_of [(''B'', ''2''), (''A'', ''1'')] = map_of [(''A'', ''1''), (''B'', ''2'')]"
    by (auto simp: fun_eq_iff)
  from args_reproducible [OF this, of "\<lambda>_. []" demo_image demo_spec] show ?thesis by simp
qed

end
