(* ===== verification/ConfigPrint.thy ===== *)
theory ConfigPrint
  imports ConfigDecode ContainerArgs
begin

text \<open>
  What \<open>devc config --raw\<close> prints: \<open>encoding/json\<close> on a \<open>Raw\<close> (\<open>config/raw.go\<close>), which writes every field under the name
  of its tag, in the order of declaration, and \<open>Extra\<close> not at all. A nil pointer, slice or map is \<open>null\<close>, as is an
  absent \<open>json.RawMessage\<close>; one that is present is written compacted (\<open>compact\<close>). A map is written in key order.
  \<open>enc\<close> is the text of a value, \<open>dec\<close> the value of a text.
\<close>

section \<open>Printing\<close>

definition json_list :: "string list \<Rightarrow> json" where
  "json_list xs = (if xs = [] then JNull else JArr (map JStr xs))"

definition json_map :: "string gomap \<Rightarrow> json" where
  "json_map m = (if m = [] then JNull else JObj (map (\<lambda>(k, v). (k, JStr v)) (sorted_pairs m)))"

fun json_opt_bool :: "bool option \<Rightarrow> json" where
  "json_opt_bool None = JNull"
| "json_opt_bool (Some b) = JBool b"

definition build_json :: "raw_build \<Rightarrow> json" where
  "build_json b = JObj
     [(''dockerfile'', JStr (rb_dockerfile b)), (''context'', JStr (rb_context b)), (''args'', json_map (rb_args b)),
      (''target'', JStr (rb_target b)), (''cacheFrom'', json_list (rb_cache_from b)), (''options'', json_list (rb_options b))]"

definition credentials_json :: "raw_credentials \<Rightarrow> json" where
  "credentials_json c = JObj
     [(''forwardAgent'', json_opt_bool (rc_forward_agent c)), (''syncGitConfig'', json_opt_bool (rc_sync_git_config c))]"

definition json_ptr :: "('a \<Rightarrow> json) \<Rightarrow> 'a option \<Rightarrow> json" where
  "json_ptr f p = (case p of None \<Rightarrow> JNull | Some x \<Rightarrow> f x)"

definition devc_json :: "raw_devc \<Rightarrow> json" where
  "devc_json d = JObj [(''credentials'', json_ptr credentials_json (rd_credentials d))]"

definition customizations_json :: "raw_customizations \<Rightarrow> json" where
  "customizations_json c = JObj [(''devc'', json_ptr devc_json (rcu_devc c))]"

text \<open>The fields that hold values, those that hold texts, and the document.\<close>

definition raw_values :: "raw \<Rightarrow> (string \<times> json) list" where
  "raw_values r =
     [(''name'', JStr (r_name r)), (''image'', JStr (r_image r)), (''build'', json_ptr build_json (r_build r)),
      (''dockerComposeFile'', json_list (r_docker_compose_file r)), (''service'', JStr (r_service r)),
      (''runServices'', json_list (r_run_services r)), (''workspaceFolder'', JStr (r_workspace_folder r)),
      (''workspaceMount'', JStr (r_workspace_mount r)), (''mounts'', json_list (r_mounts r)),
      (''containerEnv'', json_map (r_container_env r)), (''remoteEnv'', json_map (r_remote_env r)),
      (''containerUser'', JStr (r_container_user r)), (''remoteUser'', JStr (r_remote_user r)),
      (''forwardPorts'', json_list (r_forward_ports r)), (''appPort'', json_list (r_app_port r)),
      (''runArgs'', json_list (r_run_args r)), (''init'', json_opt_bool (r_init r)),
      (''privileged'', json_opt_bool (r_privileged r)), (''capAdd'', json_list (r_cap_add r)),
      (''securityOpt'', json_list (r_security_opt r)), (''overrideCommand'', json_opt_bool (r_override_command r)),
      (''shutdownAction'', JStr (r_shutdown_action r)), (''userEnvProbe'', JStr (r_user_env_probe r)),
      (''waitFor'', JStr (r_wait_for r)), (''initializeCommand'', command_json (r_initialize_command r)),
      (''onCreateCommand'', command_json (r_on_create_command r)),
      (''updateContentCommand'', command_json (r_update_content_command r)),
      (''postCreateCommand'', command_json (r_post_create_command r)),
      (''postStartCommand'', command_json (r_post_start_command r)),
      (''postAttachCommand'', command_json (r_post_attach_command r)),
      (''customizations'', customizations_json (r_customizations r))]"

definition raw_text :: "(string \<Rightarrow> string) \<Rightarrow> string \<Rightarrow> string" where
  "raw_text compact t = (if t = [] then ''null'' else compact t)"

definition raw_doc :: "(json \<Rightarrow> string) \<Rightarrow> (string \<Rightarrow> json) \<Rightarrow> (string \<Rightarrow> string) \<Rightarrow> raw \<Rightarrow> doc_member list" where
  "raw_doc enc dec compact r =
     map (\<lambda>(k, v). (k, enc v, v)) (raw_values r)
     @ map (\<lambda>(k, t). (k, raw_text compact t, dec (raw_text compact t)))
         [(''features'', r_features r), (''hostRequirements'', r_host_requirements r)]
     @ [(''updateRemoteUserUID'', enc (json_opt_bool (r_update_remote_user_uid r)), json_opt_bool (r_update_remote_user_uid r))]"

section \<open>Reading back\<close>

text \<open>A map read back is the same map; its list is the one the decoder builds from the sorted keys.\<close>

definition reread_map :: "string gomap \<Rightarrow> string gomap" where
  "reread_map m = rev (sorted_pairs m)"

definition reread_build :: "raw_build \<Rightarrow> raw_build" where
  "reread_build b = b\<lparr>rb_args := reread_map (rb_args b)\<rparr>"

definition reread :: "(string \<Rightarrow> string) \<Rightarrow> raw \<Rightarrow> raw" where
  "reread compact r = r\<lparr>r_build := map_option reread_build (r_build r), r_container_env := reread_map (r_container_env r),
     r_remote_env := reread_map (r_remote_env r), r_features := raw_text compact (r_features r),
     r_host_requirements := raw_text compact (r_host_requirements r), r_extra := []\<rparr>"

definition commands_wf :: "raw \<Rightarrow> bool" where
  "commands_wf r \<longleftrightarrow> list_all wf_command [r_initialize_command r, r_on_create_command r, r_update_content_command r,
     r_post_create_command r, r_post_start_command r, r_post_attach_command r]"

declare fold_name.simps [simp del]

lemma folded_names [simp]:
  "fold_name ''dockerfile'' = ''dockerfile''"
  "fold_name ''context'' = ''context''"
  "fold_name ''args'' = ''args''"
  "fold_name ''target'' = ''target''"
  "fold_name ''cacheFrom'' = ''cachefrom''"
  "fold_name ''options'' = ''options''"
  "fold_name ''forwardAgent'' = ''forwardagent''"
  "fold_name ''syncGitConfig'' = ''syncgitconfig''"
  "fold_name ''credentials'' = ''credentials''"
  "fold_name ''devc'' = ''devc''"
  "fold_name ''name'' = ''name''"
  "fold_name ''image'' = ''image''"
  "fold_name ''build'' = ''build''"
  "fold_name ''dockerComposeFile'' = ''dockercomposefile''"
  "fold_name ''service'' = ''service''"
  "fold_name ''runServices'' = ''runservices''"
  "fold_name ''workspaceFolder'' = ''workspacefolder''"
  "fold_name ''workspaceMount'' = ''workspacemount''"
  "fold_name ''mounts'' = ''mounts''"
  "fold_name ''containerEnv'' = ''containerenv''"
  "fold_name ''remoteEnv'' = ''remoteenv''"
  "fold_name ''containerUser'' = ''containeruser''"
  "fold_name ''remoteUser'' = ''remoteuser''"
  "fold_name ''forwardPorts'' = ''forwardports''"
  "fold_name ''appPort'' = ''appport''"
  "fold_name ''runArgs'' = ''runargs''"
  "fold_name ''init'' = ''init''"
  "fold_name ''privileged'' = ''privileged''"
  "fold_name ''capAdd'' = ''capadd''"
  "fold_name ''securityOpt'' = ''securityopt''"
  "fold_name ''overrideCommand'' = ''overridecommand''"
  "fold_name ''shutdownAction'' = ''shutdownaction''"
  "fold_name ''userEnvProbe'' = ''userenvprobe''"
  "fold_name ''waitFor'' = ''waitfor''"
  "fold_name ''initializeCommand'' = ''initializecommand''"
  "fold_name ''onCreateCommand'' = ''oncreatecommand''"
  "fold_name ''updateContentCommand'' = ''updatecontentcommand''"
  "fold_name ''postCreateCommand'' = ''postcreatecommand''"
  "fold_name ''postStartCommand'' = ''poststartcommand''"
  "fold_name ''postAttachCommand'' = ''postattachcommand''"
  "fold_name ''features'' = ''features''"
  "fold_name ''hostRequirements'' = ''hostrequirements''"
  "fold_name ''updateRemoteUserUID'' = ''updateremoteuseruid''"
  "fold_name ''customizations'' = ''customizations''"
  by code_simp+

lemma json_list_reads [simp]: "json_strings (json_list xs) = Inr xs" "into_strings [] (json_list xs) = Inr xs"
  by (simp_all add: json_list_def json_strings_JStr del: json_strings.simps) (simp_all add: json_strings_JStr)

lemma json_lists_read [simp]: "decode_port_list [] (json_list xs) = Inr xs" "decode_mount_list [] (json_list xs) = Inr xs"
proof -
  have "res_traverse decode_port (map JStr ys) = Inr ys" "res_traverse decode_mount (map JStr ys) = Inr ys" for ys
    by (induction ys) auto
  then show "decode_port_list [] (json_list xs) = Inr xs" "decode_mount_list [] (json_list xs) = Inr xs"
    by (simp_all add: json_list_def)
qed

lemma json_bool_reads [simp]: "json_bool (json_opt_bool x) = Inr x"
  by (cases x) simp_all

lemma sorted_keys_Nil [simp]: "sorted_keys [] = []"
  by (simp add: sorted_keys_def map_keys_def)

lemma json_ptr_simps [simp]: "json_ptr f None = JNull" "json_ptr f (Some x) = f x"
  by (simp_all add: json_ptr_def)

lemma json_map_reads: "into_map [] (json_map m) = Inr (reread_map m)"
proof -
  have put: "res_foldl map_member a (map (\<lambda>(k, v). (k, JStr v)) ps) = Inr (rev ps @ a)"
    if "distinct (map fst ps)" "fst ` set ps \<inter> fst ` set a = {}" for ps a
    using that
  proof (induction ps arbitrary: a)
    case (Cons p ps)
    obtain k v where p: "p = (k, v)" by (cases p)
    have "map_put k v a = (k, v) # a" using Cons.prems p by (intro map_put_fresh) auto
    moreover have "fst ` set ps \<inter> fst ` set ((k, v) # a) = {}" using Cons.prems p by (auto simp: image_iff)
    ultimately show ?case using Cons p by (simp add: map_member_def)
  qed simp
  have "distinct (map fst (sorted_pairs m))" by (simp add: sorted_pairs_def comp_def)
  then show ?thesis using put [of "sorted_pairs m" "[]"]
    by (cases "m = []") (simp_all add: json_map_def reread_map_def sorted_pairs_def)
qed

lemma reread_map: "map_of (reread_map m) = map_of m"
proof -
  have d: "distinct (map fst (sorted_pairs m))" by (simp add: sorted_pairs_def comp_def)
  then have "map_of (reread_map m) = map_of (sorted_pairs m)"
    unfolding reread_map_def by (subst map_of_inject_set) (simp_all flip: rev_map)
  also have "\<dots> = map_of m"
  proof
    fix k
    have "map_of (map (\<lambda>k. (k, f k)) ks) k = (if k \<in> set ks then Some (f k) else None)" for f :: "string \<Rightarrow> string" and ks
      by (induction ks) auto
    then show "map_of (sorted_pairs m) k = map_of m k"
      by (auto simp: sorted_pairs_def map_get_def split: option.split)
  qed
  finally show ?thesis .
qed

lemma build_reads: "into_ptr empty_build build_member None (json_ptr build_json p) = Inr (map_option reread_build p)"
  by (cases p) (simp_all add: build_json_def build_member_def Let_def empty_build_def json_map_reads reread_build_def)

lemma customizations_read: "into_struct customizations_member \<lparr>rcu_devc = None\<rparr> (customizations_json c) = Inr c"
proof -
  have cred: "into_ptr \<lparr>rc_forward_agent = None, rc_sync_git_config = None\<rparr> credentials_member None (json_ptr credentials_json p) = Inr p" for p
    by (cases p) (simp_all add: credentials_json_def credentials_member_def Let_def)
  have "into_ptr \<lparr>rd_credentials = None\<rparr> devc_member None (json_ptr devc_json p) = Inr p" for p
    by (cases p) (simp_all add: devc_json_def devc_member_def cred)
  then show ?thesis by (simp add: customizations_json_def customizations_member_def)
qed

section \<open>The round trip\<close>

lemma read_fields:
  "raw_member r (''name'', t, v) = res_map (\<lambda>x. r\<lparr>r_name := x\<rparr>) (into_string (r_name r) v)"
  "raw_member r (''image'', t, v) = res_map (\<lambda>x. r\<lparr>r_image := x\<rparr>) (into_string (r_image r) v)"
  "raw_member r (''build'', t, v) = res_map (\<lambda>x. r\<lparr>r_build := x\<rparr>) (into_ptr empty_build build_member (r_build r) v)"
  "raw_member r (''dockerComposeFile'', t, v) = res_map (\<lambda>x. r\<lparr>r_docker_compose_file := x\<rparr>) (into_strings (r_docker_compose_file r) v)"
  "raw_member r (''service'', t, v) = res_map (\<lambda>x. r\<lparr>r_service := x\<rparr>) (into_string (r_service r) v)"
  "raw_member r (''runServices'', t, v) = res_map (\<lambda>x. r\<lparr>r_run_services := x\<rparr>) (json_strings v)"
  "raw_member r (''workspaceFolder'', t, v) = res_map (\<lambda>x. r\<lparr>r_workspace_folder := x\<rparr>) (into_string (r_workspace_folder r) v)"
  "raw_member r (''workspaceMount'', t, v) = res_map (\<lambda>x. r\<lparr>r_workspace_mount := x\<rparr>) (into_string (r_workspace_mount r) v)"
  "raw_member r (''mounts'', t, v) = res_map (\<lambda>x. r\<lparr>r_mounts := x\<rparr>) (decode_mount_list (r_mounts r) v)"
  "raw_member r (''containerEnv'', t, v) = res_map (\<lambda>x. r\<lparr>r_container_env := x\<rparr>) (into_map (r_container_env r) v)"
  "raw_member r (''remoteEnv'', t, v) = res_map (\<lambda>x. r\<lparr>r_remote_env := x\<rparr>) (into_map (r_remote_env r) v)"
  "raw_member r (''containerUser'', t, v) = res_map (\<lambda>x. r\<lparr>r_container_user := x\<rparr>) (into_string (r_container_user r) v)"
  "raw_member r (''remoteUser'', t, v) = res_map (\<lambda>x. r\<lparr>r_remote_user := x\<rparr>) (into_string (r_remote_user r) v)"
  "raw_member r (''forwardPorts'', t, v) = res_map (\<lambda>x. r\<lparr>r_forward_ports := x\<rparr>) (decode_port_list (r_forward_ports r) v)"
  "raw_member r (''appPort'', t, v) = res_map (\<lambda>x. r\<lparr>r_app_port := x\<rparr>) (decode_port_list (r_app_port r) v)"
  "raw_member r (''runArgs'', t, v) = res_map (\<lambda>x. r\<lparr>r_run_args := x\<rparr>) (json_strings v)"
  "raw_member r (''init'', t, v) = res_map (\<lambda>x. r\<lparr>r_init := x\<rparr>) (json_bool v)"
  "raw_member r (''privileged'', t, v) = res_map (\<lambda>x. r\<lparr>r_privileged := x\<rparr>) (json_bool v)"
  "raw_member r (''capAdd'', t, v) = res_map (\<lambda>x. r\<lparr>r_cap_add := x\<rparr>) (json_strings v)"
  "raw_member r (''securityOpt'', t, v) = res_map (\<lambda>x. r\<lparr>r_security_opt := x\<rparr>) (json_strings v)"
  "raw_member r (''overrideCommand'', t, v) = res_map (\<lambda>x. r\<lparr>r_override_command := x\<rparr>) (json_bool v)"
  "raw_member r (''shutdownAction'', t, v) = res_map (\<lambda>x. r\<lparr>r_shutdown_action := x\<rparr>) (into_string (r_shutdown_action r) v)"
  "raw_member r (''userEnvProbe'', t, v) = res_map (\<lambda>x. r\<lparr>r_user_env_probe := x\<rparr>) (into_string (r_user_env_probe r) v)"
  "raw_member r (''waitFor'', t, v) = res_map (\<lambda>x. r\<lparr>r_wait_for := x\<rparr>) (into_string (r_wait_for r) v)"
  "raw_member r (''initializeCommand'', t, v) = res_map (\<lambda>x. r\<lparr>r_initialize_command := x\<rparr>) (decode_command v)"
  "raw_member r (''onCreateCommand'', t, v) = res_map (\<lambda>x. r\<lparr>r_on_create_command := x\<rparr>) (decode_command v)"
  "raw_member r (''updateContentCommand'', t, v) = res_map (\<lambda>x. r\<lparr>r_update_content_command := x\<rparr>) (decode_command v)"
  "raw_member r (''postCreateCommand'', t, v) = res_map (\<lambda>x. r\<lparr>r_post_create_command := x\<rparr>) (decode_command v)"
  "raw_member r (''postStartCommand'', t, v) = res_map (\<lambda>x. r\<lparr>r_post_start_command := x\<rparr>) (decode_command v)"
  "raw_member r (''postAttachCommand'', t, v) = res_map (\<lambda>x. r\<lparr>r_post_attach_command := x\<rparr>) (decode_command v)"
  "raw_member r (''customizations'', t, v) = res_map (\<lambda>x. r\<lparr>r_customizations := x\<rparr>) (into_struct customizations_member (r_customizations r) v)"
  "raw_member r (''features'', t, v) = Inr (r\<lparr>r_features := t\<rparr>)"
  "raw_member r (''hostRequirements'', t, v) = Inr (r\<lparr>r_host_requirements := t\<rparr>)"
  "raw_member r (''updateRemoteUserUID'', t, v) = res_map (\<lambda>x. r\<lparr>r_update_remote_user_uid := x\<rparr>) (json_bool v)"
  by (simp_all add: raw_member_def Let_def)

lemma res_foldl_step: "f s x = Inr s' \<Longrightarrow> res_foldl f s' xs = res \<Longrightarrow> res_foldl f s (x # xs) = res"
  by simp

text \<open>
  C17: \<open>devc config --raw\<close> prints a configuration. The document it prints decodes, without an error, to the document that was
  printed: every documented property comes back under its own name with its own value, the lists in
  their order and the maps with the same entries; what is absent stays absent (the texts of the
  unsupported properties become \<open>null\<close>, which counts as absent), and only the unknown keys are lost.
\<close>

theorem raw_roundtrip:
  assumes "commands_wf r"
  shows "decode_raw (raw_doc enc dec compact r) = Inr (reread compact r)
    \<and> map_of (r_container_env (reread compact r)) = map_of (r_container_env r)
    \<and> map_of (r_remote_env (reread compact r)) = map_of (r_remote_env r)"
proof -
  have cmds: "decode_command (command_json c) = Inr c" if "c \<in> {r_initialize_command r, r_on_create_command r,
      r_update_content_command r, r_post_create_command r, r_post_start_command r, r_post_attach_command r}" for c
    using assms that by (intro decode_command_json) (auto simp: commands_wf_def)
  have "extra_keys (raw_doc enc dec compact r) = []"
  proof -
    have "fst ` set (raw_doc enc dec compact r) \<subseteq> set known_keys"
      by (simp add: raw_doc_def raw_values_def known_keys_def)
    moreover have "fst kv \<in> fst ` set ms" if "kv \<in> set (obj_map (map (\<lambda>(k, t, v). (k, t)) ms))" for kv and ms :: "doc_member list"
    proof -
      have "kv \<in> set (map (\<lambda>(k, t, v). (k, t)) ms)" using that set_obj_map by blast
      then show ?thesis by (auto intro: rev_image_eqI)
    qed
    ultimately show ?thesis unfolding extra_keys_def filter_empty_conv by blast
  qed
  moreover have "res_foldl raw_member empty_raw (raw_doc enc dec compact r) = Inr (reread compact r)"
    unfolding raw_doc_def raw_values_def list.map append.simps prod.case
    by ((rule res_foldl_step, simp add: read_fields cmds empty_raw_def json_map_reads build_reads customizations_read)+)
      (cases r, simp add: reread_def)
  ultimately show ?thesis by (simp add: decode_raw_def reread_def reread_map)
qed

lemma raw_roundtrip_witness:
  "decode_raw (raw_doc (\<lambda>_. []) (\<lambda>_. JNull) (\<lambda>t. t) (empty_raw\<lparr>r_name := ''app'', r_on_create_command := CommandShell ''make'',
       r_extra := [(''x'', ''1'')]\<rparr>))
     = Inr (empty_raw\<lparr>r_name := ''app'', r_on_create_command := CommandShell ''make'', r_features := ''null'',
         r_host_requirements := ''null''\<rparr>)"
proof -
  let ?r = "empty_raw\<lparr>r_name := ''app'', r_on_create_command := CommandShell ''make'', r_extra := [(''x'', ''1'')]\<rparr>"
  have "commands_wf ?r" by (simp add: commands_wf_def empty_raw_def)
  from raw_roundtrip [OF this, of "\<lambda>_. []" "\<lambda>_. JNull" "\<lambda>t. t"] show ?thesis
    by (simp add: reread_def empty_raw_def raw_text_def reread_map_def sorted_pairs_def)
qed

end
