(* ===== verification/Jsonc.thy ===== *)
theory Jsonc
  imports GoStrings
begin

text \<open>
  Package \<open>jsonc\<close> (\<open>jsonc/strip.go\<close>): comments and trailing commas are replaced by spaces, in
  place. \<open>strip\<close> is the loop of \<open>Strip\<close> over the index \<open>i\<close>, with the buffer \<open>out\<close> and the
  tracking variables of the code in the record \<open>scan\<close>. The specification below it is a grammar of
  JSONC tokens: \<open>strip\<close> succeeds exactly on the texts of well-formed token sequences, and returns
  the text in which each comment and each comma before a closing bracket is blanked.
\<close>

section \<open>The code\<close>

datatype lex_state = Normal | InString | InLineComment | InBlockComment

datatype jsonc_error = UnterminatedString | UnterminatedComment

record scan =
  buf :: string
  lstate :: lex_state
  last_sig :: int
  last_sig_byte :: char
  pending_comma :: int

definition blank :: "nat \<Rightarrow> scan \<Rightarrow> scan" where
  "blank i s = s\<lparr>buf := (buf s)[i := CHR '' '']\<rparr>"

definition significant :: "nat \<Rightarrow> char \<Rightarrow> scan \<Rightarrow> scan" where
  "significant i c s = s\<lparr>last_sig := int i, last_sig_byte := c\<rparr>"

definition next_is :: "string \<Rightarrow> nat \<Rightarrow> char \<Rightarrow> bool" where
  "next_is src i c \<longleftrightarrow> i + 1 < length src \<and> src ! (i + 1) = c"

text \<open>One iteration of the loop at index \<open>i\<close>: the next index and the new variables.\<close>

definition strip_step :: "string \<Rightarrow> nat \<Rightarrow> scan \<Rightarrow> nat \<times> scan" where
  "strip_step src i s =
     (let c = src ! i in
      case lstate s of
        InString \<Rightarrow>
          (if c = BSL then (i + 2, s)
           else if c = DQ then (i + 1, significant i c (s\<lparr>lstate := Normal\<rparr>))
           else (i + 1, s))
      | InLineComment \<Rightarrow>
          (if c = LF then (i + 1, s\<lparr>lstate := Normal\<rparr>) else (i + 1, blank i s))
      | InBlockComment \<Rightarrow>
          (if c = CHR ''*'' \<and> next_is src i (CHR ''/'')
           then (i + 2, (blank (i + 1) (blank i s))\<lparr>lstate := Normal\<rparr>)
           else (i + 1, blank i s))
      | Normal \<Rightarrow>
          (if c = CHR ''/'' \<and> next_is src i (CHR ''/'')
           then (i + 2, (blank (i + 1) (blank i s))\<lparr>lstate := InLineComment\<rparr>)
           else if c = CHR ''/'' \<and> next_is src i (CHR ''*'')
           then (i + 2, (blank (i + 1) (blank i s))\<lparr>lstate := InBlockComment\<rparr>)
           else if c = DQ
           then (i + 1, significant i c (s\<lparr>lstate := InString, pending_comma := -1\<rparr>))
           else if c = CHR '','' then (i + 1, significant i c (s\<lparr>pending_comma := int i\<rparr>))
           else if c = CHR ''}'' \<or> c = CHR '']''
           then (i + 1, significant i c
                  ((if 0 \<le> pending_comma s \<and> last_sig_byte s = CHR '','' \<and> last_sig s = pending_comma s
                    then blank (nat (pending_comma s)) s else s)\<lparr>pending_comma := -1\<rparr>))
           else if c = CHR '' '' \<or> c = TAB \<or> c = CR \<or> c = LF then (i + 1, s)
           else (i + 1, significant i c (s\<lparr>pending_comma := -1\<rparr>))))"

lemma strip_step_advances: "i < fst (strip_step src i s)"
  by (simp add: strip_step_def Let_def split: lex_state.splits)

function strip_loop :: "string \<Rightarrow> nat \<Rightarrow> scan \<Rightarrow> scan" where
  "strip_loop src i s =
     (if i < length src
      then strip_loop src (fst (strip_step src i s)) (snd (strip_step src i s))
      else s)"
  by pat_completeness auto
termination
  by (relation "measure (\<lambda>(src, i, s). length src - i)")
     (auto simp: split_beta intro!: diff_less_mono2 strip_step_advances)

declare strip_loop.simps [simp del]

definition init_scan :: "string \<Rightarrow> scan" where
  "init_scan src =
     \<lparr>buf = src, lstate = Normal, last_sig = -1, last_sig_byte = CHR 0x00, pending_comma = -1\<rparr>"

definition strip :: "string \<Rightarrow> jsonc_error + string" where
  "strip src =
     (let s = strip_loop src 0 (init_scan src) in
      case lstate s of
        InString \<Rightarrow> Inl UnterminatedString
      | InBlockComment \<Rightarrow> Inl UnterminatedComment
      | _ \<Rightarrow> Inr (buf s))"

section \<open>The grammar of JSONC tokens\<close>

text \<open>
  A string literal is a list of elements, each one byte or a backslash and the byte it escapes;
  \<open>LineComment b\<close> is \<open>//b\<close>, \<open>BlockComment b\<close> is \<open>/*b*/\<close>; \<open>Comma\<close> is a comma outside a string and
  \<open>Other c\<close> any other byte outside a string. \<open>OpenStr\<close> and \<open>OpenComment\<close> are the two ways a text can
  end inside a token: a string without its closing quote (possibly cut after a backslash) and a
  block comment without \<open>*/\<close>.
\<close>

datatype str_elem = Plain char | Escaped char

datatype token = StrLit "str_elem list" | LineComment string | BlockComment string | Comma | Other char
  | OpenStr "str_elem list" bool | OpenComment string

fun elem_text :: "str_elem \<Rightarrow> string" where
  "elem_text (Plain c) = [c]"
| "elem_text (Escaped c) = [BSL, c]"

fun token_text :: "token \<Rightarrow> string" where
  "token_text (StrLit es) = DQ # concat (map elem_text es) @ [DQ]"
| "token_text (LineComment b) = ''//'' @ b"
| "token_text (BlockComment b) = ''/*'' @ b @ ''*/''"
| "token_text Comma = '',''"
| "token_text (Other c) = [c]"
| "token_text (OpenStr es esc) = DQ # concat (map elem_text es) @ (if esc then [BSL] else [])"
| "token_text (OpenComment b) = ''/*'' @ b"

definition doc_text :: "token list \<Rightarrow> string" where
  "doc_text ts = concat (map token_text ts)"

definition is_space_byte :: "char \<Rightarrow> bool" where
  "is_space_byte c \<longleftrightarrow> c = CHR '' '' \<or> c = TAB \<or> c = CR \<or> c = LF"

definition is_closing :: "char \<Rightarrow> bool" where
  "is_closing c \<longleftrightarrow> c = CHR ''}'' \<or> c = CHR '']''"

text \<open>Only white space and comments stand between here and a closing bracket.\<close>

fun closes :: "token list \<Rightarrow> bool" where
  "closes (LineComment b # ts) = closes ts"
| "closes (BlockComment b # ts) = closes ts"
| "closes (Other c # ts) = (if is_space_byte c then closes ts else is_closing c)"
| "closes _ = False"

fun elem_ok :: "str_elem \<Rightarrow> bool" where
  "elem_ok (Plain c) = (c \<noteq> DQ \<and> c \<noteq> BSL)"
| "elem_ok (Escaped c) = True"

fun starts_with :: "char \<Rightarrow> string \<Rightarrow> bool" where
  "starts_with c [] = False"
| "starts_with c (x # xs) = (x = c)"

fun doc_ok :: "token list \<Rightarrow> bool" where
  "doc_ok [] = True"
| "doc_ok (StrLit es # ts) = (list_all elem_ok es \<and> doc_ok ts)"
| "doc_ok (LineComment b # ts) =
     (LF \<notin> set b \<and> (ts = [] \<or> starts_with LF (doc_text ts)) \<and> doc_ok ts)"
| "doc_ok (BlockComment b # ts) = (\<not> contains (b @ ''*'') ''*/'' \<and> doc_ok ts)"
| "doc_ok (Comma # ts) = doc_ok ts"
| "doc_ok (Other c # ts) =
     (c \<noteq> DQ \<and> c \<noteq> CHR '','' \<and>
      (c = CHR ''/'' \<longrightarrow> \<not> starts_with (CHR ''/'') (doc_text ts) \<and> \<not> starts_with (CHR ''*'') (doc_text ts))
      \<and> doc_ok ts)"
| "doc_ok (OpenStr es esc # ts) = (list_all elem_ok es \<and> ts = [])"
| "doc_ok (OpenComment b # ts) = (\<not> contains b ''*/'' \<and> ts = [])"

text \<open>How a document ends: \<open>None\<close> when every string and block comment is closed.\<close>

fun unclosed :: "token list \<Rightarrow> jsonc_error option" where
  "unclosed [] = None"
| "unclosed (OpenStr es esc # ts) = Some UnterminatedString"
| "unclosed (OpenComment b # ts) = Some UnterminatedComment"
| "unclosed (t # ts) = unclosed ts"

definition spaces :: "nat \<Rightarrow> string" where
  "spaces n = replicate n (CHR '' '')"

fun blanked :: "token list \<Rightarrow> string" where
  "blanked [] = []"
| "blanked (LineComment b # ts) = spaces (length b + 2) @ blanked ts"
| "blanked (BlockComment b # ts) = spaces (length b + 4) @ blanked ts"
| "blanked (Comma # ts) = (if closes ts then CHR '' '' else CHR '','') # blanked ts"
| "blanked (t # ts) = token_text t @ blanked ts"

section \<open>The loop over one token\<close>

lemma strip_loop_step:
  "i < length src \<Longrightarrow> strip_step src i s = (i', s') \<Longrightarrow> strip_loop src i s = strip_loop src i' s'"
  by (subst strip_loop.simps) simp

lemma strip_loop_end: "length src \<le> i \<Longrightarrow> strip_loop src i s = s"
  by (subst strip_loop.simps) simp

lemma next_is_append [simp]: "next_is (pre @ c # rest) (length pre) d = starts_with d rest"
  by (cases rest) (auto simp: next_is_def nth_append)

lemma starts_with_append: "starts_with c (xs @ ys) = (if xs = [] then starts_with c ys else starts_with c xs)"
  by (cases xs) auto

lemma blank_append:
  "buf s = b @ c # r \<Longrightarrow> length b = i \<Longrightarrow> blank i s = s\<lparr>buf := b @ CHR '' '' # r\<rparr>"
  by (simp add: blank_def list_update_append)

lemma spaces_Suc [simp]: "spaces (Suc n) = CHR '' '' # spaces n"
  by (simp add: spaces_def)

lemma spaces_0 [simp]: "spaces 0 = []"
  by (simp add: spaces_def)

lemma length_spaces [simp]: "length (spaces n) = n"
  by (simp add: spaces_def)

lemma string_loop:
  assumes "list_all elem_ok es" and "lstate s = InString"
    and "src = pre @ concat (map elem_text es) @ DQ # rest"
  shows "strip_loop src (length pre) s =
     strip_loop src (length pre + length (concat (map elem_text es)) + 1)
       (significant (length pre + length (concat (map elem_text es))) DQ (s\<lparr>lstate := Normal\<rparr>))"
  using assms
proof (induction es arbitrary: pre)
  case Nil
  then show ?case
    by (intro strip_loop_step) (auto simp: strip_step_def)
next
  case (Cons e es)
  show ?case
  proof (cases e)
    case (Plain c)
    have "strip_loop src (length pre) s = strip_loop src (length (pre @ [c])) s"
      using Cons.prems Plain by (intro strip_loop_step) (auto simp: strip_step_def)
    also have "\<dots> = strip_loop src (length (pre @ [c]) + length (concat (map elem_text es)) + 1)
       (significant (length (pre @ [c]) + length (concat (map elem_text es))) DQ (s\<lparr>lstate := Normal\<rparr>))"
      using Cons.prems Plain by (intro Cons.IH) auto
    finally show ?thesis using Plain by simp
  next
    case (Escaped c)
    have "strip_loop src (length pre) s = strip_loop src (length (pre @ [BSL, c])) s"
      using Cons.prems Escaped by (intro strip_loop_step) (auto simp: strip_step_def)
    also have "\<dots> = strip_loop src (length (pre @ [BSL, c]) + length (concat (map elem_text es)) + 1)
       (significant (length (pre @ [BSL, c]) + length (concat (map elem_text es))) DQ (s\<lparr>lstate := Normal\<rparr>))"
      using Cons.prems Escaped by (intro Cons.IH) auto
    finally show ?thesis using Escaped by simp
  qed
qed

lemma line_loop:
  assumes "LF \<notin> set body" and "lstate s = InLineComment" and "src = pre @ body @ rest"
    and "buf s = b @ body @ rest'" and "length b = length pre"
  shows "strip_loop src (length pre) s =
     strip_loop src (length pre + length body) (s\<lparr>buf := b @ spaces (length body) @ rest'\<rparr>)"
  using assms
proof (induction body arbitrary: pre b s)
  case Nil
  then have eq: "s\<lparr>buf := b @ spaces (length []) @ rest'\<rparr> = s" by (cases s) auto
  show ?case unfolding eq by simp
next
  case (Cons c body)
  let ?s = "s\<lparr>buf := b @ CHR '' '' # body @ rest'\<rparr>"
  have "blank (length pre) s = ?s"
    using Cons.prems by (intro blank_append) auto
  then have "strip_loop src (length pre) s = strip_loop src (length (pre @ [c])) ?s"
    using Cons.prems by (intro strip_loop_step) (auto simp: strip_step_def)
  also have "\<dots> = strip_loop src (length (pre @ [c]) + length body)
     (?s\<lparr>buf := (b @ '' '') @ spaces (length body) @ rest'\<rparr>)"
    using Cons.prems by (intro Cons.IH) auto
  finally show ?case by simp
qed

lemma block_loop:
  assumes "\<not> contains (body @ ''*'') ''*/''" and "lstate s = InBlockComment"
    and "src = pre @ body @ ''*/'' @ rest"
    and "buf s = b @ body @ ''*/'' @ rest'" and "length b = length pre"
  shows "strip_loop src (length pre) s =
     strip_loop src (length pre + length body + 2)
       (s\<lparr>buf := b @ spaces (length body + 2) @ rest', lstate := Normal\<rparr>)"
  using assms
proof (induction body arbitrary: pre b s)
  case Nil
  have "blank (length pre) s = s\<lparr>buf := b @ '' '' @ ''/'' @ rest'\<rparr>"
    using Nil.prems by (subst blank_append [where b = b]) auto
  moreover have "blank (length pre + 1) (s\<lparr>buf := b @ '' '' @ ''/'' @ rest'\<rparr>) =
      s\<lparr>buf := b @ ''  '' @ rest'\<rparr>"
    using Nil.prems by (subst blank_append [where b = "b @ '' ''"]) auto
  ultimately show ?case
    using Nil.prems by (intro strip_loop_step) (auto simp: strip_step_def numeral_2_eq_2)
next
  case (Cons c body)
  let ?s = "s\<lparr>buf := b @ CHR '' '' # body @ ''*/'' @ rest'\<rparr>"
  have "blank (length pre) s = ?s"
    using Cons.prems by (subst blank_append [where b = b]) auto
  moreover have "\<not> (c = CHR ''*'' \<and> starts_with (CHR ''/'') (body @ ''*/'' @ rest))"
    using Cons.prems(1) by (cases body) auto
  ultimately have "strip_loop src (length pre) s = strip_loop src (length (pre @ [c])) ?s"
    using Cons.prems by (intro strip_loop_step) (auto simp: strip_step_def)
  also have "\<dots> = strip_loop src (length (pre @ [c]) + length body + 2)
     (?s\<lparr>buf := (b @ '' '') @ spaces (length body + 2) @ rest', lstate := Normal\<rparr>)"
    using Cons.prems by (intro Cons.IH) auto
  finally show ?case by simp
qed

lemma string_loop_open:
  assumes "list_all elem_ok es" and "lstate s = InString"
    and "src = pre @ concat (map elem_text es) @ (if esc then [BSL] else [])"
  shows "lstate (strip_loop src (length pre) s) = InString"
  using assms
proof (induction es arbitrary: pre)
  case Nil
  show ?case
  proof (cases esc)
    case True
    with Nil have "strip_loop src (length pre) s = strip_loop src (length pre + 2) s"
      by (intro strip_loop_step) (auto simp: strip_step_def)
    with True Nil show ?thesis by (simp add: strip_loop_end)
  next
    case False
    with Nil show ?thesis by (simp add: strip_loop_end)
  qed
next
  case (Cons e es)
  have "strip_loop src (length pre) s = strip_loop src (length (pre @ elem_text e)) s"
    using Cons.prems by (intro strip_loop_step) (cases e; auto simp: strip_step_def)+
  moreover have "lstate (strip_loop src (length (pre @ elem_text e)) s) = InString"
    using Cons.prems by (intro Cons.IH) auto
  ultimately show ?case by simp
qed

lemma block_loop_open:
  assumes "\<not> contains body ''*/''" and "lstate s = InBlockComment" and "src = pre @ body"
  shows "lstate (strip_loop src (length pre) s) = InBlockComment"
  using assms
proof (induction body arbitrary: pre s)
  case Nil
  then show ?case by (simp add: strip_loop_end)
next
  case (Cons c body)
  have "\<not> (c = CHR ''*'' \<and> starts_with (CHR ''/'') body)"
    using Cons.prems(1) by (cases body) auto
  then have "strip_loop src (length pre) s = strip_loop src (length (pre @ [c])) (blank (length pre) s)"
    using Cons.prems by (intro strip_loop_step) (auto simp: strip_step_def)
  moreover have "lstate (strip_loop src (length (pre @ [c])) (blank (length pre) s)) = InBlockComment"
    using Cons.prems by (intro Cons.IH) (auto simp: blank_def)
  ultimately show ?case by simp
qed

section \<open>The loop over a document\<close>

text \<open>The comma the code would blank if the next significant byte closed a bracket.\<close>

definition live :: "scan \<Rightarrow> nat option" where
  "live s = (if 0 \<le> pending_comma s \<and> last_sig_byte s = CHR '','' \<and> last_sig s = pending_comma s
     then Some (nat (pending_comma s)) else None)"

definition settle :: "scan \<Rightarrow> bool \<Rightarrow> string \<Rightarrow> string" where
  "settle s c b = (case live s of None \<Rightarrow> b | Some p \<Rightarrow> if c then b[p := CHR '' ''] else b)"

definition done_with :: "scan \<Rightarrow> jsonc_error option \<Rightarrow> string \<Rightarrow> bool" where
  "done_with s e out \<longleftrightarrow>
     (case e of
        None \<Rightarrow> (lstate s = Normal \<or> lstate s = InLineComment) \<and> buf s = out
      | Some UnterminatedString \<Rightarrow> lstate s = InString
      | Some UnterminatedComment \<Rightarrow> lstate s = InBlockComment)"

lemma live_simps [simp]:
  "live (s\<lparr>buf := b\<rparr>) = live s"
  "live (s\<lparr>lstate := l\<rparr>) = live s"
  "live (s\<lparr>pending_comma := -1\<rparr>) = None"
  "live (significant i c (s\<lparr>pending_comma := -1\<rparr>)) = None"
  "live (significant i (CHR '','') (s\<lparr>pending_comma := int i\<rparr>)) = Some i"
  by (simp_all add: live_def significant_def)

lemma significant_simps [simp]:
  "lstate (significant i c s) = lstate s" "buf (significant i c s) = buf s"
  "pending_comma (significant i c s) = pending_comma s"
  by (simp_all add: significant_def)

lemma live_pending: "pending_comma s = -1 \<Longrightarrow> live s = None"
  by (simp add: live_def)

lemma settle_append: "(\<forall>p. live s = Some p \<longrightarrow> p < length b) \<Longrightarrow> settle s c (b @ x) = settle s c b @ x"
  by (auto simp: settle_def list_update_append split: option.splits)

lemma settle_None: "live s = None \<Longrightarrow> settle s c b = b"
  by (simp add: settle_def)

lemma settle_False [simp]: "settle s False b = b"
  by (simp add: settle_def split: option.splits)

lemma doc_text_simps [simp]:
  "doc_text [] = []" "doc_text (t # ts) = token_text t @ doc_text ts"
  by (simp_all add: doc_text_def)

lemma strip_loop_LF:
  assumes "src ! i = LF" and "i < length src" and "lstate s = InLineComment"
  shows "strip_loop src i s = strip_loop src i (s\<lparr>lstate := Normal\<rparr>)"
proof -
  have "strip_loop src i s = strip_loop src (i + 1) (s\<lparr>lstate := Normal\<rparr>)"
    using assms by (intro strip_loop_step) (auto simp: strip_step_def)
  moreover have "strip_loop src i (s\<lparr>lstate := Normal\<rparr>) = strip_loop src (i + 1) (s\<lparr>lstate := Normal\<rparr>)"
    using assms by (intro strip_loop_step) (auto simp: strip_step_def)
  ultimately show ?thesis by simp
qed

text \<open>The loop reads a document of these tokens, wherever it stands and whatever it has kept before.\<close>

definition reads_doc :: "string \<Rightarrow> token list \<Rightarrow> bool" where
  "reads_doc src ts \<longleftrightarrow> (\<forall>pre b s. doc_ok ts \<longrightarrow> src = pre @ doc_text ts \<longrightarrow> lstate s = Normal
     \<longrightarrow> buf s = b @ doc_text ts \<longrightarrow> length b = length pre \<longrightarrow> (\<forall>p. live s = Some p \<longrightarrow> p < length b)
     \<longrightarrow> done_with (strip_loop src (length pre) s) (unclosed ts) (settle s (closes ts) b @ blanked ts))"

lemma reads_docI:
  "(\<And>pre b s. doc_ok ts \<Longrightarrow> src = pre @ doc_text ts \<Longrightarrow> lstate s = Normal \<Longrightarrow> buf s = b @ doc_text ts
     \<Longrightarrow> length b = length pre \<Longrightarrow> \<forall>p. live s = Some p \<longrightarrow> p < length b
     \<Longrightarrow> done_with (strip_loop src (length pre) s) (unclosed ts) (settle s (closes ts) b @ blanked ts))
   \<Longrightarrow> reads_doc src ts"
  by (simp add: reads_doc_def)

lemma reads_docD:
  "reads_doc src ts \<Longrightarrow> doc_ok ts \<Longrightarrow> src = pre @ doc_text ts \<Longrightarrow> lstate s = Normal \<Longrightarrow> buf s = b @ doc_text ts
     \<Longrightarrow> length b = length pre \<Longrightarrow> \<forall>p. live s = Some p \<longrightarrow> p < length b
     \<Longrightarrow> done_with (strip_loop src (length pre) s) (unclosed ts) (settle s (closes ts) b @ blanked ts)"
  by (simp add: reads_doc_def)

lemma reads_Nil: "reads_doc src []"
  by (rule reads_docI) (simp add: strip_loop_end done_with_def)

lemma reads_str_lit:
  assumes "reads_doc src ts"
  shows "reads_doc src (StrLit es # ts)"
proof (rule reads_docI, goal_cases)
  case prems: (1 pre b s)
  note IH = reads_docD [OF assms]
  let ?t = "StrLit es"
  let ?b = "concat (map elem_text es)" and ?n = "length pre"
  let ?q = "significant ?n DQ (s\<lparr>lstate := InString, pending_comma := -1\<rparr>)"
  let ?s = "significant (?n + 1 + length ?b) DQ (?q\<lparr>lstate := Normal\<rparr>)"
  have "strip_loop src ?n s = strip_loop src (length (pre @ [DQ])) ?q"
    using prems by (intro strip_loop_step) (auto simp: strip_step_def)
  also have "\<dots> = strip_loop src (length (pre @ [DQ]) + length ?b + 1)
      (significant (length (pre @ [DQ]) + length ?b) DQ (?q\<lparr>lstate := Normal\<rparr>))"
    using prems
    by (intro string_loop [where rest = "doc_text ts"]) auto
  finally have run: "strip_loop src ?n s = strip_loop src (length (pre @ token_text ?t)) ?s"
    by (simp add: add.commute add.left_commute)
  have "live ?s = None" by (rule live_pending) (simp add: significant_def)
  then have "done_with (strip_loop src (length (pre @ token_text ?t)) ?s) (unclosed ts)
      (settle ?s (closes ts) (b @ token_text ?t) @ blanked ts)"
    using prems by (intro IH) auto
  with run \<open>live ?s = None\<close> show ?case by (simp add: settle_None)
qed

lemma reads_line_comment:
  assumes "reads_doc src ts"
  shows "reads_doc src (LineComment body # ts)"
proof (rule reads_docI, goal_cases)
  case prems: (1 pre b s)
  note IH = reads_docD [OF assms]
  let ?t = "LineComment body"
  let ?n = "length pre"
  let ?q = "s\<lparr>buf := b @ ''  '' @ body @ doc_text ts, lstate := InLineComment\<rparr>"
  let ?r = "?q\<lparr>buf := (b @ ''  '') @ spaces (length body) @ doc_text ts\<rparr>"
  let ?out = "b @ spaces (length body + 2)"
  have "strip_loop src ?n s = strip_loop src (length (pre @ ''//'')) ?q"
    using prems
    by (intro strip_loop_step)
      (auto simp: strip_step_def blank_append [where b = b] blank_append [where b = "b @ '' ''"])
  also have "\<dots> = strip_loop src (length (pre @ ''//'') + length body) ?r"
    using prems by (intro line_loop) auto
  finally have run: "strip_loop src ?n s = strip_loop src (length (pre @ token_text ?t)) ?r"
    by (simp add: add.commute add.left_commute)
  show ?case
  proof (cases ts)
    case Nil
    then have "strip_loop src (length (pre @ token_text ?t)) ?r = ?r"
      using prems by (intro strip_loop_end) auto
    with run Nil show ?thesis by (simp add: done_with_def)
  next
    case (Cons u us)
    let ?s = "s\<lparr>buf := ?out @ doc_text ts\<rparr>"
    have eq: "?r\<lparr>lstate := Normal\<rparr> = ?s"
      using prems(3) by (cases s) simp
    have "strip_loop src (length (pre @ token_text ?t)) ?r =
        strip_loop src (length (pre @ token_text ?t)) (?r\<lparr>lstate := Normal\<rparr>)"
    proof (rule strip_loop_LF)
      from prems Cons obtain v where "doc_text ts = LF # v"
        by (cases "doc_text ts") auto
      then show "src ! length (pre @ token_text ?t) = LF" "length (pre @ token_text ?t) < length src"
        using prems(2) by (auto simp: nth_append)
    qed simp
    moreover have "done_with (strip_loop src (length (pre @ token_text ?t)) ?s) (unclosed ts)
        (settle ?s (closes ts) ?out @ blanked ts)"
      using prems by (intro IH) auto
    moreover have "settle ?s (closes ts) ?out = settle s (closes ts) b @ spaces (length body + 2)"
      using prems(6) by (auto simp: settle_def list_update_append split: option.splits)
    ultimately show ?thesis using run eq by simp
  qed
qed

lemma reads_block_comment:
  assumes "reads_doc src ts"
  shows "reads_doc src (BlockComment body # ts)"
proof (rule reads_docI, goal_cases)
  case prems: (1 pre b s)
  note IH = reads_docD [OF assms]
  let ?t = "BlockComment body"
  let ?n = "length pre"
  let ?q = "s\<lparr>buf := b @ ''  '' @ body @ ''*/'' @ doc_text ts, lstate := InBlockComment\<rparr>"
  let ?s = "?q\<lparr>buf := (b @ ''  '') @ spaces (length body + 2) @ doc_text ts, lstate := Normal\<rparr>"
  let ?out = "b @ spaces (length body + 4)"
  have "strip_loop src ?n s = strip_loop src (length (pre @ ''/*'')) ?q"
    using prems
    by (intro strip_loop_step)
      (auto simp: strip_step_def blank_append [where b = b] blank_append [where b = "b @ '' ''"])
  also have "\<dots> = strip_loop src (length (pre @ ''/*'') + length body + 2) ?s"
    using prems by (intro block_loop [where rest = "doc_text ts"]) auto
  finally have run: "strip_loop src ?n s = strip_loop src (length (pre @ token_text ?t)) ?s"
    by (simp add: add.commute add.left_commute)
  have "done_with (strip_loop src (length (pre @ token_text ?t)) ?s) (unclosed ts)
      (settle ?s (closes ts) ?out @ blanked ts)"
    using prems by (intro IH) (auto simp: numeral_eq_Suc)
  moreover have "settle ?s (closes ts) ?out = settle s (closes ts) b @ spaces (length body + 4)"
    using prems(6) by (auto simp: settle_def list_update_append split: option.splits)
  ultimately show ?case using run by simp
qed

lemma reads_comma:
  assumes "reads_doc src ts"
  shows "reads_doc src (Comma # ts)"
proof (rule reads_docI, goal_cases)
  case prems: (1 pre b s)
  note IH = reads_docD [OF assms]
  let ?s = "significant (length pre) (CHR '','') (s\<lparr>pending_comma := int (length pre)\<rparr>)"
  have run: "strip_loop src (length pre) s = strip_loop src (length (pre @ [CHR '',''])) ?s"
    using prems by (intro strip_loop_step) (auto simp: strip_step_def)
  have "done_with (strip_loop src (length (pre @ [CHR '',''])) ?s) (unclosed ts)
      (settle ?s (closes ts) (b @ [CHR '','']) @ blanked ts)"
    using prems by (intro IH) auto
  moreover have "settle ?s (closes ts) (b @ [CHR '','']) = b @ [if closes ts then CHR '' '' else CHR '','']"
    using prems(5) by (simp add: settle_def list_update_append)
  ultimately show ?case using run by simp
qed

lemma reads_other:
  assumes "reads_doc src ts"
  shows "reads_doc src (Other c # ts)"
proof (rule reads_docI, goal_cases)
  case prems: (1 pre b s)
  note IH = reads_docD [OF assms]
  let ?n = "length pre"
  consider (space) "is_space_byte c" | (close) "is_closing c" | (plain) "\<not> is_space_byte c" "\<not> is_closing c"
    by blast
  then show ?case
  proof cases
    case space
    have run: "strip_loop src ?n s = strip_loop src (length (pre @ [c])) s"
      using prems space
      by (intro strip_loop_step) (auto simp: strip_step_def is_space_byte_def)
    have "done_with (strip_loop src (length (pre @ [c])) s) (unclosed ts) (settle s (closes ts) (b @ [c]) @ blanked ts)"
      using prems by (intro IH) auto
    with run space prems(6) show ?thesis by (simp add: settle_append)
  next
    case close
    let ?s = "significant ?n c ((if live s = None then s else blank (the (live s)) s)\<lparr>pending_comma := -1\<rparr>)"
    have run: "strip_loop src ?n s = strip_loop src (length (pre @ [c])) ?s"
      using prems close
      by (intro strip_loop_step) (auto simp: strip_step_def is_closing_def live_def)
    have "done_with (strip_loop src (length (pre @ [c])) ?s) (unclosed ts)
        (settle ?s (closes ts) (settle s True b @ [c]) @ blanked ts)"
      using prems
      by (intro IH)
        (auto simp: blank_def settle_def list_update_append split: option.splits)
    moreover have "\<not> is_space_byte c" using close by (auto simp: is_closing_def is_space_byte_def)
    ultimately show ?thesis using run close by (simp add: settle_None)
  next
    case plain
    let ?s = "significant ?n c (s\<lparr>pending_comma := -1\<rparr>)"
    have run: "strip_loop src ?n s = strip_loop src (length (pre @ [c])) ?s"
      using prems plain
      by (intro strip_loop_step) (auto simp: strip_step_def is_closing_def is_space_byte_def)
    have "done_with (strip_loop src (length (pre @ [c])) ?s) (unclosed ts)
        (settle ?s (closes ts) (b @ [c]) @ blanked ts)"
      using prems by (intro IH) auto
    with run plain show ?thesis by (simp add: settle_None)
  qed
qed

lemma reads_open_str:
  assumes "reads_doc src ts"
  shows "reads_doc src (OpenStr es esc # ts)"
proof (rule reads_docI, goal_cases)
  case prems: (1 pre b s)
  let ?q = "significant (length pre) DQ (s\<lparr>lstate := InString, pending_comma := -1\<rparr>)"
  have "strip_loop src (length pre) s = strip_loop src (length (pre @ [DQ])) ?q"
    using prems by (intro strip_loop_step) (auto simp: strip_step_def)
  moreover have "lstate (strip_loop src (length (pre @ [DQ])) ?q) = InString"
    using prems by (intro string_loop_open) auto
  ultimately show ?case by (simp add: done_with_def)
qed

lemma reads_open_comment:
  assumes "reads_doc src ts"
  shows "reads_doc src (OpenComment body # ts)"
proof (rule reads_docI, goal_cases)
  case prems: (1 pre b s)
  let ?q = "(blank (length pre + 1) (blank (length pre) s))\<lparr>lstate := InBlockComment\<rparr>"
  have "strip_loop src (length pre) s = strip_loop src (length (pre @ ''/*'')) ?q"
    using prems by (intro strip_loop_step) (auto simp: strip_step_def)
  moreover have "lstate (strip_loop src (length (pre @ ''/*'')) ?q) = InBlockComment"
    using prems by (intro block_loop_open) auto
  ultimately show ?case by (simp add: done_with_def)
qed

lemma strip_loop_doc: "reads_doc src ts"
proof (induction ts)
  case (Cons t ts)
  then show ?case
    by (cases t) (simp_all only: reads_str_lit reads_line_comment reads_block_comment reads_comma reads_other
        reads_open_str reads_open_comment)
qed (rule reads_Nil)

lemma strip_doc:
  assumes "doc_ok ts"
  shows "strip (doc_text ts) = (case unclosed ts of None \<Rightarrow> Inr (blanked ts) | Some e \<Rightarrow> Inl e)"
proof -
  let ?s = "init_scan (doc_text ts)"
  have "live ?s = None" by (simp add: live_def init_scan_def)
  then have "done_with (strip_loop (doc_text ts) 0 ?s) (unclosed ts) (blanked ts)"
    using reads_docD [OF strip_loop_doc assms, of "doc_text ts" "[]" ?s "[]"]
    by (simp add: init_scan_def settle_def)
  then show ?thesis
    by (auto simp: strip_def done_with_def Let_def split: option.splits jsonc_error.splits)
qed

section \<open>Every text is a document\<close>

lemma lex_string:
  "(\<exists>es rest. r = concat (map elem_text es) @ DQ # rest \<and> list_all elem_ok es) \<or>
   (\<exists>es esc. r = concat (map elem_text es) @ (if esc then [BSL] else []) \<and> list_all elem_ok es)"
  (is "?closed r \<or> ?open r")
proof (induction r rule: length_induct)
  case (1 r)
  have extend: "?closed (elem_text e @ r') \<or> ?open (elem_text e @ r')"
    if "elem_ok e" "length r' < length r" for e r'
  proof -
    from that(2) 1 consider "?closed r'" | "?open r'" by blast
    then show ?thesis
    proof cases
      case 1
      then obtain es rest where "r' = concat (map elem_text es) @ DQ # rest" "list_all elem_ok es"
        by blast
      with that(1) show ?thesis
        by (intro disjI1 exI [of _ "e # es"] exI [of _ rest]) simp
    next
      case 2
      then obtain es esc where "r' = concat (map elem_text es) @ (if esc then [BSL] else [])"
          "list_all elem_ok es"
        by blast
      with that(1) show ?thesis
        by (intro disjI2 exI [of _ "e # es"] exI [of _ esc]) simp
    qed
  qed
  consider "r = []" | r' where "r = DQ # r'" | "r = [BSL]" | c r' where "r = [BSL, c] @ r'"
    | c r' where "r = [c] @ r'" "c \<noteq> DQ" "c \<noteq> BSL"
    by (metis append_Cons append_Nil neq_Nil_conv)
  then show ?case
  proof cases
    case 1
    then show ?thesis by (intro disjI2 exI [of _ "[]"] exI [of _ False]) simp
  next
    case (2 r')
    then show ?thesis by (intro disjI1 exI [of _ "[]"] exI [of _ r']) simp
  next
    case 3
    then show ?thesis by (intro disjI2 exI [of _ "[]"] exI [of _ True]) simp
  next
    case (4 c r')
    then show ?thesis using extend [of "Escaped c" r'] by simp
  next
    case (5 c r')
    then show ?thesis using extend [of "Plain c" r'] by simp
  qed
qed

lemma lex_block:
  "contains r ''*/'' \<Longrightarrow> \<exists>b rest. r = b @ ''*/'' @ rest \<and> \<not> contains (b @ ''*'') ''*/''"
proof (induction r)
  case (Cons c r)
  show ?case
  proof (cases "prefix ''*/'' (c # r)")
    case True
    then obtain rest where "c # r = ''*/'' @ rest" by (auto simp: prefix_def)
    then show ?thesis by (intro exI [of _ "[]"] exI [of _ rest]) simp
  next
    case False
    with Cons obtain b rest where b: "r = b @ ''*/'' @ rest" "\<not> contains (b @ ''*'') ''*/''"
      by auto
    with False have "\<not> contains ((c # b) @ ''*'') ''*/''" by (cases b) auto
    with b show ?thesis by (intro exI [of _ "c # b"] exI [of _ rest]) simp
  qed
qed simp

lemma lex_line:
  "\<exists>b rest. r = b @ rest \<and> LF \<notin> set b \<and> (rest = [] \<or> starts_with LF rest)"
proof (induction r)
  case (Cons c r)
  show ?case
  proof (cases "c = LF")
    case True
    then show ?thesis by (intro exI [of _ "[]"] exI [of _ "c # r"]) simp
  next
    case False
    with Cons obtain b rest where "r = b @ rest" "LF \<notin> set b" "rest = [] \<or> starts_with LF rest"
      by blast
    with False show ?thesis by (intro exI [of _ "c # b"] exI [of _ rest]) auto
  qed
qed simp

lemma starts_with_eq: "starts_with c xs \<longleftrightarrow> (\<exists>ys. xs = c # ys)"
  by (cases xs) auto

lemma doc_text_Nil: "doc_ok ts \<Longrightarrow> doc_text ts = [] \<longleftrightarrow> ts = []"
  by (cases ts rule: doc_ok.cases) auto

text \<open>Lexing is total: every byte string is the text of a well-formed document.\<close>

text \<open>The first token of a text: what stands before a rest that can be read on its own, or the whole text.\<close>

lemma lex_first:
  assumes "src \<noteq> []"
  shows "(\<exists>t rest. src = token_text t @ rest \<and> token_text t \<noteq> []
       \<and> (\<forall>ts. doc_ok ts \<longrightarrow> rest = doc_text ts \<longrightarrow> doc_ok (t # ts)))
     \<or> (\<exists>t. src = token_text t \<and> doc_ok [t])" (is "?more \<or> ?last")
proof -
  have add: ?more if "src = token_text t @ rest" "token_text t \<noteq> []"
      "\<And>ts. doc_ok ts \<Longrightarrow> rest = doc_text ts \<Longrightarrow> doc_ok (t # ts)" for t rest
    using that by blast
  obtain c r where "src = c # r" using assms by (cases src) auto
  then consider r where "src = DQ # r" | r where "src = ''//'' @ r" | r where "src = ''/*'' @ r"
    | r where "src = '','' @ r"
    | c r where "src = c # r" "c \<noteq> DQ" "c \<noteq> CHR '',''"
        "c = CHR ''/'' \<longrightarrow> \<not> starts_with (CHR ''/'') r \<and> \<not> starts_with (CHR ''*'') r"
    unfolding starts_with_eq by fastforce
  then show ?thesis
  proof cases
    case (1 r)
    from lex_string [of r] show ?thesis
    proof
      assume "\<exists>es rest. r = concat (map elem_text es) @ DQ # rest \<and> list_all elem_ok es"
      then obtain es rest where "r = concat (map elem_text es) @ DQ # rest" "list_all elem_ok es"
        by blast
      with 1 show ?thesis by (intro disjI1 add [of "StrLit es" rest]) simp_all
    next
      assume "\<exists>es esc. r = concat (map elem_text es) @ (if esc then [BSL] else []) \<and> list_all elem_ok es"
      then obtain es esc where "r = concat (map elem_text es) @ (if esc then [BSL] else [])"
          "list_all elem_ok es"
        by blast
      with 1 show ?thesis by (intro disjI2 exI [of _ "OpenStr es esc"]) simp
    qed
  next
    case (2 r)
    obtain b rest where b: "r = b @ rest" "LF \<notin> set b" "rest = [] \<or> starts_with LF rest"
      using lex_line by blast
    with 2 show ?thesis
      by (intro disjI1 add [of "LineComment b" rest]) (auto simp: doc_text_Nil)
  next
    case (3 r)
    show ?thesis
    proof (cases "contains r ''*/''")
      case True
      then obtain b rest where "r = b @ ''*/'' @ rest" "\<not> contains (b @ ''*'') ''*/''"
        using lex_block by blast
      with 3 show ?thesis by (intro disjI1 add [of "BlockComment b" rest]) simp_all
    next
      case False
      with 3 show ?thesis by (intro disjI2 exI [of _ "OpenComment r"]) simp
    qed
  next
    case (4 r)
    then show ?thesis by (intro disjI1 add [of Comma r]) simp_all
  next
    case (5 c r)
    then show ?thesis by (intro disjI1 add [of "Other c" r]) auto
  qed
qed

lemma lex_total: "\<exists>ts. doc_ok ts \<and> src = doc_text ts"
proof (induction src rule: length_induct)
  case (1 src)
  consider "src = []" | t rest where "src = token_text t @ rest" "token_text t \<noteq> []"
      "\<forall>ts. doc_ok ts \<longrightarrow> rest = doc_text ts \<longrightarrow> doc_ok (t # ts)" | t where "src = token_text t" "doc_ok [t]"
    using lex_first by blast
  then show ?case
  proof cases
    case (2 t rest)
    then have "length rest < length src" by simp
    with 1 obtain ts where "doc_ok ts" "rest = doc_text ts" by blast
    with 2 show ?thesis by (intro exI [of _ "t # ts"]) simp
  next
    case (3 t)
    then show ?thesis by (intro exI [of _ "[t]"]) simp
  qed (intro exI [of _ "[]"], simp)
qed

lemma blanked_pointwise:
  "unclosed ts = None \<Longrightarrow> list_all2 (\<lambda>a b. b = a \<or> b = CHR '' '') (doc_text ts) (blanked ts)"
proof (induction ts rule: blanked.induct)
  case (2 b ts)
  then show ?case
    by (auto simp: list_all2_conv_all_nth spaces_def nth_append nth_Cons' numeral_2_eq_2)
next
  case (3 b ts)
  have "list_all2 (\<lambda>a b. b = a \<or> b = CHR '' '') (''/*'' @ b @ ''*/'') (spaces (length b + 4))"
    by (simp add: list_all2_conv_all_nth spaces_def del: replicate.simps)
  with 3 have "list_all2 (\<lambda>a b. b = a \<or> b = CHR '' '')
      ((''/*'' @ b @ ''*/'') @ doc_text ts) (spaces (length b + 4) @ blanked ts)"
    by (intro list_all2_appendI) simp_all
  then show ?case by simp
qed (auto intro!: list_all2_appendI list_all2_refl)

lemma strip_Inr_doc:
  "strip src = Inr out \<longleftrightarrow> (\<exists>ts. doc_ok ts \<and> unclosed ts = None \<and> src = doc_text ts \<and> out = blanked ts)"
proof
  assume ok: "strip src = Inr out"
  obtain ts where ts: "doc_ok ts" "src = doc_text ts" using lex_total by blast
  with strip_doc [OF ts(1)] ok show "\<exists>ts. doc_ok ts \<and> unclosed ts = None \<and> src = doc_text ts \<and> out = blanked ts"
    by (auto split: option.splits)
next
  assume "\<exists>ts. doc_ok ts \<and> unclosed ts = None \<and> src = doc_text ts \<and> out = blanked ts"
  then show "strip src = Inr out" by (auto simp: strip_doc)
qed

section \<open>Properties\<close>

text \<open>
  C8: every byte string is the text of a well-formed sequence of JSONC tokens, and on any such
  sequence \<open>Strip\<close> fails exactly when a string or block comment is left open, with the matching
  error, and otherwise returns the text with each comment and each comma before a closing bracket
  (white space and comments between) replaced by spaces, everything else untouched.
\<close>

theorem strip_spec:
  "(\<exists>ts. doc_ok ts \<and> src = doc_text ts) \<and>
   (\<forall>ts. doc_ok ts \<and> src = doc_text ts \<longrightarrow>
      strip src = (case unclosed ts of None \<Rightarrow> Inr (blanked ts) | Some e \<Rightarrow> Inl e))"
  using lex_total [of src] by (auto simp: strip_doc)

lemma strip_spec_witness:
  "strip (doc_text [Other (CHR ''[''), Other (CHR ''1''), Comma, BlockComment ''x'', Other (CHR '']'')])
     = Inr ''[1      ]''"
proof -
  let ?ts = "[Other (CHR ''[''), Other (CHR ''1''), Comma, BlockComment ''x'', Other (CHR '']'')]"
  have ok: "doc_ok ?ts \<and> doc_text ?ts = doc_text ?ts"
    and closed: "unclosed ?ts = None" and out: "blanked ?ts = ''[1      ]''"
    by code_simp+
  have "strip (doc_text ?ts) = (case unclosed ?ts of None \<Rightarrow> Inr (blanked ?ts) | Some e \<Rightarrow> Inl e)"
    using strip_spec [of "doc_text ?ts"] ok by blast
  then show ?thesis by (simp only: closed out option.case)
qed

text \<open>
  \<open>Strip\<close> preserves every byte offset: its output has the length of the source, and each byte
  of it is the source's byte at that offset or a space.
\<close>

lemma strip_offsets:
  assumes "strip src = Inr out"
  shows "length out = length src \<and> (\<forall>i < length src. out ! i = src ! i \<or> out ! i = CHR '' '')"
proof -
  obtain ts where "unclosed ts = None" "src = doc_text ts" "out = blanked ts"
    using assms by (auto simp: strip_Inr_doc)
  then have "list_all2 (\<lambda>a b. b = a \<or> b = CHR '' '') src out"
    by (simp add: blanked_pointwise)
  then show ?thesis by (simp add: list_all2_conv_all_nth)
qed

lemma strip_offsets_witness:
  "strip ''[1,]'' = Inr ''[1 ]'' \<and> length ''[1 ]'' = length ''[1,]''"
proof -
  have "strip ''[1,]'' = Inr ''[1 ]''" by code_simp
  with strip_offsets [OF this] show ?thesis by simp
qed

end
