(* ===== verification/ConfigLoad.thy ===== *)
theory ConfigLoad
  imports Jsonc Resolve
begin

text \<open>
  \<open>config/parse.go\<close>: finding the \<open>devcontainer.json\<close> that applies, reading and decoding it, and the
  pipeline \<open>LoadSpec\<close>. The file system and process state are the record \<open>env\<close>: the working directory
  (\<open>None\<close> when \<open>Getwd\<close> fails), \<open>os.Stat\<close>, \<open>filepath.Glob\<close>, \<open>os.ReadFile\<close>, the environment and
  the home directory. \<open>env_parse\<close> is the parser of \<open>encoding/json\<close>, \<open>env_quote\<close> the \<open>%q\<close> verb of \<open>fmt\<close>.
\<close>

datatype node = IsDir | IsFile

datatype json_failure = SyntaxError nat | OtherFailure

text \<open>A parsed document: \<open>null\<close>, an object, or another value.\<close>

datatype doc = DocNull | DocObj "doc_member list" | DocOther

record env =
  env_cwd :: "string option"
  env_stat :: "string \<Rightarrow> node option"
  env_glob :: "string \<Rightarrow> string list option"
  env_read :: "string \<Rightarrow> string option"
  env_lookup :: "string \<Rightarrow> string option"
  env_home :: "string option"
  env_parse :: "string \<Rightarrow> json_failure + doc"
  env_quote :: "string \<Rightarrow> string"

datatype load_error = NoCwd | NoPath string | NotFound string | BadPattern
  | Several string "string list" | Unreadable string | StripFailed string jsonc_error
  | SyntaxAt string nat nat | DecodeFailed string | WrongShape string decode_error
  | SubstFailed subst_error | ResolveFailed resolve_error

section \<open>Discovery\<close>

definition abs_path :: "env \<Rightarrow> string \<Rightarrow> string option" where
  "abs_path e p =
     (if is_abs p then Some (clean p) else map_option (\<lambda>cwd. path_join [cwd, p]) (env_cwd e))"

definition file_exists :: "env \<Rightarrow> string \<Rightarrow> bool" where
  "file_exists e p \<longleftrightarrow> env_stat e p = Some IsFile"

definition local_workspace_folder :: "string \<Rightarrow> string" where
  "local_workspace_folder config_path =
     (let d = dir config_path in
      if base d = ''.devcontainer'' then dir d
      else if base (dir d) = ''.devcontainer'' then dir (dir d)
      else d)"

definition discover :: "env \<Rightarrow> string \<Rightarrow> string \<Rightarrow> load_error + string \<times> string" where
  "discover e path override =
     (if override \<noteq> [] then
        (case abs_path e override of
           None \<Rightarrow> Inl NoCwd
         | Some a \<Rightarrow> Inr (a, local_workspace_folder a))
      else
        (case abs_path e path of
           None \<Rightarrow> Inl NoCwd
         | Some a \<Rightarrow>
             (case env_stat e a of
                None \<Rightarrow> Inl (NoPath a)
              | Some IsFile \<Rightarrow> Inr (a, local_workspace_folder a)
              | Some IsDir \<Rightarrow>
                  (case find (file_exists e)
                     [path_join [a, ''.devcontainer'', ''devcontainer.json''],
                      path_join [a, ''.devcontainer.json'']] of
                     Some c \<Rightarrow> Inr (c, a)
                   | None \<Rightarrow>
                       (case env_glob e (path_join [a, ''.devcontainer'', ''*'', ''devcontainer.json'']) of
                          None \<Rightarrow> Inl BadPattern
                        | Some [] \<Rightarrow> Inl (NotFound a)
                        | Some [c] \<Rightarrow> Inr (c, a)
                        | Some cs \<Rightarrow> Inl (Several a (sort cs)))))))"

section \<open>Error positions\<close>

text \<open>The loop of \<open>decorateJSONError\<close>: line and column after the first \<open>n\<close> bytes, both from 1.\<close>

fun advance :: "nat \<times> nat \<Rightarrow> char \<Rightarrow> nat \<times> nat" where
  "advance (line, col) c = (if c = LF then (line + 1, 1) else (line, col + 1))"

definition line_col :: "nat \<Rightarrow> string \<Rightarrow> nat \<times> nat" where
  "line_col n src = foldl advance (1, 1) (take n src)"

section \<open>Load\<close>

definition decode_doc :: "doc \<Rightarrow> decode_error + raw" where
  "decode_doc d =
     (case d of DocNull \<Rightarrow> Inr empty_raw | DocObj ms \<Rightarrow> decode_raw ms | DocOther \<Rightarrow> Inl TypeMismatch)"

definition unknown_warning :: "env \<Rightarrow> string \<Rightarrow> string" where
  "unknown_warning e k = ''unknown property '' @ env_quote e k @ '' ignored''"

definition load :: "env \<Rightarrow> string \<Rightarrow> string \<Rightarrow> load_error + loaded" where
  "load e path override =
     (case discover e path override of
        Inl x \<Rightarrow> Inl x
      | Inr (config_path, local_folder) \<Rightarrow>
      (case env_read e config_path of
        None \<Rightarrow> Inl (Unreadable config_path)
      | Some src \<Rightarrow>
      (case strip src of
        Inl x \<Rightarrow> Inl (StripFailed config_path x)
      | Inr stripped \<Rightarrow>
      (case env_parse e stripped of
        Inl (SyntaxError off) \<Rightarrow>
          (case line_col off stripped of (line, col) \<Rightarrow> Inl (SyntaxAt config_path line col))
      | Inl OtherFailure \<Rightarrow> Inl (DecodeFailed config_path)
      | Inr d \<Rightarrow>
      (case decode_doc d of
        Inl x \<Rightarrow> Inl (WrongShape config_path x)
      | Inr r \<Rightarrow>
          Inr \<lparr>l_config_path = config_path, l_local_folder = local_folder, l_raw = r,
            l_warnings = sort (map (unknown_warning e) (map_keys (r_extra r)))\<rparr>)))))"

text \<open>
  \<open>LoadSpec\<close>. The id handed to \<open>Substitute\<close> is computed from the name before substitution.
\<close>

definition load_spec :: "env \<Rightarrow> string \<Rightarrow> string \<Rightarrow> load_error + spec \<times> string list" where
  "load_spec e path override =
     (case load e path override of
        Inl x \<Rightarrow> Inl x
      | Inr l \<Rightarrow>
      (let wid = workspace_id (display_name (l_raw l) (l_local_folder l)) (l_local_folder l) in
       case substitute (l_local_folder l) (env_lookup e) wid (l_raw l) of
         Inl x \<Rightarrow> Inl (SubstFailed x)
       | Inr r \<Rightarrow>
       (case resolve (env_home e) (l\<lparr>l_raw := r\<rparr>) of
          Inl x \<Rightarrow> Inl (ResolveFailed x)
        | Inr s \<Rightarrow> Inr (s, l_warnings l))))"

section \<open>Error positions are those of the source unless a comment hid a line end\<close>

lemma advance_line: "fst (foldl advance p s) = fst p + count_list s LF"
  by (induction s arbitrary: p) (auto split: prod.splits)

lemma advance_col:
  "snd (foldl advance p s) =
     (if LF \<in> set s then Suc (length (takeWhile (\<lambda>c. c \<noteq> LF) (rev s))) else snd p + length s)"
proof (induction s rule: rev_induct)
  case (snoc c s)
  then show ?case by (cases "foldl advance p s") (auto simp: takeWhile_all)
qed simp

text \<open>\<open>line_col\<close> is the usual position: line ends passed, and the distance from the last of them.\<close>

lemma line_col_eq:
  "line_col n s = (Suc (count_list (take n s) LF),
     Suc (length (takeWhile (\<lambda>c. c \<noteq> LF) (rev (take n s)))))"
  using takeWhile_all [of LF "rev (take n s)"]
  by (cases "LF \<in> set (take n s)")
    (simp_all only: line_col_def prod_eq_iff advance_line advance_col fst_conv snd_conv if_True
      if_False set_rev length_rev plus_1_eq_Suc not_False_eq_True simp_thms)

lemma advance_same:
  "list_all2 (\<lambda>a b. (a = LF) = (b = LF)) xs ys \<Longrightarrow> foldl advance p xs = foldl advance p ys"
  by (induction arbitrary: p rule: list_all2_induct) (auto split: prod.splits)

lemma count_LF_le:
  "list_all2 (\<lambda>a b. b = a \<or> b = CHR '' '') xs ys \<Longrightarrow> count_list ys LF \<le> count_list xs LF"
  by (induction rule: list_all2_induct) auto

lemma count_LF_eq:
  "list_all2 (\<lambda>a b. b = a \<or> b = CHR '' '') xs ys \<Longrightarrow> count_list ys LF = count_list xs LF \<Longrightarrow>
   list_all2 (\<lambda>a b. (a = LF) = (b = LF)) xs ys"
proof (induction rule: list_all2_induct)
  case (Cons x xs y ys)
  then show ?case using count_LF_le [OF Cons.hyps(2)] by (auto split: if_splits)
qed simp

text \<open>The line ends of the source among the first \<open>n\<close> bytes that \<open>Strip\<close> blanked.\<close>

definition hidden_line_ends :: "nat \<Rightarrow> string \<Rightarrow> string \<Rightarrow> nat list" where
  "hidden_line_ends n src out = filter (\<lambda>i. src ! i = LF \<and> out ! i \<noteq> LF) [0..<min n (length src)]"

lemma hidden_Nil:
  assumes "list_all2 (\<lambda>a b. b = a \<or> b = CHR '' '') src out"
  shows "hidden_line_ends n src out = [] \<longleftrightarrow>
    list_all2 (\<lambda>a b. (a = LF) = (b = LF)) (take n src) (take n out)"
  using assms
  by (auto simp: hidden_line_ends_def filter_empty_conv list_all2_conv_all_nth)



section \<open>Discovery gives one folder per configuration\<close>

text \<open>
  What \<open>filepath.Glob\<close> documents for the nested pattern below \<open>abs_of ps\<close>: each result is the pattern with
  one path element for the star.
\<close>

definition nested_config :: "string list \<Rightarrow> string \<Rightarrow> string" where
  "nested_config ps x = abs_of (ps @ [''.devcontainer'', x, ''devcontainer.json''])"

definition glob_ok :: "env \<Rightarrow> string list \<Rightarrow> bool" where
  "glob_ok e ps \<longleftrightarrow>
     (\<forall>cs. env_glob e (nested_config ps ''*'') = Some cs \<longrightarrow>
        (\<forall>c \<in> set cs. \<exists>x. abs_parts [x] \<and> c = nested_config ps x))"

lemma devcontainer_parts:
  "abs_parts [''.devcontainer'', ''devcontainer.json'']" "abs_parts [''.devcontainer.json'']"
  "abs_parts [''.devcontainer'', ''*'', ''devcontainer.json'']"
  by (simp_all add: abs_parts_def plain_part_def)

lemma abs_parts_append: "abs_parts (xs @ ys) \<longleftrightarrow> abs_parts xs \<and> abs_parts ys"
  by (auto simp: abs_parts_def)

lemma abs_path_abs_of: "abs_parts ps \<Longrightarrow> abs_path e (abs_of ps) = Some (abs_of ps)"
  by (simp add: abs_path_def clean_abs_of)

lemma discover_dir:
  assumes "env_stat e (abs_of ps) = Some IsDir" and "abs_parts ps" and "glob_ok e ps"
    and "discover e (abs_of ps) [] = Inr (c, f)"
  obtains (outer) "c = abs_of (ps @ [''.devcontainer'', ''devcontainer.json''])" "f = abs_of ps"
  | (dotfile) "c = abs_of (ps @ [''.devcontainer.json''])" "f = abs_of ps"
  | (nested) x where "abs_parts [x]" "c = nested_config ps x" "f = abs_of ps"
proof -
  have joins: "path_join [abs_of ps, ''.devcontainer'', ''devcontainer.json''] =
      abs_of (ps @ [''.devcontainer'', ''devcontainer.json''])"
    "path_join [abs_of ps, ''.devcontainer.json''] = abs_of (ps @ [''.devcontainer.json''])"
    "path_join [abs_of ps, ''.devcontainer'', ''*'', ''devcontainer.json''] = nested_config ps ''*''"
    using assms(2) devcontainer_parts by (simp_all add: path_join_below nested_config_def)
  consider "c \<in> {abs_of (ps @ [''.devcontainer'', ''devcontainer.json'']),
        abs_of (ps @ [''.devcontainer.json''])}" "f = abs_of ps"
    | "env_glob e (nested_config ps ''*'') = Some [c]" "f = abs_of ps"
    using assms(1,4)
    by (auto simp: discover_def abs_path_abs_of [OF assms(2)] joins
        split: if_splits option.splits list.splits)
  then show ?thesis
  proof cases
    case 1
    then show ?thesis using outer dotfile by blast
  next
    case 2
    then obtain x where "abs_parts [x]" "c = nested_config ps x"
      using assms(3) unfolding glob_ok_def by fastforce
    with 2 show ?thesis using nested by blast
  qed
qed

lemma local_folder_outer:
  "abs_parts ps \<Longrightarrow>
   local_workspace_folder (abs_of (ps @ [''.devcontainer'', ''devcontainer.json''])) = abs_of ps"
  using dir_abs_of [of "ps @ [''.devcontainer'']" "''devcontainer.json''"]
    dir_abs_of [of ps "''.devcontainer''"] base_abs_of [of ps "''.devcontainer''"] devcontainer_parts
  by (simp add: local_workspace_folder_def Let_def abs_parts_append) (simp add: abs_parts_def)

lemma base_other:
  assumes "abs_parts ps" and "x \<notin> set ps" and "x \<noteq> ''/''"
  shows "base (abs_of ps) \<noteq> x"
proof (cases ps rule: rev_cases)
  case Nil
  have "base ''/'' = ''/''" by code_simp
  with Nil assms(3) show ?thesis by (simp add: abs_of_def)
next
  case (snoc qs q)
  then show ?thesis using assms base_abs_of [of qs q] by auto
qed

lemma dir_prefix: "abs_parts ps \<Longrightarrow> \<exists>qs. dir (abs_of ps) = abs_of qs \<and> abs_parts qs \<and> set qs \<subseteq> set ps"
proof (cases ps rule: rev_cases)
  case Nil
  then show ?thesis by (intro exI [of _ "[]"]) (simp add: abs_of_def abs_parts_def, code_simp)
next
  case (snoc qs q)
  then show "abs_parts ps \<Longrightarrow> ?thesis"
    using dir_abs_of [of qs q] by (intro exI [of _ qs]) (auto simp: abs_parts_append)
qed

lemma local_folder_dotfile:
  assumes "abs_parts ps" and "''.devcontainer'' \<notin> set ps"
  shows "local_workspace_folder (abs_of (ps @ [''.devcontainer.json''])) = abs_of ps"
proof -
  obtain qs where qs: "dir (abs_of ps) = abs_of qs" "abs_parts qs" "set qs \<subseteq> set ps"
    using dir_prefix [OF assms(1)] by blast
  have "base (abs_of ps) \<noteq> ''.devcontainer''" "base (abs_of qs) \<noteq> ''.devcontainer''"
    using assms qs base_other [OF assms(1), of "''.devcontainer''"]
      base_other [OF qs(2), of "''.devcontainer''"] by auto
  then show ?thesis
    using dir_abs_of [of ps "''.devcontainer.json''"] assms(1) devcontainer_parts qs(1)
    by (simp add: local_workspace_folder_def Let_def abs_parts_append)
qed

lemma local_folder_nested:
  assumes "abs_parts ps" and "abs_parts [x]" and "x \<noteq> ''.devcontainer''"
  shows "local_workspace_folder (nested_config ps x) = abs_of ps"
proof -
  have parts: "abs_parts ((ps @ [''.devcontainer'', x]) @ [''devcontainer.json''])"
    "abs_parts ((ps @ [''.devcontainer'']) @ [x])" "abs_parts (ps @ [''.devcontainer''])"
    using assms by (auto simp: abs_parts_def plain_part_def)
  show ?thesis
    using dir_abs_of [OF parts(1)] dir_abs_of [OF parts(2)] dir_abs_of [OF parts(3)]
      base_abs_of [OF parts(2)] base_abs_of [OF parts(3)] assms(3)
    by (simp add: local_workspace_folder_def Let_def nested_config_def)
qed

lemma discover_first:
  assumes "env_stat e (abs_of ps) = Some IsDir" and "abs_parts ps" and "discover e (abs_of ps) [] = Inr (c, f)"
  shows "if file_exists e (abs_of (ps @ [''.devcontainer'', ''devcontainer.json''])) then
        c = abs_of (ps @ [''.devcontainer'', ''devcontainer.json''])
      else if file_exists e (abs_of (ps @ [''.devcontainer.json''])) then c = abs_of (ps @ [''.devcontainer.json''])
      else env_glob e (nested_config ps ''*'') = Some [c]"
proof -
  have "path_join [abs_of ps, ''.devcontainer'', ''devcontainer.json''] = abs_of (ps @ [''.devcontainer'', ''devcontainer.json''])"
    "path_join [abs_of ps, ''.devcontainer.json''] = abs_of (ps @ [''.devcontainer.json''])"
    "path_join [abs_of ps, ''.devcontainer'', ''*'', ''devcontainer.json''] = nested_config ps ''*''"
    using assms(2) devcontainer_parts by (simp_all add: path_join_below nested_config_def)
  with assms(1,3) show ?thesis
    by (auto simp: discover_def abs_path_abs_of [OF assms(2)] split: if_splits option.splits list.splits)
qed

lemma discovered_folder:
  assumes "discover e (abs_of ps) [] = Inr (c, f)" and "env_stat e (abs_of ps) = Some IsDir"
    and "abs_parts ps" and "''.devcontainer'' \<notin> set ps"
    and "glob_ok e ps" and "c \<noteq> nested_config ps ''.devcontainer''"
  obtains cs where "c = abs_of cs" "abs_parts cs" "local_workspace_folder c = f"
  using assms(2,3,5,1)
proof (cases rule: discover_dir)
  case outer
  then show ?thesis using that [of "ps @ [''.devcontainer'', ''devcontainer.json'']"] local_folder_outer [OF assms(3)] assms(3)
    devcontainer_parts by (auto simp: abs_parts_append)
next
  case dotfile
  then show ?thesis using that [of "ps @ [''.devcontainer.json'']"] local_folder_dotfile [OF assms(3,4)] assms(3)
    devcontainer_parts by (auto simp: abs_parts_append)
next
  case (nested x)
  then have "x \<noteq> ''.devcontainer''" using assms(6) by auto
  moreover have "abs_parts (ps @ [''.devcontainer'', x, ''devcontainer.json''])"
    using nested(1) assms(3) by (auto simp: abs_parts_def plain_part_def)
  ultimately show ?thesis
    using that nested local_folder_nested [OF assms(3) nested(1)] by (auto simp: nested_config_def)
qed

text \<open>
  A path element \<open>.devcontainer\<close> of the project's own path misleads \<open>localWorkspaceFolder\<close>: the configuration is
  found, but named by its path it belongs to another folder.
\<close>

lemma folder_misled:
  "local_workspace_folder ''/w/.devcontainer/app/.devcontainer.json'' = ''/w''"
  "env_stat e ''/w/.devcontainer/app'' = Some IsDir \<Longrightarrow>
   file_exists e ''/w/.devcontainer/app/.devcontainer.json'' \<Longrightarrow>
   \<not> file_exists e ''/w/.devcontainer/app/.devcontainer/devcontainer.json'' \<Longrightarrow>
   discover e ''/w/.devcontainer/app'' [] = Inr (''/w/.devcontainer/app/.devcontainer.json'', ''/w/.devcontainer/app'')"
proof -
  show "local_workspace_folder ''/w/.devcontainer/app/.devcontainer.json'' = ''/w''" by code_simp
  have a: "is_abs ''/w/.devcontainer/app''" "clean ''/w/.devcontainer/app'' = ''/w/.devcontainer/app''"
    "path_join [''/w/.devcontainer/app'', ''.devcontainer'', ''devcontainer.json''] = ''/w/.devcontainer/app/.devcontainer/devcontainer.json''"
    "path_join [''/w/.devcontainer/app'', ''.devcontainer.json''] = ''/w/.devcontainer/app/.devcontainer.json''"
    by code_simp+
  assume "env_stat e ''/w/.devcontainer/app'' = Some IsDir"
    "file_exists e ''/w/.devcontainer/app/.devcontainer.json''"
    "\<not> file_exists e ''/w/.devcontainer/app/.devcontainer/devcontainer.json''"
  with a show "discover e ''/w/.devcontainer/app'' [] =
      Inr (''/w/.devcontainer/app/.devcontainer.json'', ''/w/.devcontainer/app'')"
    by (simp add: discover_def abs_path_def)
qed


definition sample_env :: env where
  "sample_env = \<lparr>env_cwd = Some ''/src'',
     env_stat = (\<lambda>p. if p = ''/src/app'' then Some IsDir
                     else if p = ''/src/app/.devcontainer/go/devcontainer.json'' then Some IsFile
                     else None),
     env_glob = (\<lambda>p. if p = ''/src/app/.devcontainer/*/devcontainer.json''
                     then Some [''/src/app/.devcontainer/go/devcontainer.json''] else Some []),
     env_read = (\<lambda>p. Some ''{}''), env_lookup = (\<lambda>_. None), env_home = None,
     env_parse = (\<lambda>_. Inr (DocObj [(''image'', '' '', JStr ''golang'')])), env_quote = (\<lambda>k. k)\<rparr>"


section \<open>The pipeline\<close>

text \<open>The working directory is absolute, and a glob for an absolute pattern gives absolute paths.\<close>

definition env_ok :: "env \<Rightarrow> bool" where
  "env_ok e \<longleftrightarrow> (\<forall>d. env_cwd e = Some d \<longrightarrow> is_abs d)
     \<and> (\<forall>p cs. is_abs p \<longrightarrow> env_glob e p = Some cs \<longrightarrow> (\<forall>c \<in> set cs. is_abs c))"

lemma is_abs_join: "is_abs b \<Longrightarrow> is_abs (path_join (b # ps))"
proof -
  assume b: "is_abs b"
  then have "b \<noteq> []" by (auto simp: is_abs_def)
  moreover have "is_abs (join ''/'' (b # ps))" using b by (cases ps) (auto simp: is_abs_def)
  ultimately show ?thesis by (simp add: path_join_def)
qed

lemma discover_abs:
  assumes "env_ok e" and "discover e path override = Inr (c, f)"
  shows "is_abs c"
proof -
  have abs: "abs_path e p = Some a \<Longrightarrow> is_abs a" for p a
    using assms(1) by (auto simp: abs_path_def env_ok_def is_abs_join split: if_splits)
  have glob: "env_glob e (path_join (a # ps)) = Some [c] \<Longrightarrow> is_abs a \<Longrightarrow> is_abs c" for a ps
    using assms(1) is_abs_join [of a ps] unfolding env_ok_def by (metis list.set_intros(1))
  show ?thesis
    using assms(2) abs glob
    by (auto simp: discover_def is_abs_join split: if_splits option.splits node.splits list.splits)
qed

lemma load_Inr:
  assumes "load e path override = Inr l"
  shows "discover e path override = Inr (l_config_path l, l_local_folder l)"
    "l_warnings l = sort (map (unknown_warning e) (map_keys (r_extra (l_raw l))))"
  using assms by (auto simp: load_def split: sum.splits option.splits prod.splits json_failure.splits)

lemma load_spec_Inr:
  assumes "load_spec e path override = Inr (s, ws)"
  obtains l r where "load e path override = Inr l" "l_warnings l = ws"
    "substitute (l_local_folder l) (env_lookup e)
       (workspace_id (display_name (l_raw l) (l_local_folder l)) (l_local_folder l)) (l_raw l) = Inr r"
    "resolve (env_home e) (l\<lparr>l_raw := r\<rparr>) = Inr s"
  using assms by (auto simp: load_spec_def Let_def split: sum.splits)

text \<open>
  The whole pipeline delivers what later stages need, whatever the document: a \<open>Spec\<close> it returns is
  well formed, and the unknown properties of the document are reported, sorted, as warnings.
\<close>

lemma load_spec_wf:
  assumes "load_spec e path override = Inr (s, ws)" and "env_ok e"
  shows "wf_spec s \<and> sorted ws"
proof -
  obtain l r where l: "load e path override = Inr l" "l_warnings l = ws"
    "resolve (env_home e) (l\<lparr>l_raw := r\<rparr>) = Inr s"
    using load_spec_Inr [OF assms(1)] by metis
  have "is_abs (l_config_path l)" using discover_abs [OF assms(2) load_Inr(1) [OF l(1)]] .
  with resolved_spec_wf [OF l(3)] load_Inr(2) [OF l(1)] l(2) show ?thesis by auto
qed

definition sample_loaded :: loaded where
  "sample_loaded = \<lparr>l_config_path = ''/src/app/.devcontainer/go/devcontainer.json'',
     l_local_folder = ''/src/app'', l_raw = empty_raw\<lparr>r_image := ''golang''\<rparr>, l_warnings = []\<rparr>"

lemma sample_load:
  "load sample_env ''app'' [] = Inr sample_loaded"
  "substitute lf lookup wid (l_raw sample_loaded) = Inr (l_raw sample_loaded)"
  "\<exists>s. resolve h sample_loaded = Inr s"
proof -
  have "check_residual (l_raw sample_loaded) = Inr ()" by code_simp
  then show "substitute lf lookup wid (l_raw sample_loaded) = Inr (l_raw sample_loaded)"
    by (simp only: check_residual_ok substitute_stable)
  have "is_ok (resolve h sample_loaded)"
    unfolding resolve_ok_stages by (rule exI [of _ KindImage]) code_simp
  then show "\<exists>s. resolve h sample_loaded = Inr s" by (auto simp: is_ok_iff)
  show "load sample_env ''app'' [] = Inr sample_loaded" by code_simp
qed

lemma sample_env_ok: "env_ok sample_env"
  by (simp add: env_ok_def sample_env_def is_abs_def)

lemma sample_load_spec:
  assumes "p \<in> {''app'', ''/src/app''}"
  shows "\<exists>s. load_spec sample_env p [] = Inr (s, [])"
proof -
  have "load sample_env ''/src/app'' [] = load sample_env ''app'' []" by code_simp
  then have "load sample_env p [] = Inr sample_loaded" using assms sample_load(1) by auto
  moreover obtain s where "resolve (env_home sample_env) sample_loaded = Inr s" using sample_load(3) by blast
  ultimately show ?thesis using sample_load(2) by (simp add: load_spec_def Let_def sample_loaded_def)
qed

text \<open>
  The id a document reads as \<open>${devcontainerId}\<close> is the id of its \<open>Spec\<close>, provided the document's
  name contains no variable of its own. (With one, the two differ, see below: the first is computed
  before the name is expanded, the second after.)
\<close>

lemma devcontainer_id_agrees:
  assumes "load e path override = Inr l" and "refs (r_name (l_raw l)) = []"
    and "substitute (l_local_folder l) (env_lookup e)
       (workspace_id (display_name (l_raw l) (l_local_folder l)) (l_local_folder l)) (l_raw l) = Inr r"
    and "resolve (env_home e) (l\<lparr>l_raw := r\<rparr>) = Inr s"
  shows "load_spec e path override = Inr (s, l_warnings l)
    \<and> s_id s = workspace_id (display_name (l_raw l) (l_local_folder l)) (l_local_folder l)"
proof -
  have "r_name r = r_name (l_raw l)" using assms(2,3) by (intro substitute_keeps_name) simp_all
  then have name: "display_name r (l_local_folder l) = display_name (l_raw l) (l_local_folder l)"
    by (simp add: display_name_def)
  obtain k s0 where "resolve_source (env_home e) (l\<lparr>l_raw := r\<rparr>) k s0 = Inr s"
      "s_id s0 = workspace_id (display_name r (l_local_folder l)) (l_local_folder l)"
    using assms(4) by (fastforce simp: resolve_def Let_def split: sum.splits option.splits)
  then have "s_id s = workspace_id (display_name r (l_local_folder l)) (l_local_folder l)"
    by (auto simp: resolve_source_def Let_def split: sum.splits if_splits)
  with name assms show ?thesis by (simp add: load_spec_def Let_def)
qed

lemma devcontainer_id_agrees_witness:
  "\<exists>s. load_spec sample_env ''app'' [] = Inr (s, []) \<and> s_id s = workspace_id ''app'' ''/src/app''"
proof -
  obtain s where s: "resolve (env_home sample_env) sample_loaded = Inr s" using sample_load(3) by blast
  have "refs (r_name (l_raw sample_loaded)) = []" by code_simp
  moreover have "display_name (l_raw sample_loaded) (l_local_folder sample_loaded) = ''app''"
    "l_local_folder sample_loaded = ''/src/app''" "l_warnings sample_loaded = []" by code_simp+
  moreover have "sample_loaded\<lparr>l_raw := l_raw sample_loaded\<rparr> = sample_loaded" by simp
  ultimately show ?thesis
    using devcontainer_id_agrees [OF sample_load(1) _ sample_load(2), of s] s by simp
qed

lemma devcontainer_id_differs:
  "let r = empty_raw\<lparr>r_name := ''${localWorkspaceFolderBasename}''\<rparr>; r' = empty_raw\<lparr>r_name := ''app''\<rparr> in
   substitute ''/src/app'' (\<lambda>_. None) ''x'' r = Inr r'
   \<and> workspace_id (display_name r' ''/src/app'') ''/src/app''
      \<noteq> workspace_id (display_name r ''/src/app'') ''/src/app''"
proof -
  let ?r = "empty_raw\<lparr>r_name := ''${localWorkspaceFolderBasename}''\<rparr>" and ?r' = "empty_raw\<lparr>r_name := ''app''\<rparr>"
  have "substitute ''/src/app'' (\<lambda>_. None) ''x'' ?r = Inr ?r'" by code_simp
  moreover have "slug (display_name ?r' ''/src/app'') = ''app''"
    "slug (display_name ?r ''/src/app'') = ''localworkspacefolderbasename''" by code_simp+
  ultimately show ?thesis by (simp add: workspace_id_def Let_def)
qed

end
