(* ===== verification/Runtime.thy ===== *)
theory Runtime
  imports GoStrings GoPath
begin

text \<open>
  Package \<open>runtime\<close>: the \<open>Runner\<close> interface and its two implementations. A process is run by the
  operating system: the oracle \<open>proc\<close> gives the response to a call from the calls made before it, so
  any sequence of behaviours of the container CLI is some oracle. The world records the calls.
\<close>

section \<open>Processes\<close>

record call =
  c_bin :: string
  c_args :: "string list"
  c_stdin :: string

text \<open>\<open>rs_fail\<close> is the text of the process error, \<open>None\<close> for exit status 0.\<close>

record response =
  rs_out :: string
  rs_err :: string
  rs_fail :: "string option"

type_synonym proc = "call list \<Rightarrow> call \<Rightarrow> response"

record world =
  w_calls :: "call list"

definition exec_call :: "proc \<Rightarrow> call \<Rightarrow> 'z world_scheme \<Rightarrow> response \<times> 'z world_scheme" where
  "exec_call p c w = (p (w_calls w) c, w\<lparr>w_calls := w_calls w @ [c]\<rparr>)"

section \<open>The interface\<close>

datatype runner_error = RunnerFailed string | NoSuchObject string | DecodeInspect string

text \<open>
  A \<open>Runner\<close> value: its operations on a state \<open>'w\<close>. \<open>Output\<close> returns what was printed even when it
  fails. \<open>Inspect\<close> is specialised to the type \<open>'v\<close> it decodes into.
\<close>

record ('w, 'v) runner_ops =
  ro_name :: string
  ro_run :: "string list \<Rightarrow> string \<Rightarrow> 'w \<Rightarrow> runner_error option \<times> 'w"
  ro_output :: "string list \<Rightarrow> 'w \<Rightarrow> (string \<times> runner_error option) \<times> 'w"
  ro_inspect :: "string \<Rightarrow> 'w \<Rightarrow> (runner_error + 'v) \<times> 'w"

definition inspect_args :: "string \<Rightarrow> string list" where
  "inspect_args ref = [''inspect'', ''--format'', ''{{json .}}'', ref]"

text \<open>
  \<open>isNoSuchObject\<close> looks at the error's text. The text of \<open>ErrNoSuchObject\<close> is itself one of the
  messages it looks for.
\<close>

fun error_text :: "runner_error \<Rightarrow> string" where
  "error_text (RunnerFailed t) = t"
| "error_text (NoSuchObject ref) = DQ # ref @ [DQ] @ '': no such object''"
| "error_text (DecodeInspect ref) = ''decode inspect of '' @ DQ # ref @ [DQ]"

definition says_no_such_object :: "string \<Rightarrow> bool" where
  "says_no_such_object t =
     (let s = to_lower t in
      contains s ''no such object'' \<or> contains s ''no such container'' \<or> contains s ''no such image''
      \<or> contains s ''error: no such'' \<or> contains s ''unable to find'')"

definition is_no_such_object :: "runner_error \<Rightarrow> bool" where
  "is_no_such_object e = says_no_such_object (error_text e)"

text \<open>
  What callers rely on: each operation makes exactly one invocation, with the arguments it was given
  (as \<open>stamp\<close> records them), after those made before.
\<close>

locale runner =
  fixes r :: "('w, 'v) runner_ops"
    and calls :: "'w \<Rightarrow> 'c list"
    and stamp :: "string list \<Rightarrow> 'c"
  assumes run_calls: "calls (snd (ro_run r args stdin w)) = calls w @ [stamp args]"
    and output_calls: "calls (snd (ro_output r args w)) = calls w @ [stamp args]"
    and inspect_calls: "calls (snd (ro_inspect r ref w)) = calls w @ [stamp (inspect_args ref)]"

context runner
begin

text \<open>Between two states at most \<open>n\<close> invocations were made, all satisfying \<open>P\<close>.\<close>

definition made :: "(string list \<Rightarrow> bool) \<Rightarrow> nat \<Rightarrow> 'w \<Rightarrow> 'w \<Rightarrow> bool" where
  "made P n w w' \<longleftrightarrow> (\<exists>cs. calls w' = calls w @ map stamp cs \<and> length cs \<le> n \<and> list_all P cs)"

lemma made_refl [simp]: "made P n w w"
  unfolding made_def by (rule exI [of _ "[]"]) simp

lemma made_trans: "made P m w w1 \<Longrightarrow> made P n w1 w2 \<Longrightarrow> made P (m + n) w w2"
  unfolding made_def by (elim exE, rule_tac x = "cs @ csa" in exI) auto

lemma made_mono: "made P m w w' \<Longrightarrow> m \<le> n \<Longrightarrow> made P n w w'"
  unfolding made_def by (meson order_trans)

lemma made_output: "P args \<Longrightarrow> ro_output r args w = (x, w') \<Longrightarrow> made P (Suc 0) w w'"
  using output_calls [of args w] unfolding made_def by (intro exI [of _ "[args]"]) simp

lemma made_run: "P args \<Longrightarrow> ro_run r args stdin w = (x, w') \<Longrightarrow> made P (Suc 0) w w'"
  using run_calls [of args stdin w] unfolding made_def by (intro exI [of _ "[args]"]) simp

lemma made_inspect: "P (inspect_args ref) \<Longrightarrow> ro_inspect r ref w = (x, w') \<Longrightarrow> made P (Suc 0) w w'"
  using inspect_calls [of ref w] unfolding made_def by (intro exI [of _ "[inspect_args ref]"]) simp

end

section \<open>CLIRunner\<close>

record cli =
  cli_bin :: string
  cli_base :: "string list"

definition after_last_slash :: "string \<Rightarrow> string" where
  "after_last_slash s = rev (takeWhile (\<lambda>c. c \<noteq> CHR ''/'') (rev s))"

definition cli_name :: "cli \<Rightarrow> string" where
  "cli_name c = after_last_slash (cli_bin c)"

definition cli_argv :: "cli \<Rightarrow> string list \<Rightarrow> string list" where
  "cli_argv c args = cli_base c @ args"

definition cli_exec :: "proc \<Rightarrow> cli \<Rightarrow> string list \<Rightarrow> string \<Rightarrow> 'z world_scheme \<Rightarrow> response \<times> 'z world_scheme" where
  "cli_exec p c args stdin w =
     exec_call p \<lparr>c_bin = cli_bin c, c_args = cli_argv c args, c_stdin = stdin\<rparr> w"

definition cli_run :: "proc \<Rightarrow> cli \<Rightarrow> string list \<Rightarrow> string \<Rightarrow> 'z world_scheme
    \<Rightarrow> runner_error option \<times> 'z world_scheme" where
  "cli_run p c args stdin w =
     (case cli_exec p c args stdin w of (rs, w') \<Rightarrow> (map_option RunnerFailed (rs_fail rs), w'))"

definition cli_output :: "proc \<Rightarrow> cli \<Rightarrow> string list \<Rightarrow> 'z world_scheme
    \<Rightarrow> (string \<times> runner_error option) \<times> 'z world_scheme" where
  "cli_output p c args w =
     (case cli_exec p c args [] w of (rs, w') \<Rightarrow>
        (case rs_fail rs of
           None \<Rightarrow> ((rs_out rs, None), w')
         | Some e \<Rightarrow>
             let msg = trim_space (rs_err rs);
                 head = cli_name c @ '' '' @ join '' '' args @ '': '' @ e
             in ((rs_out rs, Some (RunnerFailed (if msg = [] then head else head @ '': '' @ msg))), w')))"

definition cli_inspect :: "(string \<Rightarrow> 'v option) \<Rightarrow> proc \<Rightarrow> cli \<Rightarrow> string \<Rightarrow> 'z world_scheme
    \<Rightarrow> (runner_error + 'v) \<times> 'z world_scheme" where
  "cli_inspect decode p c ref w =
     (case cli_output p c (inspect_args ref) w of ((out, err), w') \<Rightarrow>
        (case err of
           Some e \<Rightarrow> (Inl (if is_no_such_object e then NoSuchObject ref else e), w')
         | None \<Rightarrow>
             let t = trim_space out in
             if t = [] \<or> t = ''null'' then (Inl (NoSuchObject ref), w')
             else (case decode t of
                     None \<Rightarrow> (Inl (DecodeInspect ref), w')
                   | Some v \<Rightarrow> (Inr v, w'))))"

definition cli_ops :: "(string \<Rightarrow> 'v option) \<Rightarrow> proc \<Rightarrow> cli \<Rightarrow> ('z world_scheme, 'v) runner_ops" where
  "cli_ops decode p c =
     \<lparr>ro_name = cli_name c, ro_run = cli_run p c, ro_output = cli_output p c,
      ro_inspect = cli_inspect decode p c\<rparr>"

lemma cli_output_world: "snd (cli_output p c args w) = snd (cli_exec p c args [] w)"
  by (simp add: cli_output_def Let_def split: prod.split option.split)

lemma cli_inspect_world: "snd (cli_inspect d p c ref w) = snd (cli_output p c (inspect_args ref) w)"
  by (simp add: cli_inspect_def Let_def split: prod.split option.split)

lemma cli_exec_calls: "map c_args (w_calls (snd (cli_exec p c args stdin w))) =
    map c_args (w_calls w) @ [cli_argv c args]"
  by (simp add: cli_exec_def exec_call_def)

interpretation cli: runner "cli_ops decode p c" "\<lambda>w. map c_args (w_calls w)" "cli_argv c"
  for decode p c
  by unfold_locales
    (simp_all add: cli_ops_def cli_inspect_world cli_output_world cli_exec_calls cli_run_def
      split_beta)

text \<open>What \<open>made\<close> says of a \<open>CLIRunner\<close>: which argument lists its binary was run with.\<close>

definition cli_made :: "cli \<Rightarrow> (string list \<Rightarrow> bool) \<Rightarrow> nat \<Rightarrow> 'z world_scheme \<Rightarrow> 'z world_scheme \<Rightarrow> bool" where
  "cli_made c P n w w' \<longleftrightarrow>
     (\<exists>cs. map c_args (w_calls w') = map c_args (w_calls w) @ map (cli_argv c) cs
        \<and> length cs \<le> n \<and> list_all P cs)"

lemma cli_made_iff: "runner.made (\<lambda>w. map c_args (w_calls w)) (cli_argv c) P n w w' \<longleftrightarrow> cli_made c P n w w'"
  by (simp add: cli.made_def cli_made_def)

section \<open>FakeRunner\<close>

record fake =
  f_bin :: string
  f_calls :: "string list list"
  f_output :: "(string list \<Rightarrow> string \<times> runner_error option) option"
  f_run_err :: "runner_error option"
  f_run :: "(string list \<Rightarrow> string \<Rightarrow> runner_error option) option"

definition fake_record :: "string list \<Rightarrow> fake \<Rightarrow> fake" where
  "fake_record args f = f\<lparr>f_calls := f_calls f @ [args]\<rparr>"

definition fake_run :: "string list \<Rightarrow> string \<Rightarrow> fake \<Rightarrow> runner_error option \<times> fake" where
  "fake_run args stdin f =
     ((case f_run f of Some g \<Rightarrow> g args stdin | None \<Rightarrow> f_run_err f), fake_record args f)"

definition fake_output :: "string list \<Rightarrow> fake \<Rightarrow> (string \<times> runner_error option) \<times> fake" where
  "fake_output args f =
     ((case f_output f of Some g \<Rightarrow> g args | None \<Rightarrow> ([], None)), fake_record args f)"

definition fake_inspect :: "(string \<Rightarrow> 'v option) \<Rightarrow> string \<Rightarrow> fake \<Rightarrow> (runner_error + 'v) \<times> fake" where
  "fake_inspect decode ref f =
     ((case f_output f of
         None \<Rightarrow> Inl (NoSuchObject ref)
       | Some g \<Rightarrow>
           (case g (inspect_args ref) of (out, err) \<Rightarrow>
              (case err of
                 Some e \<Rightarrow> Inl e
               | None \<Rightarrow>
                   if out = [] then Inl (NoSuchObject ref)
                   else (case decode out of None \<Rightarrow> Inl (DecodeInspect ref) | Some v \<Rightarrow> Inr v)))),
      fake_record (inspect_args ref) f)"

definition fake_ops :: "(string \<Rightarrow> 'v option) \<Rightarrow> fake \<Rightarrow> (fake, 'v) runner_ops" where
  "fake_ops decode f =
     \<lparr>ro_name = (if f_bin f = [] then ''podman'' else f_bin f), ro_run = fake_run,
      ro_output = fake_output, ro_inspect = fake_inspect decode\<rparr>"

definition last_call :: "fake \<Rightarrow> string list option" where
  "last_call f = (if f_calls f = [] then None else Some (last (f_calls f)))"

definition call_strings :: "fake \<Rightarrow> string list" where
  "call_strings f = map (join '' '') (f_calls f)"

lemma last_call_record: "last_call (fake_record args f) = Some args"
  by (simp add: last_call_def fake_record_def)

definition find_call :: "string \<Rightarrow> fake \<Rightarrow> string list option" where
  "find_call verb f = find (\<lambda>c. c \<noteq> [] \<and> hd c = verb) (f_calls f)"

interpretation fake: runner "fake_ops decode f" f_calls "\<lambda>args. args"
  for decode f
  by unfold_locales
    (simp_all add: fake_ops_def fake_run_def fake_output_def fake_inspect_def fake_record_def)

end
