(* ===== verification/Detect.thy ===== *)
theory Detect
  imports Runtime
begin

text \<open>
  Choosing the container runtime (\<open>runtime/detect.go\<close>) and the compose implementation
  (\<open>runtime/compose.go\<close>) with its on-disk cache. The record \<open>host\<close> holds what the code asks the
  operating system: the environment (empty for unset), \<open>exec.LookPath\<close>, size and modification time of
  a file, the home and cache directories, and whether a cache file can be written. A cache is the
  map from path to the decoded entry; a missing or undecodable file is no entry.
\<close>

record host =
  ho_env :: "string \<Rightarrow> string"
  ho_look :: "string \<Rightarrow> string option"
  ho_stat :: "string \<Rightarrow> (int \<times> int) option"
  ho_home :: "string option"
  ho_cache_dir :: "string option"
  ho_cache_writable :: bool

datatype detect_error = RuntimeNotFound string | NoRuntime | EmptyComposeCmd | ComposeNotFound string
  | NoCompose | NoneResponded "string list"

section \<open>The runtime\<close>

definition detect :: "host \<Rightarrow> string \<Rightarrow> detect_error + cli" where
  "detect h prefer =
     (let prefer = (if prefer = [] then ho_env h ''DEVC_RUNTIME'' else prefer) in
      if prefer \<noteq> [] then
        (case ho_look h prefer of
           None \<Rightarrow> Inl (RuntimeNotFound prefer)
         | Some bin \<Rightarrow> Inr \<lparr>cli_bin = bin, cli_base = []\<rparr>)
      else
        (case ho_look h ''podman'' of
           Some bin \<Rightarrow> Inr \<lparr>cli_bin = bin, cli_base = []\<rparr>
         | None \<Rightarrow>
             (case ho_look h ''docker'' of
                Some bin \<Rightarrow> Inr \<lparr>cli_bin = bin, cli_base = []\<rparr>
              | None \<Rightarrow> Inl NoRuntime)))"

definition is_rootless_podman :: "('w, 'v) runner_ops \<Rightarrow> 'w \<Rightarrow> bool \<times> 'w" where
  "is_rootless_podman r w =
     (if ro_name r \<noteq> ''podman'' then (False, w)
      else (case ro_output r [''info'', ''--format'', ''{{.Host.Security.Rootless}}''] w of
              ((out, err), w') \<Rightarrow> (err = None \<and> trim_space out = ''true'', w')))"

text \<open>\<open>Version\<close>.\<close>

definition runtime_version :: "('w, 'v) runner_ops \<Rightarrow> 'w \<Rightarrow> (runner_error + string) \<times> 'w" where
  "runtime_version r w =
     (case ro_output r [''--version''] w of
        ((_, Some e), w') \<Rightarrow> (Inl e, w')
      | ((out, None), w') \<Rightarrow> (Inr (trim_space out), w'))"

section \<open>Compose candidates\<close>

record compose =
  cp_cli :: cli
  cp_label :: string

type_synonym candidate = "string \<times> string list \<times> string"

definition candidates_for :: "string \<Rightarrow> candidate list" where
  "candidates_for runtime_name =
     (let podman = [(''podman'', [''compose''], ''podman compose''), (''podman-compose'', [], ''podman-compose'')];
          docker = [(''docker'', [''compose''], ''docker compose''), (''docker-compose'', [], ''docker-compose'')]
      in if runtime_name = ''docker'' then docker @ podman else podman @ docker)"

definition compose_plugin_dirs :: "string list" where
  "compose_plugin_dirs =
    [''/usr/local/lib/docker/cli-plugins'', ''/usr/local/libexec/docker/cli-plugins'',
     ''/usr/lib/docker/cli-plugins'', ''/usr/libexec/docker/cli-plugins'']"

definition stat_line :: "host \<Rightarrow> string \<Rightarrow> string" where
  "stat_line h p =
     (case ho_stat h p of
        None \<Rightarrow> []
      | Some (bytes, mtime) \<Rightarrow> p @ '':'' @ itoa bytes @ '':'' @ itoa mtime @ [LF])"

text \<open>The loop over the candidates: each binary once, on PATH or missing.\<close>

definition candidate_line :: "host \<Rightarrow> string \<Rightarrow> string" where
  "candidate_line h bin =
     (case ho_look h bin of Some p \<Rightarrow> stat_line h p | None \<Rightarrow> bin @ '':-'' @ [LF])"

definition compose_fingerprint :: "host \<Rightarrow> candidate list \<Rightarrow> string" where
  "compose_fingerprint h cands =
     (let bins = rev (remdups (rev (map fst cands)));
          dirs = (if ho_env h ''DOCKER_CONFIG'' \<noteq> []
                  then path_join [ho_env h ''DOCKER_CONFIG'', ''cli-plugins''] # compose_plugin_dirs
                  else (case ho_home h of
                          Some home \<Rightarrow> path_join [home, ''.docker'', ''cli-plugins''] # compose_plugin_dirs
                        | None \<Rightarrow> compose_plugin_dirs))
      in concat (map (candidate_line h) bins)
         @ concat (map (\<lambda>d. stat_line h (path_join [d, ''docker-compose''])) dirs)
         @ ''PODMAN_COMPOSE_PROVIDER='' @ ho_env h ''PODMAN_COMPOSE_PROVIDER'' @ [LF]
         @ ''PATH='' @ ho_env h ''PATH'' @ [LF])"

section \<open>The cache\<close>

record cache_entry =
  ce_fingerprint :: string
  ce_bin :: string
  ce_base :: "string list"
  ce_label :: string

type_synonym cache = "string \<Rightarrow> cache_entry option"

definition compose_cache_path :: "host \<Rightarrow> string \<Rightarrow> string option" where
  "compose_cache_path h runtime_name =
     map_option (\<lambda>d. path_join [d, ''devc'', ''compose-'' @ base runtime_name @ ''.json'']) (ho_cache_dir h)"

definition load_compose_cache :: "host \<Rightarrow> cache \<Rightarrow> string \<Rightarrow> string \<Rightarrow> compose option" where
  "load_compose_cache h ca runtime_name fingerprint =
     (case compose_cache_path h runtime_name of
        None \<Rightarrow> None
      | Some p \<Rightarrow>
          (case ca p of
             None \<Rightarrow> None
           | Some e \<Rightarrow>
               if ce_fingerprint e \<noteq> fingerprint \<or> ce_bin e = [] then None
               else Some \<lparr>cp_cli = \<lparr>cli_bin = ce_bin e, cli_base = ce_base e\<rparr>, cp_label = ce_label e\<rparr>))"

definition save_compose_cache :: "host \<Rightarrow> string \<Rightarrow> string \<Rightarrow> compose \<Rightarrow> cache \<Rightarrow> cache" where
  "save_compose_cache h runtime_name fingerprint c ca =
     (case compose_cache_path h runtime_name of
        None \<Rightarrow> ca
      | Some p \<Rightarrow>
          if ho_cache_writable h
          then ca(p \<mapsto> \<lparr>ce_fingerprint = fingerprint, ce_bin = cli_bin (cp_cli c),
                       ce_base = cli_base (cp_cli c), ce_label = cp_label c\<rparr>)
          else ca)"

section \<open>DetectCompose\<close>

definition probe_compose :: "proc \<Rightarrow> compose \<Rightarrow> 'z world_scheme \<Rightarrow> bool \<times> 'z world_scheme" where
  "probe_compose p c w =
     (case cli_output p (cp_cli c) [''version''] w of ((out, err), w') \<Rightarrow> (err = None, w'))"

text \<open>The loop over the candidates: the first that responds, or the labels of those that did not.\<close>

fun probe_candidates :: "host \<Rightarrow> proc \<Rightarrow> candidate list \<Rightarrow> string list \<Rightarrow> 'z world_scheme
    \<Rightarrow> (string list + compose) \<times> 'z world_scheme" where
  "probe_candidates h p [] tried w = (Inl tried, w)"
| "probe_candidates h p ((bin, args, label) # cs) tried w =
     (case ho_look h bin of
        None \<Rightarrow> probe_candidates h p cs tried w
      | Some path \<Rightarrow>
          let c = \<lparr>cp_cli = \<lparr>cli_bin = path, cli_base = args\<rparr>, cp_label = label\<rparr> in
          (case probe_compose p c w of (ok, w') \<Rightarrow>
             if ok then (Inr c, w') else probe_candidates h p cs (tried @ [label]) w'))"

definition detect_compose :: "host \<Rightarrow> proc \<Rightarrow> string \<Rightarrow> string \<Rightarrow> 'z world_scheme \<times> cache
    \<Rightarrow> (detect_error + compose) \<times> ('z world_scheme \<times> cache)" where
  "detect_compose h p runtime_name override st =
     (let override = (if override = [] then ho_env h ''DEVC_COMPOSE'' else override) in
      if override \<noteq> [] then
        (case split_fields override of
           [] \<Rightarrow> (Inl EmptyComposeCmd, st)
         | f # fs \<Rightarrow>
             (case ho_look h f of
                None \<Rightarrow> (Inl (ComposeNotFound f), st)
              | Some bin \<Rightarrow>
                  (Inr \<lparr>cp_cli = \<lparr>cli_bin = bin, cli_base = fs\<rparr>, cp_label = override\<rparr>, st)))
      else
        (let cands = candidates_for runtime_name; fp = compose_fingerprint h cands in
         case st of (w, ca) \<Rightarrow>
         (case load_compose_cache h ca runtime_name fp of
            Some c \<Rightarrow> (Inr c, st)
          | None \<Rightarrow>
              (case probe_candidates h p cands [] w of
                 (Inr c, w') \<Rightarrow> (Inr c, (w', save_compose_cache h runtime_name fp c ca))
               | (Inl tried, w') \<Rightarrow>
                   (Inl (if tried = [] then NoCompose else NoneResponded tried), (w', ca))))))"

section \<open>Properties\<close>

lemma probe_candidates_bin:
  "probe_candidates h p cs tried w = (Inr c, w') \<Longrightarrow>
   \<exists>b \<in> fst ` set cs. ho_look h b = Some (cli_bin (cp_cli c))"
proof (induction cs arbitrary: tried w)
  case (Cons x cs)
  then show ?case
    by (cases x) (auto simp: Let_def split: option.splits prod.splits if_splits)
qed simp

lemma load_save_cache:
  assumes "ho_cache_writable h" and "ho_cache_dir h \<noteq> None" and "cli_bin (cp_cli c) \<noteq> []"
  shows "load_compose_cache h (save_compose_cache h rt fp c ca) rt fp' = (if fp' = fp then Some c else None)"
  using assms by (auto simp: load_compose_cache_def save_compose_cache_def compose_cache_path_def)

text \<open>
  C24: the compose probe runs once. After a detection that probed and found an implementation, the
  next detection for the same runtime on a host with the same installed binaries (the same
  fingerprint) returns the same implementation without running any process; for a host whose
  fingerprint differs the record is not used.
\<close>

theorem detect_compose_cached:
  assumes "detect_compose h p rt [] (w, ca) = (Inr c, (w', ca'))"
    and "ho_env h ''DEVC_COMPOSE'' = []" and "load_compose_cache h ca rt (compose_fingerprint h (candidates_for rt)) = None"
    and "ho_cache_writable h" and "ho_cache_dir h \<noteq> None" and "\<forall>b. ho_look h b \<noteq> Some []"
  shows "detect_compose h p' rt [] (w', ca') = (Inr c, (w', ca'))
    \<and> (fp = compose_fingerprint h (candidates_for rt) \<or> load_compose_cache h ca' rt fp = None)"
proof -
  obtain wp where probe: "probe_candidates h p (candidates_for rt) [] w = (Inr c, wp)"
    and ca': "ca' = save_compose_cache h rt (compose_fingerprint h (candidates_for rt)) c ca"
    using assms(1-3) by (auto simp: detect_compose_def Let_def split: prod.splits sum.splits)
  have "cli_bin (cp_cli c) \<noteq> []" using probe_candidates_bin [OF probe] assms(6) by auto
  note load = load_save_cache [OF assms(4,5) this]
  show ?thesis using assms(2) by (auto simp: detect_compose_def Let_def ca' load)
qed

lemma load_empty_cache [simp]: "load_compose_cache h (\<lambda>_. None) rt fp = None"
  by (simp add: load_compose_cache_def split: option.split)

text \<open>A host with both runtimes, of which only \<open>docker compose\<close> responds.\<close>

definition sample_host :: host where
  "sample_host = \<lparr>ho_env = (\<lambda>k. if k = ''PATH'' then ''/bin'' else []),
     ho_look = (\<lambda>b. if b = ''docker'' \<or> b = ''podman'' then Some (''/bin/'' @ b) else None),
     ho_stat = (\<lambda>_. Some (10, 20)), ho_home = None, ho_cache_dir = Some ''/c'', ho_cache_writable = True\<rparr>"

definition sample_proc :: proc where
  "sample_proc h c = \<lparr>rs_out = [], rs_err = [], rs_fail = (if c_bin c = ''/bin/docker'' then None else Some ''x'')\<rparr>"

lemma detect_compose_cached_witness:
  "let first = detect_compose sample_host sample_proc ''podman'' [] (\<lparr>w_calls = []\<rparr>, \<lambda>_. None);
       second = detect_compose sample_host sample_proc ''podman'' [] (snd first)
   in fst first = Inr \<lparr>cp_cli = \<lparr>cli_bin = ''/bin/docker'', cli_base = [''compose'']\<rparr>, cp_label = ''docker compose''\<rparr>
      \<and> length (w_calls (fst (snd first))) = 2 \<and> second = first"
proof -
  let ?w = "\<lparr>w_calls = []\<rparr> :: world"
  let ?c = "\<lparr>cp_cli = \<lparr>cli_bin = ''/bin/docker'', cli_base = [''compose'']\<rparr>, cp_label = ''docker compose''\<rparr>"
  let ?probe = "probe_candidates sample_host sample_proc (candidates_for ''podman'') [] ?w"
  have "fst ?probe = Inr ?c \<and> length (w_calls (snd ?probe)) = 2"
    by (simp add: sample_host_def sample_proc_def candidates_for_def probe_compose_def cli_output_def
        cli_exec_def exec_call_def)
  then obtain w2 where w2: "?probe = (Inr ?c, w2)" "length (w_calls w2) = 2" by (cases ?probe) auto
  have env: "ho_env sample_host ''DEVC_COMPOSE'' = []" "ho_cache_writable sample_host"
    "ho_cache_dir sample_host \<noteq> None" "\<forall>b. ho_look sample_host b \<noteq> Some []"
    by (simp_all add: sample_host_def)
  obtain ca' where first: "detect_compose sample_host sample_proc ''podman'' [] (?w, \<lambda>_. None) = (Inr ?c, (w2, ca'))"
    using w2(1) env(1) by (simp add: detect_compose_def Let_def)
  have "detect_compose sample_host sample_proc ''podman'' [] (w2, ca') = (Inr ?c, (w2, ca'))"
    using detect_compose_cached [OF first env(1) load_empty_cache env(2-4)] by blast
  with first w2(2) show ?thesis by (simp add: Let_def)
qed

end
