(* ===== verification/Flags.thy ===== *)
theory Flags
  imports GoStrings
begin

text \<open>
  Go's package \<open>flag\<close> as devc uses it: a flag set is a list of declarations, a flag sets a variable (two
  flags may share one, as \<open>--name\<close> and \<open>-n\<close> do), and the value of a variable is kept as the text
  \<open>Value.String\<close> returns for it. The usage texts are those of the declarations.
\<close>

datatype flag_kind = StringFlag | BoolFlag | OptionalBoolFlag

record flag_decl =
  fl_name :: string
  fl_kind :: flag_kind
  fl_var :: string
  fl_default :: string
  fl_usage :: string

type_synonym flag_set = "flag_decl list"
type_synonym flag_vars = "string gomap"

datatype flag_error = BadFlagSyntax string | UnknownFlag string | HelpRequested | NeedsArgument string
  | InvalidBool string

definition flag_string :: "string \<Rightarrow> string \<Rightarrow> string \<Rightarrow> flag_decl" where
  "flag_string name dflt usage =
     \<lparr>fl_name = name, fl_kind = StringFlag, fl_var = name, fl_default = dflt, fl_usage = usage\<rparr>"

definition flag_bool :: "string \<Rightarrow> string \<Rightarrow> flag_decl" where
  "flag_bool name usage =
     \<lparr>fl_name = name, fl_kind = BoolFlag, fl_var = name, fl_default = ''false'', fl_usage = usage\<rparr>"

definition is_bool_flag :: "flag_decl \<Rightarrow> bool" where
  "is_bool_flag f \<longleftrightarrow> fl_kind f \<noteq> StringFlag"

definition flag_lookup :: "flag_set \<Rightarrow> string \<Rightarrow> flag_decl option" where
  "flag_lookup fs name = find (\<lambda>f. fl_name f = name) fs"

definition flag_defaults :: "flag_set \<Rightarrow> flag_vars" where
  "flag_defaults fs = foldl (\<lambda>m f. map_put (fl_var f) (fl_default f) m) [] fs"

text \<open>\<open>strconv.ParseBool\<close> and \<open>strconv.FormatBool\<close>.\<close>

definition parse_bool :: "string \<Rightarrow> bool option" where
  "parse_bool s =
     (if s \<in> {''1'', ''t'', ''T'', ''true'', ''TRUE'', ''True''} then Some True
      else if s \<in> {''0'', ''f'', ''F'', ''false'', ''FALSE'', ''False''} then Some False
      else None)"

definition format_bool :: "bool \<Rightarrow> string" where
  "format_bool b = (if b then ''true'' else ''false'')"

lemma parse_format_bool [simp]: "parse_bool (format_bool b) = Some b"
  by (simp add: parse_bool_def format_bool_def)

text \<open>\<open>Value.Set\<close>: the \<open>bool\<close> of the library is set to false by a text that is no truth value.\<close>

fun set_flag :: "flag_kind \<Rightarrow> string \<Rightarrow> string \<Rightarrow> flag_vars \<Rightarrow> bool \<times> flag_vars" where
  "set_flag StringFlag var v m = (True, map_put var v m)"
| "set_flag BoolFlag var v m =
     (case parse_bool v of
        None \<Rightarrow> (False, map_put var (format_bool False) m)
      | Some b \<Rightarrow> (True, map_put var (format_bool b) m))"
| "set_flag OptionalBoolFlag var v m =
     (case parse_bool v of None \<Rightarrow> (False, m) | Some b \<Rightarrow> (True, map_put var (format_bool b) m))"

section \<open>Reading the arguments\<close>

text \<open>What a word is: an operand, the word \<open>--\<close>, a malformed flag, or a flag with the value after \<open>=\<close>.\<close>

datatype flag_word = Operand | Terminator | Malformed | Flag string "string option"

definition flag_word :: "string \<Rightarrow> flag_word" where
  "flag_word w =
     (if length w < 2 \<or> hd w \<noteq> CHR ''-'' then Operand
      else if w = ''--'' then Terminator
      else
        (let body = (if w ! 1 = CHR ''-'' then drop 2 w else drop 1 w) in
         if body = [] \<or> hd body = CHR ''-'' \<or> hd body = CHR ''='' then Malformed
         else (case cut body (CHR ''='') of (name, v, has_value) \<Rightarrow> Flag name (if has_value then Some v else None))))"

definition flag_value :: "flag_decl \<Rightarrow> string option \<Rightarrow> string list \<Rightarrow> (string \<times> string list) option" where
  "flag_value f v ws =
     (case v of
        Some s \<Rightarrow> Some (s, ws)
      | None \<Rightarrow>
          if is_bool_flag f then Some (''true'', ws)
          else (case ws of [] \<Rightarrow> None | s # ws' \<Rightarrow> Some (s, ws')))"

lemma flag_value_shorter: "flag_value f v ws = Some (s, ws') \<Longrightarrow> length ws' \<le> length ws"
  by (auto simp: flag_value_def split: option.splits if_splits list.splits)

text \<open>
  \<open>FlagSet.Parse\<close>: the error, the variables and the arguments that are left. An operand, or \<open>--\<close>, ends the
  flags. The value of a flag that needs one is the next argument, whatever it looks like.
\<close>

function flag_parse :: "flag_set \<Rightarrow> flag_vars \<Rightarrow> string list \<Rightarrow> flag_error option \<times> flag_vars \<times> string list" where
  "flag_parse fs m [] = (None, m, [])"
| "flag_parse fs m (w # ws) =
     (case flag_word w of
        Operand \<Rightarrow> (None, m, w # ws)
      | Terminator \<Rightarrow> (None, m, ws)
      | Malformed \<Rightarrow> (Some (BadFlagSyntax w), m, w # ws)
      | Flag name v \<Rightarrow>
          (case flag_lookup fs name of
             None \<Rightarrow> (Some (if name \<in> {''help'', ''h''} then HelpRequested else UnknownFlag name), m, ws)
           | Some f \<Rightarrow>
               (case flag_value f v ws of
                  None \<Rightarrow> (Some (NeedsArgument name), m, ws)
                | Some (s, ws') \<Rightarrow>
                    (case set_flag (fl_kind f) (fl_var f) s m of
                       (True, m') \<Rightarrow> flag_parse fs m' ws'
                     | (False, m') \<Rightarrow> (Some (InvalidBool s), m', ws')))))"
  by pat_completeness auto
termination
  by (relation "measure (\<lambda>(_, _, ws). length ws)") (auto dest: flag_value_shorter)

text \<open>A run of the parser on the declared defaults, and the truth of a flag.\<close>

definition parse_args :: "flag_set \<Rightarrow> string list \<Rightarrow> flag_error + flag_vars \<times> string list" where
  "parse_args fs ws =
     (case flag_parse fs (flag_defaults fs) ws of (Some e, _) \<Rightarrow> Inl e | (None, r) \<Rightarrow> Inr r)"

definition flag_on :: "flag_vars \<Rightarrow> string \<Rightarrow> bool" where
  "flag_on m var \<longleftrightarrow> map_get m var = ''true''"

section \<open>Words\<close>

lemma flag_word_long: "n \<noteq> [] \<Longrightarrow> hd n \<noteq> CHR ''-'' \<Longrightarrow> hd n \<noteq> CHR ''='' \<Longrightarrow>
    flag_word (''--'' @ n) = (case cut n (CHR ''='') of (k, v, b) \<Rightarrow> Flag k (if b then Some v else None))"
  by (cases n) (simp_all add: flag_word_def)

lemma flag_word_cases:
  obtains (operand) "flag_word w = Operand" "w = [] \<or> hd w \<noteq> CHR ''-'' \<or> w = ''-''"
  | (terminator) "flag_word w = Terminator" "w = ''--''"
  | (malformed) "flag_word w = Malformed"
  | (flag) body where "body \<noteq> []" "hd body \<noteq> CHR ''-''" "hd body \<noteq> CHR ''=''" "w = CHR ''-'' # body \<or> w = ''--'' @ body"
      "flag_word w = (case cut body (CHR ''='') of (k, v, b) \<Rightarrow> Flag k (if b then Some v else None))"
proof -
  show thesis
  proof (cases "length w < 2 \<or> hd w \<noteq> CHR ''-''")
    case True
    show thesis
    proof (rule operand)
      show "flag_word w = Operand" using True by (simp add: flag_word_def)
      show "w = [] \<or> hd w \<noteq> CHR ''-'' \<or> w = ''-''" using True by (cases w) (auto simp: less_Suc_eq_0_disj)
    qed
  next
    case False
    then obtain c rest where w: "w = CHR ''-'' # c # rest" by (cases w; cases "tl w") auto
    define body where "body = (if c = CHR ''-'' then rest else c # rest)"
    show thesis
    proof (cases "w = ''--''")
      case True
      then show thesis by (intro terminator) (simp_all add: flag_word_def)
    next
      case False
      have eq: "flag_word w = (if body = [] \<or> hd body = CHR ''-'' \<or> hd body = CHR ''='' then Malformed
          else (case cut body (CHR ''='') of (name, v, has_value) \<Rightarrow> Flag name (if has_value then Some v else None)))"
        using w False by (auto simp: flag_word_def body_def Let_def)
      show thesis
      proof (cases "body = [] \<or> hd body = CHR ''-'' \<or> hd body = CHR ''=''")
        case True
        then show thesis using eq by (intro malformed) simp
      next
        case ok: False
        then show thesis using eq w by (intro flag [of body]) (auto simp: body_def split: if_splits)
      qed
    qed
  qed
qed

end
