(* ===== verification/ContainerEnv.thy ===== *)
theory ContainerEnv
  imports ContainerArgs Runtime Flags
begin

text \<open>
  The environment that reaches a session: the probe of \<open>container/envprobe.go\<close>, the env file
  \<open>container/cp.go\<close> writes and \<open>readEnvFile\<close> of \<open>cmd/devc/serve.go\<close> reads inside the container, the
  agent's command line (\<open>AgentServeArgs\<close>) and its parsing there (\<open>runServe\<close>, package \<open>flag\<close>), and
  the injection of the agent into a container (\<open>Inject\<close>).
\<close>

section \<open>The env probe\<close>

fun probe_shell_flags :: "env_probe \<Rightarrow> string" where
  "probe_shell_flags EnvProbeLogin = ''-l''"
| "probe_shell_flags EnvProbeInteractive = ''-i''"
| "probe_shell_flags EnvProbeLoginInteractive = ''-li''"
| "probe_shell_flags EnvProbeNone = []"

definition skip_probed :: "string list" where
  "skip_probed = [''_'', ''SHLVL'', ''PWD'', ''OLDPWD'', ''XDG_RUNTIME_DIR'', ''SSH_AUTH_SOCK'',
     ''SSH_CONNECTION'', ''SSH_CLIENT'', ''SSH_TTY'', ''TERM'', ''GPG_TTY'']"

definition env_line :: "string gomap \<Rightarrow> string \<Rightarrow> string gomap" where
  "env_line env line =
     (if line = [] then env
      else (case cut line (CHR ''='') of (k, v, ok) \<Rightarrow>
              if \<not> ok \<or> k = [] \<or> k \<in> set skip_probed then env else map_put k v env))"

definition parse_env_output :: "string \<Rightarrow> string gomap" where
  "parse_env_output out = foldl env_line [] (split_on LF out)"

text \<open>\<open>ProbeEnv\<close>: \<open>None\<close> is the nil map, which an empty parse is too.\<close>

definition probe_env :: "('w, 'v) runner_ops \<Rightarrow> string \<Rightarrow> string \<Rightarrow> env_probe \<Rightarrow> 'w \<Rightarrow> string gomap \<times> 'w" where
  "probe_env r container user mode w =
     (if probe_shell_flags mode = [] then ([], w)
      else (case ro_output r (exec_args container user [] [] False False
                     [''/bin/sh'', probe_shell_flags mode, ''-c'', ''env'']) w of
              ((out, err), w') \<Rightarrow> (if err \<noteq> None then [] else parse_env_output out, w')))"

section \<open>The env file\<close>

definition env_file :: "string gomap \<Rightarrow> string" where
  "env_file env = concat (map (\<lambda>(k, v). k @ ''='' @ replace_byte LF '' '' v @ [LF]) (sorted_pairs env))"

text \<open>
  The lines of a \<open>bufio.Scanner\<close>: without their line feed and one carriage return before it; an empty
  last line is not a line. A line whose text fills the scanner's buffer of 65536 bytes before its line
  feed is seen ends the scan, silently.
\<close>

definition max_token :: nat where
  "max_token = 65536"

definition drop_cr :: "string \<Rightarrow> string" where
  "drop_cr s = (if s \<noteq> [] \<and> last s = CR then butlast s else s)"

definition raw_lines :: "string \<Rightarrow> string list" where
  "raw_lines s = (let ls = split_on LF s in if last ls = [] then butlast ls else ls)"

definition scan_lines :: "string \<Rightarrow> string list" where
  "scan_lines s = map drop_cr (takeWhile (\<lambda>l. length l < max_token) (raw_lines s))"

definition read_env_line :: "string gomap \<Rightarrow> string \<Rightarrow> string gomap" where
  "read_env_line env line =
     (case cut line (CHR ''='') of (k, v, ok) \<Rightarrow> if ok then map_put k v env else env)"

text \<open>\<open>None\<close> stands for a file that cannot be opened.\<close>

definition read_env_file :: "string option \<Rightarrow> string gomap" where
  "read_env_file file = (case file of None \<Rightarrow> [] | Some s \<Rightarrow> foldl read_env_line [] (scan_lines s))"

section \<open>The agent's command line\<close>

definition agent_dir :: string where "agent_dir = ''/.devc''"
definition agent_binary :: string where "agent_binary = agent_dir @ ''/agent''"
definition agent_host_key :: string where "agent_host_key = agent_dir @ ''/host_key''"
definition agent_auth_key :: string where "agent_auth_key = agent_dir @ ''/authorized_key''"
definition agent_env_file :: string where "agent_env_file = agent_dir @ ''/env''"
definition agent_dir_mode :: string where "agent_dir_mode = ''0711''"

definition agent_serve_args :: "string \<Rightarrow> string \<Rightarrow> string \<Rightarrow> bool \<Rightarrow> string list" where
  "agent_serve_args container user cwd forward =
     [''exec'', ''--interactive'', ''--user'', ''0'', container, agent_binary, ''__serve'',
      ''--host-key'', agent_host_key, ''--authorized'', agent_auth_key, ''--env-file'', agent_env_file]
     @ opt_flag ''--user'' user @ opt_flag ''--cwd'' cwd @ switch ''--forward-agent'' forward"

text \<open>The flags of \<open>runServe\<close>.\<close>

record serve_flags =
  sf_host_key :: string
  sf_authorized :: string
  sf_env_file :: string
  sf_user :: string
  sf_cwd :: string
  sf_forward_agent :: bool

datatype serve_error = ServeFlags flag_error | MissingKeys

definition serve_flag_set :: flag_set where
  "serve_flag_set =
     [flag_string ''host-key'' [] ''path to the agent host key'',
      flag_string ''authorized'' [] ''path to the authorized client public key(s)'',
      flag_string ''env-file'' [] ''path to a KEY=VALUE env file injected into sessions'',
      flag_string ''user'' [] ''OS user to run sessions as'',
      flag_string ''cwd'' [] ''working directory for sessions'',
      flag_bool ''forward-agent'' ''allow ssh-agent forwarding (auth-agent-req)'']"

definition serve_flags :: "flag_vars \<Rightarrow> serve_flags" where
  "serve_flags m = \<lparr>sf_host_key = map_get m ''host-key'', sf_authorized = map_get m ''authorized'',
     sf_env_file = map_get m ''env-file'', sf_user = map_get m ''user'', sf_cwd = map_get m ''cwd'',
     sf_forward_agent = flag_on m ''forward-agent''\<rparr>"

definition serve_options :: "string list \<Rightarrow> serve_error + serve_flags" where
  "serve_options args =
     (case parse_args serve_flag_set args of
        Inl e \<Rightarrow> Inl (ServeFlags e)
      | Inr (m, _) \<Rightarrow>
          let f = serve_flags m
          in if sf_host_key f = [] \<or> sf_authorized f = [] then Inl MissingKeys else Inr f)"

section \<open>Injection\<close>

definition prepare_script :: string where
  "prepare_script =
     ''set -e'' @ [LF]
     @ ''uname -m'' @ [LF]
     @ ''mkdir -p '' @ [DQ] @ ''$1'' @ [DQ] @ [LF]
     @ ''chmod '' @ [DQ] @ ''$2'' @ [DQ] @ '' '' @ [DQ] @ ''$1'' @ [DQ] @ [LF]
     @ [DQ] @ ''$1/agent'' @ [DQ] @ '' version 2>/dev/null || echo''"

definition secrets_script :: string where
  "secrets_script =
     ''set -e'' @ [LF]
     @ ''umask 077'' @ [LF]
     @ ''cd '' @ [DQ] @ ''$1'' @ [DQ] @ [LF]
     @ ''chmod 0755 agent'' @ [LF]
     @ ''for f in host_key:$2 authorized_key:$3 env:$4; do'' @ [LF]
     @ [TAB] @ ''name=${f%%:*}'' @ [LF]
     @ [TAB] @ ''dd bs=1 count='' @ [DQ] @ ''${f#*:}'' @ [DQ] @ '' of='' @ [DQ] @ ''$name.tmp'' @ [DQ] @ '' 2>/dev/null'' @ [LF]
     @ [TAB] @ ''chmod 0600 '' @ [DQ] @ ''$name.tmp'' @ [DQ] @ [LF]
     @ [TAB] @ ''mv -f '' @ [DQ] @ ''$name.tmp'' @ [DQ] @ '' '' @ [DQ] @ ''$name'' @ [DQ] @ [LF]
     @ ''done''"

definition root_exec :: "string \<Rightarrow> string list \<Rightarrow> string list" where
  "root_exec container cmd = [''exec'', ''--user'', ''0'', container] @ cmd"

definition normalize_arch :: "string \<Rightarrow> string" where
  "normalize_arch m =
     (if m = ''x86_64'' \<or> m = ''amd64'' then ''amd64''
      else if m = ''aarch64'' \<or> m = ''arm64'' then ''arm64''
      else if m = ''armv7l'' \<or> m = ''armv6l'' then ''arm''
      else m)"

definition arch_ok :: "string \<Rightarrow> string \<Rightarrow> bool" where
  "arch_ok uname host_arch \<longleftrightarrow>
     \<not> (host_arch \<noteq> [] \<and> normalize_arch uname \<noteq> [] \<and> normalize_arch uname \<noteq> host_arch)"

text \<open>
  \<open>InjectOptions\<close>, with what the host files hold: whether the agent binary exists, and the contents
  of the key files (\<open>None\<close> when unreadable).
\<close>

record inject_options =
  io_container :: string
  io_agent_source :: string
  io_source_exists :: bool
  io_host_arch :: string
  io_version :: string
  io_host_key :: "string option"
  io_auth_key :: "string option"
  io_env :: "string gomap"

datatype inject_error = PrepareFailed runner_error | ArchMismatch string string | SourceMissing string
  | CopyFailed runner_error | KeyUnreadable | SecretsFailed runner_error

definition secrets_args :: "inject_options \<Rightarrow> string \<Rightarrow> string \<Rightarrow> string list" where
  "secrets_args o' host_key auth_key =
     [''exec'', ''--interactive'', ''--user'', ''0'', io_container o', ''sh'', ''-c'', secrets_script, ''sh'',
      agent_dir, itoa (int (length host_key)), itoa (int (length auth_key)),
      itoa (int (length (env_file (io_env o'))))]"

definition write_secrets :: "('w, 'v) runner_ops \<Rightarrow> inject_options \<Rightarrow> 'w \<Rightarrow> inject_error option \<times> 'w" where
  "write_secrets r o' w =
     (case (io_host_key o', io_auth_key o') of
        (Some hk, Some ak) \<Rightarrow>
          (case ro_run r (secrets_args o' hk ak) (hk @ ak @ env_file (io_env o')) w of
             (err, w') \<Rightarrow> (map_option SecretsFailed err, w'))
      | _ \<Rightarrow> (Some KeyUnreadable, w))"

definition cp_into :: "('w, 'v) runner_ops \<Rightarrow> inject_options \<Rightarrow> 'w \<Rightarrow> inject_error option \<times> 'w" where
  "cp_into r o' w =
     (if \<not> io_source_exists o' then (Some (SourceMissing (io_agent_source o')), w)
      else (case ro_output r [''cp'', io_agent_source o', io_container o' @ '':'' @ agent_binary] w of
              ((_, err), w') \<Rightarrow> (map_option CopyFailed err, w')))"

definition inject :: "('w, 'v) runner_ops \<Rightarrow> inject_options \<Rightarrow> 'w \<Rightarrow> inject_error option \<times> 'w" where
  "inject r o' w =
     (case ro_output r (root_exec (io_container o')
              [''sh'', ''-c'', prepare_script, ''sh'', agent_dir, agent_dir_mode]) w of
        ((_, Some e), w1) \<Rightarrow> (Some (PrepareFailed e), w1)
      | ((out, None), w1) \<Rightarrow>
          (case cut out LF of (arch, installed, _) \<Rightarrow>
             let uname = trim_space arch in
             if \<not> arch_ok uname (io_host_arch o')
             then (Some (ArchMismatch (normalize_arch uname) (io_host_arch o')), w1)
             else if io_version o' = [] \<or> trim_space installed \<noteq> io_version o' then
               (case cp_into r o' w1 of
                  (Some e, w2) \<Rightarrow> (Some e, w2)
                | (None, w2) \<Rightarrow> write_secrets r o' w2)
             else write_secrets r o' w1))"

text \<open>
  The loop of \<open>secretsScript\<close> in the container: each file gets the next \<open>count\<close> bytes of the
  standard input, a count that is not a number ending the script (\<open>set -e\<close>).
\<close>

fun secrets_install :: "(string \<times> string) list \<Rightarrow> string \<Rightarrow> (string \<times> string) list option" where
  "secrets_install [] stdin = Some []"
| "secrets_install ((name, sz) # fs) stdin =
     (case parse_nat sz of
        None \<Rightarrow> None
      | Some n \<Rightarrow> map_option (\<lambda>rest. (name, take n stdin) # rest) (secrets_install fs (drop n stdin)))"

section \<open>The calls of an injection\<close>

definition prepare_call :: "inject_options \<Rightarrow> string list" where
  "prepare_call o' = root_exec (io_container o')
     [''sh'', ''-c'', prepare_script, ''sh'', agent_dir, agent_dir_mode]"

definition cp_call :: "inject_options \<Rightarrow> string list" where
  "cp_call o' = [''cp'', io_agent_source o', io_container o' @ '':'' @ agent_binary]"

text \<open>A run of calls is one of the complete sequences or a beginning of it.\<close>

definition inject_trace :: "inject_options \<Rightarrow> string \<Rightarrow> string \<Rightarrow> string list list \<Rightarrow> bool" where
  "inject_trace o' hk ak cs \<longleftrightarrow>
     prefix cs [prepare_call o', cp_call o', secrets_args o' hk ak]
     \<or> cs = [prepare_call o', secrets_args o' hk ak]"

context runner
begin

lemma write_secrets_calls:
  "io_host_key o' = Some hk \<Longrightarrow> io_auth_key o' = Some ak \<Longrightarrow>
   calls (snd (write_secrets r o' w)) = calls w @ [stamp (secrets_args o' hk ak)]"
  by (simp add: write_secrets_def run_calls split_beta)

lemma cp_into_calls:
  "\<exists>cs. calls (snd (cp_into r o' w)) = calls w @ map stamp cs \<and>
     (cs = [cp_call o'] \<or> cs = [] \<and> fst (cp_into r o' w) \<noteq> None)"
proof (cases "io_source_exists o'")
  case True
  then have "calls (snd (cp_into r o' w)) = calls w @ map stamp [cp_call o']"
    by (simp add: cp_into_def cp_call_def output_calls split_beta)
  then show ?thesis by blast
next
  case False
  then show ?thesis by (simp add: cp_into_def)
qed

lemma inject_calls:
  assumes keys: "io_host_key o' = Some hk" "io_auth_key o' = Some ak"
  shows "\<exists>cs. calls (snd (inject r o' w)) = calls w @ map stamp cs \<and> inject_trace o' hk ak cs
    \<and> (fst (inject r o' w) = None \<longrightarrow> last cs = secrets_args o' hk ak)"
proof -
  obtain out err w1 where first: "ro_output r (prepare_call o') w = ((out, err), w1)"
    by (metis prod.collapse)
  then have w1: "calls w1 = calls w @ [stamp (prepare_call o')]"
    using output_calls [of "prepare_call o'" w] by simp
  obtain arch installed ok where cut: "cut out LF = (arch, installed, ok)" by (metis prod.collapse)
  note run = inject_def [of r o' w, folded prepare_call_def, unfolded first]
  let ?copy = "io_version o' = [] \<or> trim_space installed \<noteq> io_version o'"
  consider (stop) "snd (inject r o' w) = w1" "fst (inject r o' w) \<noteq> None"
    | (keep) "inject r o' w = write_secrets r o' w1"
    | (copy) w2 where "cp_into r o' w1 = (None, w2)" "inject r o' w = write_secrets r o' w2"
    | (fail) e w2 where "cp_into r o' w1 = (Some e, w2)" "inject r o' w = (Some e, w2)"
    using run by (cases err; cases "cp_into r o' w1"; cases "fst (cp_into r o' w1)")
      (auto simp: Let_def cut split: if_splits)
  then show ?thesis
  proof cases
    case stop
    then show ?thesis using w1
      by (intro exI [of _ "[prepare_call o']"]) (auto simp: inject_trace_def)
  next
    case keep
    then show ?thesis using w1 write_secrets_calls [OF keys]
      by (intro exI [of _ "[prepare_call o', secrets_args o' hk ak]"]) (simp add: inject_trace_def)
  next
    case copy
    then have "calls w2 = calls w1 @ [stamp (cp_call o')]" using cp_into_calls [of o' w1] by auto
    then show ?thesis using copy w1 write_secrets_calls [OF keys]
      by (intro exI [of _ "[prepare_call o', cp_call o', secrets_args o' hk ak]"])
        (simp add: inject_trace_def)
  next
    case fail
    then obtain cs where "calls w2 = calls w1 @ map stamp cs" "cs = [cp_call o'] \<or> cs = []"
      using cp_into_calls [of o' w1] by auto
    then show ?thesis using fail w1
      by (intro exI [of _ "prepare_call o' # cs"]) (auto simp: inject_trace_def)
  qed
qed

end

lemma secrets_delivered:
  "secrets_install (zip [''host_key'', ''authorized_key'', ''env''] (drop 10 (secrets_args o' hk ak)))
      (hk @ ak @ env_file (io_env o'))
    = Some [(''host_key'', hk), (''authorized_key'', ak), (''env'', env_file (io_env o'))]"
  by (simp add: secrets_args_def itoa_def)

lemma inject_lengths:
  "prefix cs [a, b, c] \<or> cs = [a, c] \<Longrightarrow> length cs \<le> 3"
  by (auto dest: prefix_length_le)


definition demo_inject :: inject_options where
  "demo_inject = \<lparr>io_container = ''devc-app'', io_agent_source = ''/proc/self/exe'', io_source_exists = True,
     io_host_arch = ''amd64'', io_version = ''1.0'', io_host_key = Some ''HOST'', io_auth_key = Some ''AUTH!'',
     io_env = [(''A'', ''1'')]\<rparr>"


section \<open>What the agent reads is what was meant\<close>

lemma flag_defaults_serve:
  "map_get (flag_defaults serve_flag_set) v = (if v = ''forward-agent'' then ''false'' else [])"
  by (simp add: flag_defaults_def serve_flag_set_def flag_string_def flag_bool_def) (simp add: map_get_def)

lemma serve_flag_steps:
  "flag_parse serve_flag_set m (''--host-key'' # v # as) = flag_parse serve_flag_set (map_put ''host-key'' v m) as"
  "flag_parse serve_flag_set m (''--authorized'' # v # as) = flag_parse serve_flag_set (map_put ''authorized'' v m) as"
  "flag_parse serve_flag_set m (''--env-file'' # v # as) = flag_parse serve_flag_set (map_put ''env-file'' v m) as"
  "flag_parse serve_flag_set m (''--user'' # v # as) = flag_parse serve_flag_set (map_put ''user'' v m) as"
  "flag_parse serve_flag_set m (''--cwd'' # v # as) = flag_parse serve_flag_set (map_put ''cwd'' v m) as"
  "flag_parse serve_flag_set m (''--forward-agent'' # as) =
     flag_parse serve_flag_set (map_put ''forward-agent'' ''true'' m) as"
  by (simp_all add: flag_word_def cut_not_found flag_lookup_def serve_flag_set_def flag_string_def flag_bool_def
      flag_value_def is_bool_flag_def parse_bool_def format_bool_def)

text \<open>
  The agent's command line is read back in the container as it was meant, for every user and
  working directory, also those that look like flags: the flags after \<open>__serve\<close> parse, without error,
  to the credential paths, the user, the directory and the forwarding switch they were built from.
\<close>

lemma serve_args_parse:
  "serve_options (drop 7 (agent_serve_args container user cwd forward)) =
     Inr \<lparr>sf_host_key = ''/.devc/host_key'', sf_authorized = ''/.devc/authorized_key'',
       sf_env_file = ''/.devc/env'', sf_user = user, sf_cwd = cwd, sf_forward_agent = forward\<rparr>"
  by (cases "user = []"; cases "cwd = []"; cases forward)
    (simp_all add: serve_options_def parse_args_def agent_serve_args_def opt_flag_def switch_def serve_flag_steps
      serve_flags_def flag_on_def flag_defaults_serve
      agent_host_key_def agent_auth_key_def agent_env_file_def agent_dir_def del: flag_parse.simps(2))

section \<open>The env file round trip\<close>

lemma map_of_foldl_put:
  "map_of (foldl (\<lambda>m k. map_put k (f k) m) a ks) k = (if k \<in> set ks then Some (f k) else map_of a k)"
  by (induction ks arbitrary: a) auto

lemma raw_lines_concat:
  "(\<And>x. x \<in> set xs \<Longrightarrow> LF \<notin> set x) \<Longrightarrow> raw_lines (concat (map (\<lambda>x. x @ [LF]) xs)) = xs"
  by (simp add: raw_lines_def split_on_lines Let_def)

definition env_text :: "string gomap \<Rightarrow> string \<Rightarrow> string" where
  "env_text env k = k @ ''='' @ replace_byte LF '' '' (map_get env k)"

lemma env_file_lines: "env_file env = concat (map (\<lambda>x. x @ [LF]) (map (env_text env) (sorted_keys env)))"
  by (simp add: env_file_def sorted_pairs_def env_text_def comp_def)

text \<open>A variable the file can carry: the line is short enough and does not end in a carriage return.\<close>

definition env_ok_var :: "string gomap \<Rightarrow> string \<Rightarrow> bool" where
  "env_ok_var env k \<longleftrightarrow> CHR ''='' \<notin> set k \<and> LF \<notin> set k
     \<and> (map_get env k = [] \<or> last (map_get env k) \<noteq> CR)
     \<and> length k + length (map_get env k) + 1 < max_token"

lemma replace_byte_length [simp]: "length (replace_byte c [d] s) = length s"
  by (induction s) (auto simp: replace_byte_def)

lemma replace_byte_last:
  "s \<noteq> [] \<Longrightarrow> last (replace_byte c [d] s) = (if last s = c then d else last s)"
  by (cases s rule: rev_cases) (simp_all add: replace_byte_def)

lemma drop_cr_env_text:
  assumes "env_ok_var env k"
  shows "drop_cr (env_text env k) = env_text env k"
proof -
  have "last (env_text env k) \<noteq> CR"
  proof (cases "map_get env k = []")
    case True
    then show ?thesis by (simp add: env_text_def replace_byte_def)
  next
    case False
    then have "replace_byte LF '' '' (map_get env k) \<noteq> []" by (metis length_0_conv replace_byte_length)
    then show ?thesis
      using False assms replace_byte_last [of "map_get env k" LF "CHR '' ''"]
      by (auto simp: env_text_def env_ok_var_def)
  qed
  then show ?thesis by (simp add: drop_cr_def)
qed

lemma scan_env_file:
  assumes "\<forall>k \<in> dom (map_of env). env_ok_var env k"
  shows "scan_lines (env_file env) = map (env_text env) (sorted_keys env)"
proof -
  have ok: "env_ok_var env k" if "k \<in> set (sorted_keys env)" for k using assms that by simp
  have no_lf: "LF \<notin> set (env_text env k)" if "k \<in> set (sorted_keys env)" for k
    using ok [OF that] replace_byte_removes [of LF "'' ''" "map_get env k"]
    by (auto simp: env_text_def env_ok_var_def)
  then have "raw_lines (env_file env) = map (env_text env) (sorted_keys env)"
    unfolding env_file_lines by (intro raw_lines_concat) auto
  moreover have "takeWhile (\<lambda>l. length l < max_token) (map (env_text env) (sorted_keys env)) =
      map (env_text env) (sorted_keys env)"
    using ok by (intro takeWhile_eq_all_conv [THEN iffD2]) (auto simp: env_text_def env_ok_var_def)
  moreover have "map drop_cr (map (env_text env) (sorted_keys env)) = map (env_text env) (sorted_keys env)"
    using ok by (simp add: drop_cr_env_text)
  ultimately show ?thesis unfolding scan_lines_def by (simp only:)
qed

text \<open>
  The environment reaches the agent unchanged, up to line feeds in values, which become spaces:
  for variables whose name has no \<open>=\<close> or line feed, whose value does not end in a carriage return and
  whose line is shorter than the scanner's limit, reading the written file gives every variable its
  value and no other variable.
\<close>

lemma env_file_reads:
  assumes "\<forall>k \<in> dom (map_of env). env_ok_var env k"
  shows "map_of (read_env_file (Some (env_file env))) = (\<lambda>k. map_option (replace_byte LF '' '') (map_of env k))"
proof
  fix k
  have line: "read_env_line m (env_text env k) = map_put k (replace_byte LF '' '' (map_get env k)) m"
    if "k \<in> set (sorted_keys env)" for m k
    using assms that by (simp add: read_env_line_def env_text_def cut_append env_ok_var_def)
  have "foldl read_env_line a (map (env_text env) ks) =
      foldl (\<lambda>m k. map_put k (replace_byte LF '' '' (map_get env k)) m) a ks"
    if "set ks \<subseteq> set (sorted_keys env)" for a ks
    using that by (induction ks arbitrary: a) (auto simp: line)
  then have "map_of (read_env_file (Some (env_file env))) k =
      (if k \<in> set (sorted_keys env) then Some (replace_byte LF '' '' (map_get env k)) else None)"
    using map_of_foldl_put [of "\<lambda>k. replace_byte LF '' '' (map_get env k)" "[]" "sorted_keys env"]
    by (simp add: read_env_file_def scan_env_file [OF assms])
  then show "map_of (read_env_file (Some (env_file env))) k = map_option (replace_byte LF '' '') (map_of env k)"
    by (auto simp: map_get_def split: option.splits)
qed

text \<open>
  What the probe keeps. From the lines \<open>KEY=VALUE\<close> of the shell's \<open>env\<close>, each variable has the value
  of its last line, except the variables that describe the probing shell's own session, which are
  never kept.
\<close>

lemma probe_keeps:
  assumes "\<forall>(k, v) \<in> set kvs. k \<noteq> [] \<and> CHR ''='' \<notin> set k \<and> LF \<notin> set k \<and> LF \<notin> set v"
  shows "map_of (parse_env_output (concat (map (\<lambda>(k, v). k @ ''='' @ v @ [LF]) kvs))) k =
    (if k \<in> set skip_probed then None else map_of (rev kvs) k)"
proof -
  have lines: "split_on LF (concat (map (\<lambda>(k, v). k @ ''='' @ v @ [LF]) kvs)) =
      map (\<lambda>(k, v). k @ ''='' @ v) kvs @ [[]]"
    using assms
  proof (induction kvs)
    case (Cons kv kvs)
    obtain k v where kv: "kv = (k, v)" by (cases kv)
    with Cons.prems have "LF \<notin> set (k @ ''='' @ v)" by simp
    from split_on_append [OF this] show ?case using Cons kv by simp
  qed simp
  have "map_of (foldl env_line a (map (\<lambda>(k, v). k @ ''='' @ v) kvs)) k =
      (if k \<in> set skip_probed then map_of a k
       else case map_of (rev kvs) k of None \<Rightarrow> map_of a k | Some v \<Rightarrow> Some v)" for a
    using assms
    by (induction kvs arbitrary: a) (auto simp: env_line_def cut_append split: option.splits if_splits)
  then show ?thesis
    unfolding parse_env_output_def lines by (auto simp: env_line_def split: option.splits)
qed

lemma probe_keeps_witness:
  "map_of (parse_env_output (''PATH=/bin'' @ [LF] @ ''PWD=/'' @ [LF] @ ''PATH=/opt'' @ [LF])) ''PATH'' = Some ''/opt''
   \<and> map_of (parse_env_output (''PATH=/bin'' @ [LF] @ ''PWD=/'' @ [LF] @ ''PATH=/opt'' @ [LF])) ''PWD'' = None"
  using probe_keeps [of "[(''PATH'', ''/bin''), (''PWD'', ''/''), (''PATH'', ''/opt'')]" "''PATH''"]
    probe_keeps [of "[(''PATH'', ''/bin''), (''PWD'', ''/''), (''PATH'', ''/opt'')]" "''PWD''"]
  by (simp add: skip_probed_def)

end
