(* ===== verification/Inspect.thy ===== *)
theory Inspect
  imports ContainerEnv "HOL-Library.Product_Lexorder"
begin

text \<open>
  Finding containers: \<open>container/inspect.go\<close>, the queries of \<open>container/compose.go\<close> and the reuse
  decision of \<open>container/reuse.go\<close>. \<open>decode\<close> is \<open>json.Unmarshal\<close> of one inspect object into \<open>Info\<close>.
\<close>

record info =
  in_id :: string
  in_name :: string
  in_status :: string
  in_running :: bool
  in_labels :: "string gomap"
  in_image :: string

datatype query_error = QueryFailed runner_error | DecodeFailedLine string | ScaledService string nat string

section \<open>Single containers\<close>

text \<open>\<open>strings.EqualFold(status, "running")\<close>: no letter of the word folds to a non-ASCII rune.\<close>

definition running :: "info \<Rightarrow> bool" where
  "running i \<longleftrightarrow> in_running i \<or> map lower_byte (in_status i) = ''running''"

definition find_container :: "('w, info) runner_ops \<Rightarrow> string \<Rightarrow> 'w \<Rightarrow> (query_error + info option) \<times> 'w" where
  "find_container r name w =
     (case ro_inspect r name w of
        (Inr i, w') \<Rightarrow> (Inr (Some i), w')
      | (Inl (NoSuchObject _), w') \<Rightarrow> (Inr None, w')
      | (Inl e, w') \<Rightarrow> (Inl (QueryFailed e), w'))"

section \<open>Listing\<close>

definition ps_args :: "string \<Rightarrow> string list" where
  "ps_args label = [''ps'', ''--all'', ''--filter'', ''label='' @ label, ''--format'', ''{{.ID}}'']"

definition ps_by_label :: "('w, info) runner_ops \<Rightarrow> string \<Rightarrow> 'w \<Rightarrow> (query_error + string list) \<times> 'w" where
  "ps_by_label r label w =
     (case ro_output r (ps_args label) w of
        ((_, Some e), w') \<Rightarrow> (Inl (QueryFailed e), w')
      | ((out, None), w') \<Rightarrow> (Inr (non_empty_lines out), w'))"

fun decode_lines :: "(string \<Rightarrow> info option) \<Rightarrow> string list \<Rightarrow> query_error + info list" where
  "decode_lines decode [] = Inr []"
| "decode_lines decode (l # ls) =
     (if l = ''null'' then decode_lines decode ls
      else (case decode l of
              None \<Rightarrow> Inl (DecodeFailedLine l)
            | Some i \<Rightarrow> res_map (\<lambda>is. i # is) (decode_lines decode ls)))"

text \<open>The ids in order of first occurrence.\<close>

definition nub :: "'a list \<Rightarrow> 'a list" where
  "nub xs = rev (remdups (rev xs))"

definition inspect_all :: "(string \<Rightarrow> info option) \<Rightarrow> ('w, info) runner_ops \<Rightarrow> string list \<Rightarrow> 'w
    \<Rightarrow> (query_error + info list) \<times> 'w" where
  "inspect_all decode r ids w =
     (if ids = [] then (Inr [], w)
      else (case ro_output r ([''inspect'', ''--format'', ''{{json .}}''] @ nub ids) w of
              ((out, err), w') \<Rightarrow>
                (case err of
                   Some e \<Rightarrow> if \<not> is_no_such_object e then (Inl (QueryFailed e), w')
                             else (decode_lines decode (non_empty_lines out), w')
                 | None \<Rightarrow> (decode_lines decode (non_empty_lines out), w'))))"

definition label_of :: "info \<Rightarrow> string \<Rightarrow> string" where
  "label_of i k = map_get (in_labels i) k"

definition compose_row :: "string \<Rightarrow> info \<Rightarrow> info" where
  "compose_row wid c =
     \<lparr>in_id = in_id c, in_name = [], in_status = in_status c, in_running = in_running c,
      in_labels = [(label_id, wid)], in_image = []\<rparr>"

text \<open>\<open>row.State = c.State\<close>, when the service is up and the row is not.\<close>

definition merge_state :: "info \<Rightarrow> info \<Rightarrow> info" where
  "merge_state c row =
     (if running c \<and> \<not> running row
      then row\<lparr>in_status := in_status c, in_running := in_running c\<rparr> else row)"

text \<open>The loop over the compose containers. The rows carry the ids the code keeps in \<open>byID\<close>.\<close>

definition add_service :: "info list \<Rightarrow> info \<Rightarrow> info list" where
  "add_service rows c =
     (case workspace_id_from_project (label_of c label_compose_project) of
        None \<Rightarrow> rows
      | Some wid \<Rightarrow>
          if wid \<in> (\<lambda>r. label_of r label_id) ` set rows
          then map (\<lambda>r. if label_of r label_id = wid then merge_state c r else r) rows
          else rows @ [compose_row wid c])"

definition compose_rows :: "info list \<Rightarrow> info list" where
  "compose_rows cs = foldl add_service [] cs"

definition list_rows :: "info list \<Rightarrow> info list" where
  "list_rows all =
     filter (\<lambda>i. label_of i label_id \<noteq> []) all
     @ compose_rows (filter (\<lambda>i. label_of i label_id = [] \<and> label_of i label_compose_project \<noteq> []) all)"

definition list_workspaces_raw :: "(string \<Rightarrow> info option) \<Rightarrow> ('w, info) runner_ops \<Rightarrow> 'w
    \<Rightarrow> (query_error + info list) \<times> 'w" where
  "list_workspaces_raw decode r w =
     (case ps_by_label r label_id w of
        (Inl e, w1) \<Rightarrow> (Inl e, w1)
      | (Inr single, w1) \<Rightarrow>
          (case ps_by_label r label_compose_project w1 of
             (Inl e, w2) \<Rightarrow> (Inl e, w2)
           | (Inr composed, w2) \<Rightarrow>
               (case inspect_all decode r (single @ composed) w2 of
                  (Inl e, w3) \<Rightarrow> (Inl e, w3)
                | (Inr all, w3) \<Rightarrow> (Inr (list_rows all), w3))))"

section \<open>Compose projects\<close>

definition service_of :: "info \<Rightarrow> string" where
  "service_of i = label_of i label_compose_service"

definition list_by_label :: "(string \<Rightarrow> info option) \<Rightarrow> ('w, info) runner_ops \<Rightarrow> string \<Rightarrow> 'w
    \<Rightarrow> (query_error + info list) \<times> 'w" where
  "list_by_label decode r label w =
     (case ps_by_label r label w of
        (Inl e, w1) \<Rightarrow> (Inl e, w1)
      | (Inr ids, w1) \<Rightarrow> inspect_all decode r ids w1)"

definition list_compose_project :: "(string \<Rightarrow> info option) \<Rightarrow> ('w, info) runner_ops \<Rightarrow> string \<Rightarrow> 'w
    \<Rightarrow> (query_error + info list) \<times> 'w" where
  "list_compose_project decode r project w =
     (case list_by_label decode r (label_compose_project @ ''='' @ project) w of
        (Inl e, w1) \<Rightarrow> (Inl e, w1)
      | (Inr is, w1) \<Rightarrow> (Inr (sort_key (\<lambda>i. (service_of i, in_id i)) is), w1))"

definition find_compose_args :: "string \<Rightarrow> string \<Rightarrow> string list" where
  "find_compose_args project service =
     [''ps'', ''--all'', ''--filter'', ''label='' @ label_compose_project @ ''='' @ project,
      ''--filter'', ''label='' @ label_compose_service @ ''='' @ service, ''--format'', ''{{.ID}}'']"

definition find_compose_service :: "('w, info) runner_ops \<Rightarrow> string \<Rightarrow> string \<Rightarrow> 'w
    \<Rightarrow> (query_error + info option) \<times> 'w" where
  "find_compose_service r project service w =
     (case ro_output r (find_compose_args project service) w of
        ((_, Some e), w') \<Rightarrow> (Inl (QueryFailed e), w')
      | ((out, None), w') \<Rightarrow>
          (case non_empty_lines out of
             [] \<Rightarrow> (Inr None, w')
           | [c] \<Rightarrow> find_container r c w'
           | ids \<Rightarrow> (Inl (ScaledService service (length ids) project), w')))"

section \<open>The reuse decision\<close>

datatype action = ActionCreate | ActionStart | ActionAttach | ActionRecreate | ActionDrift

definition decide :: "(spec \<Rightarrow> string) \<Rightarrow> info option \<Rightarrow> spec \<Rightarrow> bool \<Rightarrow> action" where
  "decide json_spec existing s allow_recreate =
     (case existing of
        None \<Rightarrow> ActionCreate
      | Some i \<Rightarrow>
          if label_of i label_config_hash \<noteq> config_hash json_spec s
          then (if allow_recreate then ActionRecreate else ActionDrift)
          else if running i then ActionAttach else ActionStart)"

section \<open>Inside the interface\<close>

text \<open>A \<open>Runner\<close> used for containers, and the invocations that only look.\<close>

definition is_query :: "string list \<Rightarrow> bool" where
  "is_query args \<longleftrightarrow> args \<noteq> [] \<and> hd args \<in> {''ps'', ''inspect''}"

locale info_runner = runner r calls stamp
  for r :: "('w, info) runner_ops" and calls :: "'w \<Rightarrow> 'c list" and stamp :: "string list \<Rightarrow> 'c"
begin

lemma queries [simp]:
  "is_query (ps_args l)" "is_query (inspect_args c)" "is_query (find_compose_args p s)"
  "is_query ([''inspect'', ''--format'', f] @ ids)"
  by (simp_all add: is_query_def ps_args_def inspect_args_def find_compose_args_def)

lemma ps_by_label_made: "ps_by_label r l w = (x, w') \<Longrightarrow> made is_query 1 w w'"
  by (auto simp: ps_by_label_def split: prod.splits option.splits intro: made_output [where P = is_query, OF queries(1)])

lemma inspect_all_made: "inspect_all decode r ids w = (x, w') \<Longrightarrow> made is_query 1 w w'"
  by (auto simp: inspect_all_def simp del: append.simps split: prod.splits option.splits if_splits
      intro: made_output [where P = is_query, OF queries(4)])

lemma find_container_made: "find_container r c w = (x, w') \<Longrightarrow> made is_query 1 w w'"
  by (auto simp: find_container_def split: prod.splits sum.splits runner_error.splits
      intro: made_inspect [where P = is_query, OF queries(2)])

lemma list_made: "made is_query 3 w (snd (list_workspaces_raw decode r w))"
proof -
  obtain x1 w1 where 1: "ps_by_label r label_id w = (x1, w1)" by fastforce
  obtain x2 w2 where 2: "ps_by_label r label_compose_project w1 = (x2, w2)" by fastforce
  have m1: "made is_query 1 w w1" and m2: "made is_query 1 w1 w2"
    using 1 2 by (auto dest: ps_by_label_made)
  show ?thesis
  proof (cases "\<exists>a b. x1 = Inr a \<and> x2 = Inr b")
    case True
    then obtain a b where ab: "x1 = Inr a" "x2 = Inr b" by blast
    obtain x3 w3 where 3: "inspect_all decode r (a @ b) w2 = (x3, w3)" by fastforce
    then have "made is_query (1 + 1 + 1) w w3"
      using m1 m2 by (blast intro: made_trans dest: inspect_all_made)
    then show ?thesis using 1 2 3 ab by (auto simp: list_workspaces_raw_def numeral_3_eq_3 split: sum.splits)
  next
    case False
    have "made is_query 3 w w1" "made is_query 3 w w2"
      using m1 made_trans [OF m1 m2] by (auto elim: made_mono)
    then show ?thesis using 1 2 False by (auto simp: list_workspaces_raw_def split: sum.splits)
  qed
qed

lemma list_by_label_made: "list_by_label decode r l w = (x, w') \<Longrightarrow> made is_query 2 w w'"
proof -
  obtain x1 w1 where 1: "ps_by_label r l w = (x1, w1)" by fastforce
  then have m1: "made is_query 1 w w1" by (rule ps_by_label_made)
  assume run: "list_by_label decode r l w = (x, w')"
  show ?thesis
  proof (cases x1)
    case (Inl e)
    with run 1 m1 show ?thesis by (auto simp: list_by_label_def elim: made_mono)
  next
    case (Inr ids)
    with run 1 have "inspect_all decode r ids w1 = (x, w')" by (simp add: list_by_label_def)
    from made_trans [OF m1 inspect_all_made [OF this]] show ?thesis by (simp add: numeral_2_eq_2)
  qed
qed

lemma list_compose_made: "made is_query 2 w (snd (list_compose_project decode r project w))"
  by (auto simp: list_compose_project_def split: prod.splits sum.splits intro: list_by_label_made)

lemma find_compose_made: "made is_query 2 w (snd (find_compose_service r project service w))"
proof -
  obtain out err w1 where 1: "ro_output r (find_compose_args project service) w = ((out, err), w1)" by (metis prod.collapse)
  then have m1: "made is_query 1 w w1" by (auto intro: made_output [where P = is_query, OF queries(3)])
  show ?thesis
  proof (cases "\<exists>c. err = None \<and> non_empty_lines out = [c]")
    case True
    then obtain c where c: "err = None" "non_empty_lines out = [c]" by blast
    obtain x2 w2 where 2: "find_container r c w1 = (x2, w2)" by fastforce
    from made_trans [OF m1 find_container_made [OF 2]] show ?thesis
      using 1 2 c by (simp add: find_compose_service_def numeral_2_eq_2)
  next
    case False
    then have "snd (find_compose_service r project service w) = w1"
      using 1 by (cases err) (auto simp: find_compose_service_def split: list.splits)
    then show ?thesis using m1 by (auto elim: made_mono)
  qed
qed

end

interpretation cli_info: info_runner "cli_ops decode p c" "\<lambda>w. map c_args (w_calls w)" "cli_argv c"
  for decode p c
  by unfold_locales

text \<open>
  Looking never changes anything and stays cheap: listing every workspace takes at most three
  invocations of the container CLI, a compose project two and a compose service two, and each
  invocation is a \<open>ps\<close> or an \<open>inspect\<close>.
\<close>

lemma queries_only_look:
  "cli_made c is_query 3 w (snd (list_workspaces_raw decode (cli_ops decode p c) w))
   \<and> cli_made c is_query 2 w (snd (list_compose_project decode (cli_ops decode p c) project w))
   \<and> cli_made c is_query 2 w (snd (find_compose_service (cli_ops decode p c) project service w))"
  using cli_info.list_made [of c w decode decode p] cli_info.list_compose_made [of c w decode decode p project]
    cli_info.find_compose_made [of c w decode p project service]
  unfolding cli_made_iff by simp

section \<open>One row per workspace\<close>

lemma label_of_row [simp]: "label_of (compose_row wid c) label_id = wid"
  by (simp add: label_of_def compose_row_def map_get_def)

lemma label_of_merge [simp]: "label_of (merge_state c r) k = label_of r k"
  by (simp add: label_of_def merge_state_def)

lemma running_merge: "running (merge_state c r) \<longleftrightarrow> running c \<or> running r"
  by (auto simp: merge_state_def running_def)

lemma running_row [simp]: "running (compose_row wid c) \<longleftrightarrow> running c"
  by (simp add: running_def compose_row_def)

definition service_id :: "info \<Rightarrow> string option" where
  "service_id c = workspace_id_from_project (label_of c label_compose_project)"

definition row_ids :: "info list \<Rightarrow> string list" where
  "row_ids rows = map (\<lambda>r. label_of r label_id) rows"

text \<open>What the rows built from the containers \<open>cs\<close> say.\<close>

definition rows_of :: "info list \<Rightarrow> info list \<Rightarrow> bool" where
  "rows_of cs rows \<longleftrightarrow> distinct (row_ids rows)
     \<and> Some ` set (row_ids rows) = service_id ` set cs - {None}
     \<and> (\<forall>r \<in> set rows. running r \<longleftrightarrow> (\<exists>c \<in> set cs. service_id c = Some (label_of r label_id) \<and> running c))"

lemma no_row:
  assumes "rows_of cs rows" and "wid \<notin> set (row_ids rows)" and "c \<in> set cs"
  shows "service_id c \<noteq> Some wid"
proof
  assume "service_id c = Some wid"
  then have "Some wid \<in> service_id ` set cs - {None}" using assms(3) by (intro DiffI image_eqI) auto
  then have "Some wid \<in> Some ` set (row_ids rows)" using assms(1) unfolding rows_of_def by metis
  with assms(2) show False by auto
qed

lemma add_service_rows:
  assumes "rows_of cs rows"
  shows "rows_of (cs @ [c]) (add_service rows c)"
proof (cases "service_id c")
  case None
  with assms show ?thesis by (auto simp: rows_of_def add_service_def service_id_def)
next
  case (Some wid)
  show ?thesis
  proof (cases "wid \<in> set (row_ids rows)")
    case True
    let ?rows = "map (\<lambda>r. if label_of r label_id = wid then merge_state c r else r) rows"
    have add: "add_service rows c = ?rows"
      using Some True by (simp add: add_service_def service_id_def row_ids_def)
    have ids: "row_ids ?rows = row_ids rows" by (auto simp: row_ids_def)
    have "Some wid \<in> service_id ` set cs"
      using assms True unfolding rows_of_def by (metis DiffD1 imageI)
    then have ids_ok: "Some ` set (row_ids ?rows) = service_id ` set (cs @ [c]) - {None}"
      using assms Some unfolding ids rows_of_def by auto
    have same: "label_of (if b then merge_state c r else r) k = label_of r k" for b r k
      by simp
    have "running (if label_of r label_id = wid then merge_state c r else r) \<longleftrightarrow>
        (\<exists>c' \<in> set (cs @ [c]). service_id c' = Some (label_of r label_id) \<and> running c')"
      if "r \<in> set rows" for r
    proof -
      have "running r \<longleftrightarrow> (\<exists>c' \<in> set cs. service_id c' = Some (label_of r label_id) \<and> running c')"
        using assms that unfolding rows_of_def by blast
      then show ?thesis using Some by (auto simp: running_merge)
    qed
    then have run: "\<forall>r \<in> set ?rows. running r \<longleftrightarrow>
        (\<exists>c' \<in> set (cs @ [c]). service_id c' = Some (label_of r label_id) \<and> running c')"
      by (simp only: set_map ball_simps same) blast
    have "distinct (row_ids ?rows)" using assms unfolding ids rows_of_def by blast
    with ids_ok run show ?thesis unfolding add rows_of_def by (intro conjI)
  next
    case False
    then have add: "add_service rows c = rows @ [compose_row wid c]"
      using Some by (simp add: add_service_def service_id_def row_ids_def)
    have "service_id c' \<noteq> Some wid" if "c' \<in> set cs" for c' using no_row [OF assms False that] .
    then show ?thesis
      using assms Some False unfolding add rows_of_def by (auto simp: row_ids_def)
  qed
qed

lemma compose_rows_of: "rows_of cs (compose_rows cs)"
proof (induction cs rule: rev_induct)
  case Nil
  then show ?case by (simp add: rows_of_def compose_rows_def row_ids_def)
next
  case (snoc c cs)
  then show ?case using add_service_rows by (simp add: compose_rows_def)
qed

text \<open>The service a row shows: the first of the project that is up, or else the first.\<close>

definition state_of :: "info \<Rightarrow> string \<times> bool" where
  "state_of i = (in_status i, in_running i)"

definition services_of :: "info list \<Rightarrow> string \<Rightarrow> info list" where
  "services_of cs wid = filter (\<lambda>c. service_id c = Some wid) cs"

definition shown :: "info list \<Rightarrow> string \<Rightarrow> info" where
  "shown cs wid = (case filter running (services_of cs wid) of c # _ \<Rightarrow> c | [] \<Rightarrow> hd (services_of cs wid))"

lemma running_state: "state_of a = state_of b \<Longrightarrow> running a \<longleftrightarrow> running b"
  by (simp add: state_of_def running_def)

lemma shown_running:
  assumes "services_of cs wid \<noteq> []"
  shows "running (shown cs wid) \<longleftrightarrow> filter running (services_of cs wid) \<noteq> []"
proof (cases "filter running (services_of cs wid)")
  case Nil
  then have "\<not> running (hd (services_of cs wid))" using assms unfolding filter_empty_conv by simp
  with Nil show ?thesis by (simp add: shown_def)
next
  case (Cons c ds)
  then have "c \<in> set (filter running (services_of cs wid))" by (simp only: list.set_intros)
  then have "running c" by (simp only: set_filter mem_Collect_eq)
  with Cons show ?thesis by (simp add: shown_def)
qed

lemma services_of_snoc: "services_of (cs @ [c]) wid = services_of cs wid @ (if service_id c = Some wid then [c] else [])"
  by (simp add: services_of_def)

lemma shown_snoc:
  "shown (cs @ [c]) wid =
     (if service_id c \<noteq> Some wid then shown cs wid
      else if services_of cs wid = [] then c
      else if running c \<and> \<not> running (shown cs wid) then c else shown cs wid)"
  using shown_running [of cs wid] by (auto simp: shown_def services_of_snoc split: list.splits)

lemma rows_have_services: "rows_of cs rows \<Longrightarrow> r \<in> set rows \<Longrightarrow> services_of cs (label_of r label_id) \<noteq> []"
proof -
  assume rows: "rows_of cs rows" and r: "r \<in> set rows"
  have "label_of r label_id \<in> set (row_ids rows)" using r by (simp add: row_ids_def)
  then have "Some (label_of r label_id) \<in> service_id ` set cs - {None}"
    using rows unfolding rows_of_def by blast
  then obtain c where "c \<in> set cs" "service_id c = Some (label_of r label_id)" by (elim DiffE imageE) simp
  then show ?thesis unfolding services_of_def filter_empty_conv by blast
qed

lemma compose_rows_shown:
  "r \<in> set (compose_rows cs) \<Longrightarrow> state_of r = state_of (shown cs (label_of r label_id))"
proof (induction cs arbitrary: r rule: rev_induct)
  case Nil
  then show ?case by (simp add: compose_rows_def)
next
  case (snoc c cs)
  note rows = compose_rows_of [of cs]
  have r: "r \<in> set (add_service (compose_rows cs) c)" using snoc.prems by (simp add: compose_rows_def)
  show ?case
  proof (cases "service_id c")
    case None
    then have "r \<in> set (compose_rows cs)" using r by (simp add: add_service_def service_id_def)
    with snoc.IH None show ?thesis by (simp add: shown_snoc)
  next
    case (Some wid)
    show ?thesis
    proof (cases "wid \<in> set (row_ids (compose_rows cs))")
      case True
      then obtain q where q: "q \<in> set (compose_rows cs)" "r = (if label_of q label_id = wid then merge_state c q else q)"
        using r Some by (auto simp: add_service_def service_id_def row_ids_def)
      then have "label_of r label_id = label_of q label_id" by simp
      moreover have "running q \<longleftrightarrow> running (shown cs (label_of q label_id))"
        using snoc.IH [OF q(1)] by (rule running_state)
      ultimately show ?thesis
        using snoc.IH [OF q(1)] q Some rows_have_services [OF rows q(1)]
        by (auto simp: shown_snoc merge_state_def state_of_def)
    next
      case False
      have "services_of cs wid = []"
        using no_row [OF rows False] by (simp add: services_of_def filter_empty_conv)
      moreover have "r = compose_row wid c \<or> r \<in> set (compose_rows cs)"
        using r Some False by (auto simp: add_service_def service_id_def row_ids_def)
      moreover have "r \<in> set (compose_rows cs) \<Longrightarrow> label_of r label_id \<noteq> wid"
        using False by (auto simp: row_ids_def)
      ultimately show ?thesis
        using snoc.IH Some by (auto simp: shown_snoc state_of_def compose_row_def label_of_def map_get_def)
    qed
  qed
qed

text \<open>
  C28: a compose workspace is one row, however many services it has. From the service containers of
  all projects, the collapsed rows have distinct workspace ids, exactly the ids of the projects devc
  named; a row is running exactly when some service container of its project is, and shows the state of
  the first one that is, or of the project's first container when none is running.
\<close>

theorem compose_rows_spec:
  "distinct (row_ids (compose_rows cs))
   \<and> Some ` set (row_ids (compose_rows cs)) = service_id ` set cs - {None}
   \<and> filter running (compose_rows cs) =
       filter (\<lambda>r. list_ex (\<lambda>c. service_id c = Some (label_of r label_id) \<and> running c) cs) (compose_rows cs)
   \<and> map state_of (compose_rows cs) = map (\<lambda>r. state_of (shown cs (label_of r label_id))) (compose_rows cs)"
  using compose_rows_of [of cs] compose_rows_shown unfolding rows_of_def list_ex_iff
  by (intro conjI filter_cong map_cong) auto

end
