(* ===== verification/StateStore.thy ===== *)
theory StateStore
  imports Runtime
begin

text \<open>
  Package \<open>state\<close> (\<open>state/state.go\<close>): the per-workspace record kept on the host. The machine extends
  the world of processes by the data directory: for each workspace id no directory, or a directory
  with no \<open>state.json\<close>, one that does not parse, or one holding a state. A state written and read back
  is the same (the strings are text, and \<open>omitempty\<close> drops only values that are read back as zero).
\<close>

record state =
  st_id :: string
  st_name :: string
  st_local_folder :: string
  st_config_path :: string
  st_container_id :: string
  st_compose_project :: string
  st_config_hash :: string
  st_hooks :: "string gomap"
  st_env_probe :: "string gomap"
  st_env_probe_version :: string
  st_agent_version :: string

definition zero_state :: state where
  "zero_state = \<lparr>st_id = [], st_name = [], st_local_folder = [], st_config_path = [],
     st_container_id = [], st_compose_project = [], st_config_hash = [], st_hooks = [],
     st_env_probe = [], st_env_probe_version = [], st_agent_version = []\<rparr>"

text \<open>A file other than a state: one that cannot be read, or its contents.\<close>

datatype text_file = Unreadable | Readable string

datatype state_file = NoFile | BadFile | StateFile state

text \<open>
  \<open>m_home\<close> is what \<open>dataHome\<close> resolves to, \<open>m_writable\<close> whether directories and states can be written,
  \<open>m_ids\<close> the entries of the data directory in \<open>os.ReadDir\<close> order, \<open>m_files\<close> the other text files devc
  reads and writes, by path, \<open>m_locked\<close> the paths among them that cannot be written.
\<close>

record machine = world +
  m_home :: "string option"
  m_writable :: bool
  m_locked :: "string \<Rightarrow> bool"
  m_dirs :: "string \<Rightarrow> state_file option"
  m_ids :: "string list"
  m_files :: "string \<Rightarrow> text_file option"

section \<open>Operations\<close>

definition read_state :: "state_file option \<Rightarrow> state option" where
  "read_state f =
     (case f of None \<Rightarrow> Some zero_state | Some NoFile \<Rightarrow> Some zero_state | Some BadFile \<Rightarrow> None
      | Some (StateFile s) \<Rightarrow> Some s)"

text \<open>\<open>Dir.Load\<close>: \<open>None\<close> is an error.\<close>

definition state_load :: "string \<Rightarrow> 'z machine_scheme \<Rightarrow> state option" where
  "state_load i m = read_state (m_dirs m i)"

definition state_peek :: "string \<Rightarrow> 'z machine_scheme \<Rightarrow> state option" where
  "state_peek i m = (if m_home m = None then None else state_load i m)"

definition state_for :: "string \<Rightarrow> 'z machine_scheme \<Rightarrow> bool \<times> 'z machine_scheme" where
  "state_for i m =
     (if m_home m = None then (False, m)
      else if m_dirs m i \<noteq> None then (True, m)
      else if m_writable m
        then (True, m\<lparr>m_dirs := (m_dirs m)(i \<mapsto> NoFile), m_ids := insort i (m_ids m)\<rparr>)
      else (False, m))"

text \<open>\<open>Dir.Save\<close>: a temporary file renamed into place, so a failure leaves the old state.\<close>

definition state_save :: "string \<Rightarrow> state \<Rightarrow> 'z machine_scheme \<Rightarrow> bool \<times> 'z machine_scheme" where
  "state_save i s m =
     (if m_writable m \<and> m_dirs m i \<noteq> None
      then (True, m\<lparr>m_dirs := (m_dirs m)(i \<mapsto> StateFile s)\<rparr>) else (False, m))"

definition state_root :: "string \<Rightarrow> 'z machine_scheme \<Rightarrow> string" where
  "state_root i m = (case m_home m of None \<Rightarrow> [] | Some home \<Rightarrow> path_join [home, ''devc'', i])"

definition under :: "string \<Rightarrow> string \<Rightarrow> bool" where
  "under d p \<longleftrightarrow> prefix (d @ ''/'') p"

text \<open>\<open>Dir.Remove\<close>: the whole directory, the key files in it included.\<close>

definition state_remove :: "string \<Rightarrow> 'z machine_scheme \<Rightarrow> bool \<times> 'z machine_scheme" where
  "state_remove i m =
     (if m_writable m
      then (True, m\<lparr>m_dirs := (m_dirs m)(i := None), m_ids := remove1 i (m_ids m),
              m_files := (\<lambda>p. if under (state_root i m) p then None else m_files m p)\<rparr>)
      else (False, m))"

definition state_list :: "'z machine_scheme \<Rightarrow> state list option" where
  "state_list m =
     (if m_home m = None then None
      else Some (List.map_filter
        (\<lambda>i. map_option (\<lambda>s. if st_id s = [] then s\<lparr>st_id := i\<rparr> else s) (read_state (m_dirs m i)))
        (m_ids m)))"

section \<open>Files\<close>

text \<open>\<open>os.ReadFile\<close> (\<open>Inl True\<close> when there is no such file), \<open>os.WriteFile\<close>, \<open>os.Remove\<close>, \<open>os.MkdirAll\<close>.\<close>

definition read_file :: "string \<Rightarrow> 'z machine_scheme \<Rightarrow> bool + string" where
  "read_file p m = (case m_files m p of None \<Rightarrow> Inl True | Some Unreadable \<Rightarrow> Inl False | Some (Readable s) \<Rightarrow> Inr s)"

definition write_file :: "string \<Rightarrow> string \<Rightarrow> 'z machine_scheme \<Rightarrow> bool \<times> 'z machine_scheme" where
  "write_file p s m =
     (if m_locked m p then (False, m) else (True, m\<lparr>m_files := (m_files m)(p \<mapsto> Readable s)\<rparr>))"

text \<open>\<open>True\<close> when the file is gone, absence included.\<close>

definition remove_file :: "string \<Rightarrow> 'z machine_scheme \<Rightarrow> bool \<times> 'z machine_scheme" where
  "remove_file p m =
     (if m_files m p = None then (True, m)
      else if m_locked m p then (False, m) else (True, m\<lparr>m_files := (m_files m)(p := None)\<rparr>))"

definition mkdir_ok :: "string \<Rightarrow> 'z machine_scheme \<Rightarrow> bool" where
  "mkdir_ok d m \<longleftrightarrow> \<not> m_locked m d"

text \<open>\<open>dataHome\<close>, from the environment and the home directory; it is the machine's \<open>m_home\<close>.\<close>

definition data_home :: "(string \<Rightarrow> string) \<Rightarrow> string option \<Rightarrow> string option" where
  "data_home env home =
     (if env ''XDG_DATA_HOME'' \<noteq> [] then Some (env ''XDG_DATA_HOME'')
      else (case home of None \<Rightarrow> None | Some h \<Rightarrow> Some (path_join [h, ''.local'', ''share''])))"

text \<open>\<open>Dir.Path\<close> and \<open>Dir.LogsDir\<close>, of the root of a directory.\<close>

definition dir_path :: "string \<Rightarrow> string \<Rightarrow> string" where
  "dir_path root name = path_join [root, name]"

definition logs_dir :: "string \<Rightarrow> 'z machine_scheme \<Rightarrow> string option" where
  "logs_dir root m = (if mkdir_ok (dir_path root ''logs'') m then Some (dir_path root ''logs'') else None)"

lemma write_file_ok:
  "write_file p s m = (True, m') \<longleftrightarrow> \<not> m_locked m p \<and> m' = m\<lparr>m_files := (m_files m)(p \<mapsto> Readable s)\<rparr>"
  by (auto simp: write_file_def)

section \<open>The contract\<close>

record 'w store_ops =
  so_for :: "string \<Rightarrow> 'w \<Rightarrow> bool \<times> 'w"
  so_load :: "string \<Rightarrow> 'w \<Rightarrow> state option"
  so_save :: "string \<Rightarrow> state \<Rightarrow> 'w \<Rightarrow> bool \<times> 'w"

definition disk_store :: "'z machine_scheme store_ops" where
  "disk_store = \<lparr>so_for = state_for, so_load = state_load, so_save = state_save\<rparr>"

text \<open>
  What a client of the store relies on: a save that succeeds is what is loaded from then on, one that
  fails changes nothing, other workspaces are untouched, and no process is run. \<open>ready i w\<close> says that
  saves for \<open>i\<close> will succeed.
\<close>

locale store =
  fixes s :: "'w store_ops" and calls :: "'w \<Rightarrow> 'c list" and ready :: "string \<Rightarrow> 'w \<Rightarrow> bool"
  assumes for_load: "so_for s i w = (b, w') \<Longrightarrow> so_load s j w' = so_load s j w"
    and for_calls: "so_for s i w = (b, w') \<Longrightarrow> calls w' = calls w"
    and for_ready: "ready j w \<Longrightarrow> so_for s i w = (b, w') \<Longrightarrow> ready j w'"
    and ready_for: "ready i w \<Longrightarrow> fst (so_for s i w)"
    and save_load: "so_save s i st w = (True, w') \<Longrightarrow> so_load s j w' = (if j = i then Some st else so_load s j w)"
    and save_fails: "so_save s i st w = (False, w') \<Longrightarrow> w' = w"
    and save_calls: "so_save s i st w = (b, w') \<Longrightarrow> calls w' = calls w"
    and save_ready: "ready j w \<Longrightarrow> so_save s i st w = (b, w') \<Longrightarrow> ready j w'"
    and ready_save: "ready i w \<Longrightarrow> fst (so_save s i st w)"
begin

lemma save_ready_load:
  "ready i w \<Longrightarrow> so_save s i st w = (b, w') \<Longrightarrow> b \<and> so_load s i w' = Some st \<and> ready i w'"
  using ready_save [of i w st] save_load [of i st w w' i] save_ready [of i w i st b w'] by (cases b) auto

end

definition disk_ready :: "string \<Rightarrow> 'z machine_scheme \<Rightarrow> bool" where
  "disk_ready i m \<longleftrightarrow> m_home m \<noteq> None \<and> m_writable m \<and> m_dirs m i \<noteq> None"

interpretation disk: store disk_store "\<lambda>w. map c_args (w_calls w)" disk_ready
  by unfold_locales
    (auto simp: disk_store_def disk_ready_def state_for_def state_load_def state_save_def read_state_def
      split: if_splits)

text \<open>
  A workspace's record survives: what is saved is what the next load reads, the states of other
  workspaces are unchanged, and a saved workspace is found by the listing under its id.
\<close>

lemma state_save_load:
  assumes "state_save i st m = (True, m')" and "m_home m \<noteq> None" and "i \<in> set (m_ids m)" and "st_id st = i"
  shows "state_load i m' = Some st \<and> state_peek i m' = Some st
    \<and> (j = i \<or> state_load j m' = state_load j m)
    \<and> (case state_list m' of None \<Rightarrow> False | Some ss \<Rightarrow> st \<in> set ss)"
proof -
  have m': "m' = m\<lparr>m_dirs := (m_dirs m)(i \<mapsto> StateFile st)\<rparr>"
    using assms(1) by (auto simp: state_save_def split: if_splits)
  have "st \<in> set (List.map_filter
      (\<lambda>i. map_option (\<lambda>s. if st_id s = [] then s\<lparr>st_id := i\<rparr> else s) (read_state (m_dirs m' i))) (m_ids m'))"
    using assms(3,4) by (auto simp: List.map_filter_def m' read_state_def image_iff intro!: bexI [of _ i])
  then show ?thesis using assms(2) by (auto simp: m' state_load_def read_state_def state_peek_def state_list_def)
qed

definition demo_machine :: machine where
  "demo_machine = \<lparr>w_calls = [], m_home = Some ''/home/u/.local/share'', m_writable = True, m_locked = (\<lambda>_. False),
     m_dirs = (\<lambda>i. if i = ''app-1'' then Some NoFile else None), m_ids = [''app-1''], m_files = (\<lambda>_. None)\<rparr>"

lemma state_save_load_witness:
  "let st = zero_state\<lparr>st_id := ''app-1'', st_name := ''app''\<rparr>; r = state_save ''app-1'' st demo_machine in
   fst r \<and> state_peek ''app-1'' (snd r) = Some st"
proof -
  let ?st = "zero_state\<lparr>st_id := ''app-1'', st_name := ''app''\<rparr>"
  obtain m' where m': "state_save ''app-1'' ?st demo_machine = (True, m')"
    by (simp add: state_save_def demo_machine_def)
  with state_save_load [OF m'] show ?thesis by (simp add: demo_machine_def Let_def)
qed

end
