(* ===== verification/GoTime.thy ===== *)
theory GoTime
  imports GoStrings
begin

text \<open>What devc uses of package \<open>time\<close>: a civil time as the clock shows it, and two of its layouts.\<close>

record civil =
  cv_year :: nat
  cv_month :: nat
  cv_day :: nat
  cv_hour :: nat
  cv_minute :: nat
  cv_second :: nat

definition zero_pad :: "nat \<Rightarrow> nat \<Rightarrow> string" where
  "zero_pad k n = replicate (k - length (nat_digits n)) CHR ''0'' @ nat_digits n"

definition rfc3339 :: "civil \<Rightarrow> string" where
  "rfc3339 t = zero_pad 4 (cv_year t) @ ''-'' @ zero_pad 2 (cv_month t) @ ''-'' @ zero_pad 2 (cv_day t) @ ''T''
     @ zero_pad 2 (cv_hour t) @ '':'' @ zero_pad 2 (cv_minute t) @ '':'' @ zero_pad 2 (cv_second t) @ ''Z''"

definition compact_time :: "civil \<Rightarrow> string" where
  "compact_time t = zero_pad 4 (cv_year t) @ zero_pad 2 (cv_month t) @ zero_pad 2 (cv_day t) @ ''-''
     @ zero_pad 2 (cv_hour t) @ zero_pad 2 (cv_minute t) @ zero_pad 2 (cv_second t)"

lemma rfc3339_not_Nil [simp]: "rfc3339 t \<noteq> []"
  by (simp add: rfc3339_def)

end
