(* ===== verification/Hooks.thy ===== *)
theory Hooks
  imports Inspect StateStore GoTime
begin

text \<open>
  Lifecycle hooks: \<open>hooks/run.go\<close>, and their use in \<open>cmd/devc/hooks.go\<close> and \<open>cmd/devc/session_env.go\<close>.
  The entries of a named command run concurrently; \<open>sched\<close> is the order in which they come to an end,
  any rearrangement of their names, and an entry that is cancelled is one whose process the oracle
  fails. \<open>now\<close> is the clock's RFC 3339 text.
\<close>

section \<open>hooks.Run\<close>

text \<open>An \<open>Executor\<close> runs one argv; \<open>None\<close> is success.\<close>

type_synonym ('w, 'e) executor = "string list \<Rightarrow> 'w \<Rightarrow> 'e option \<times> 'w"

datatype 'e run_error = CommandFailed 'e | EntryFailed string 'e

fun to_argv :: "command \<Rightarrow> string list" where
  "to_argv (CommandShell s) = [''/bin/sh'', ''-c'', s]"
| "to_argv (CommandArgv xs) = xs"
| "to_argv _ = []"

definition entry :: "(string \<times> command) list \<Rightarrow> string \<Rightarrow> command" where
  "entry cs n = (case map_of cs n of None \<Rightarrow> CommandNone | Some c \<Rightarrow> c)"

text \<open>The goroutines, in the order they end: every one runs, the first failure is kept.\<close>

fun run_entries :: "('w, 'e) executor \<Rightarrow> (string \<times> command) list \<Rightarrow> string list \<Rightarrow> 'e run_error option
    \<Rightarrow> 'w \<Rightarrow> 'e run_error option \<times> 'w" where
  "run_entries exec cs [] first w = (first, w)"
| "run_entries exec cs (n # ns) first w =
     (case exec (to_argv (entry cs n)) w of (err, w') \<Rightarrow>
        run_entries exec cs ns
          (case first of Some _ \<Rightarrow> first | None \<Rightarrow> map_option (EntryFailed n) err) w')"

definition run_named :: "(string list \<Rightarrow> string list) \<Rightarrow> ('w, 'e) executor \<Rightarrow> (string \<times> command) list
    \<Rightarrow> 'w \<Rightarrow> 'e run_error option \<times> 'w" where
  "run_named sched exec cs w = run_entries exec cs (sched (sorted_keys cs)) None w"

fun run_hook :: "(string list \<Rightarrow> string list) \<Rightarrow> ('w, 'e) executor \<Rightarrow> command \<Rightarrow> 'w
    \<Rightarrow> 'e run_error option \<times> 'w" where
  "run_hook sched exec CommandNone w = (None, w)"
| "run_hook sched exec (CommandNamed cs) w = run_named sched exec cs w"
| "run_hook sched exec c w =
     (case exec (to_argv c) w of (err, w') \<Rightarrow> (map_option CommandFailed err, w'))"

text \<open>The argument lists a command runs, in the order they end.\<close>

fun command_argvs :: "(string list \<Rightarrow> string list) \<Rightarrow> command \<Rightarrow> string list list" where
  "command_argvs sched CommandNone = []"
| "command_argvs sched (CommandNamed cs) = map (\<lambda>n. to_argv (entry cs n)) (sched (sorted_keys cs))"
| "command_argvs sched c = [to_argv c]"

section \<open>Executors\<close>

text \<open>\<open>hostExecutor\<close> (with \<open>runHostArgv\<close>) and \<open>containerExecutor\<close>.\<close>

definition host_executor :: "proc \<Rightarrow> ('z world_scheme, string) executor" where
  "host_executor p argv w =
     (case argv of
        [] \<Rightarrow> (None, w)
      | b # as \<Rightarrow>
          (case exec_call p \<lparr>c_bin = b, c_args = as, c_stdin = []\<rparr> w of (rs, w') \<Rightarrow> (rs_fail rs, w')))"

record 'w uenv =
  ue_spec :: spec
  ue_runner :: "('w, info) runner_ops"
  ue_session_env :: "string gomap option"

definition effective_env :: "'w uenv \<Rightarrow> string gomap" where
  "effective_env e = (case ue_session_env e of Some env \<Rightarrow> env | None \<Rightarrow> s_remote_env (ue_spec e))"

definition container_argv :: "'w uenv \<Rightarrow> string \<Rightarrow> string list \<Rightarrow> string list" where
  "container_argv e ref argv =
     exec_args ref (s_remote_user (ue_spec e)) (s_container_folder (ue_spec e)) (effective_env e) True False argv"

definition container_executor :: "'w uenv \<Rightarrow> string \<Rightarrow> ('w, runner_error) executor" where
  "container_executor e ref argv w = ro_run (ue_runner e) (container_argv e ref argv) [] w"

definition run_initialize :: "(string list \<Rightarrow> string list) \<Rightarrow> proc \<Rightarrow> 'w uenv \<Rightarrow> 'z world_scheme
    \<Rightarrow> string run_error option \<times> 'z world_scheme" where
  "run_initialize sched p e w = run_hook sched (host_executor p) (h_initialize (s_hooks (ue_spec e))) w"

section \<open>Lifecycle hooks\<close>

datatype 'e up_error = NoStateDir | StateUnreadable | StateUnwritable | HookFailed hook_name "'e run_error"

definition create_hooks :: "spec \<Rightarrow> (hook_name \<times> command) list" where
  "create_hooks sp =
     [(HookOnCreate, h_on_create (s_hooks sp)), (HookUpdateContent, h_update_content (s_hooks sp)),
      (HookPostCreate, h_post_create (s_hooks sp))]"

text \<open>The loop over the create hooks; progress is saved after each, an error of the save ignored.\<close>

fun run_create_hooks :: "(string list \<Rightarrow> string list) \<Rightarrow> 'w store_ops \<Rightarrow> ('w \<Rightarrow> string) \<Rightarrow> ('w, 'e) executor
    \<Rightarrow> string \<Rightarrow> (hook_name \<times> command) list \<Rightarrow> state \<Rightarrow> 'w \<Rightarrow> ('e up_error + state) \<times> 'w" where
  "run_create_hooks sched s now exec i [] st w = (Inr st, w)"
| "run_create_hooks sched s now exec i ((h, c) # hs) st w =
     (if is_zero c \<or> map_get (st_hooks st) (hook_text h) \<noteq> []
      then run_create_hooks sched s now exec i hs st w
      else (case run_hook sched exec c w of
              (Some e, w1) \<Rightarrow> (Inl (HookFailed h e), w1)
            | (None, w1) \<Rightarrow>
                let st' = st\<lparr>st_hooks := map_put (hook_text h) (now w1) (st_hooks st)\<rparr> in
                run_create_hooks sched s now exec i hs st' (snd (so_save s i st' w1))))"

definition fresh_identity :: "string \<Rightarrow> bool \<Rightarrow> string \<Rightarrow> state \<Rightarrow> state" where
  "fresh_identity container_id rerun i st =
     (let st1 = (if st_container_id st \<noteq> container_id \<or> rerun then st\<lparr>st_hooks := []\<rparr> else st);
          st2 = (if st_container_id st \<noteq> container_id then st1\<lparr>st_env_probe := []\<rparr> else st1)
      in st2\<lparr>st_container_id := container_id, st_id := i\<rparr>)"

definition run_lifecycle_hooks :: "(string list \<Rightarrow> string list) \<Rightarrow> 'w store_ops \<Rightarrow> ('w \<Rightarrow> string) \<Rightarrow> ('w, 'e) executor
    \<Rightarrow> spec \<Rightarrow> string \<Rightarrow> bool \<Rightarrow> bool \<Rightarrow> 'w \<Rightarrow> 'e up_error option \<times> 'w" where
  "run_lifecycle_hooks sched s now exec sp container_id skip rerun w =
     (if skip then (None, w)
      else (case so_for s (s_id sp) w of
        (False, w1) \<Rightarrow> (Some NoStateDir, w1)
      | (True, w1) \<Rightarrow>
      (case so_load s (s_id sp) w1 of
        None \<Rightarrow> (Some StateUnreadable, w1)
      | Some st \<Rightarrow>
      (case run_create_hooks sched s now exec (s_id sp) (create_hooks sp)
              (fresh_identity container_id rerun (s_id sp) st) w1 of
        (Inl e, w2) \<Rightarrow> (Some e, w2)
      | (Inr st', w2) \<Rightarrow>
      (case run_hook sched exec (h_post_start (s_hooks sp)) w2 of
        (Some e, w3) \<Rightarrow> (Some (HookFailed HookPostStart e), w3)
      | (None, w3) \<Rightarrow>
          (case so_save s (s_id sp) st' w3 of
             (ok, w4) \<Rightarrow> (if ok then None else Some StateUnwritable, w4)))))))"

definition run_post_attach :: "(string list \<Rightarrow> string list) \<Rightarrow> ('w, 'e) executor \<Rightarrow> spec \<Rightarrow> bool \<Rightarrow> 'w
    \<Rightarrow> 'e up_error option \<times> 'w" where
  "run_post_attach sched exec sp skip w =
     (if skip then (None, w)
      else (case run_hook sched exec (h_post_attach (s_hooks sp)) w of
              (err, w') \<Rightarrow> (map_option (HookFailed HookPostAttach) err, w')))"

section \<open>The session environment\<close>

definition probe_is_fresh :: "state \<Rightarrow> string \<Rightarrow> string \<Rightarrow> bool" where
  "probe_is_fresh st container_id version \<longleftrightarrow>
     st_env_probe st \<noteq> [] \<and> st_container_id st = container_id \<and> st_env_probe_version st = version"

definition load_or_run_probe :: "'w store_ops \<Rightarrow> string \<Rightarrow> 'w uenv \<Rightarrow> string \<Rightarrow> string \<Rightarrow> 'w \<Rightarrow> string gomap \<times> 'w" where
  "load_or_run_probe s version e ref container_id w =
     (case so_for s (s_id (ue_spec e)) w of
        (False, w1) \<Rightarrow> ([], w1)
      | (True, w1) \<Rightarrow>
      (case so_load s (s_id (ue_spec e)) w1 of
        None \<Rightarrow> ([], w1)
      | Some st \<Rightarrow>
          if probe_is_fresh st container_id version then (st_env_probe st, w1)
          else (case probe_env (ue_runner e) ref (s_remote_user (ue_spec e)) (s_env_probe (ue_spec e)) w1 of
                  (probe, w2) \<Rightarrow>
                    (probe, snd (so_save s (s_id (ue_spec e))
                       (st\<lparr>st_env_probe := probe, st_env_probe_version := version,
                           st_container_id := container_id\<rparr>) w2)))))"

definition resolve_session_env :: "'w store_ops \<Rightarrow> string \<Rightarrow> 'w uenv \<Rightarrow> string \<Rightarrow> string \<Rightarrow> 'w \<Rightarrow> string gomap \<times> 'w" where
  "resolve_session_env s version e ref container_id w =
     (case load_or_run_probe s version e ref container_id w of (probe, w') \<Rightarrow>
        (map_copy (map_copy [] probe) (s_remote_env (ue_spec e)), w'))"

section \<open>What running a command does\<close>

text \<open>The outcome of every entry, in the order they end.\<close>

fun entry_outcomes :: "('w, 'e) executor \<Rightarrow> (string \<times> command) list \<Rightarrow> string list \<Rightarrow> 'w
    \<Rightarrow> (string \<times> 'e option) list" where
  "entry_outcomes exec cs [] w = []"
| "entry_outcomes exec cs (n # ns) w =
     (case exec (to_argv (entry cs n)) w of (err, w') \<Rightarrow> (n, err) # entry_outcomes exec cs ns w')"

fun first_failure :: "(string \<times> 'e option) list \<Rightarrow> 'e run_error option" where
  "first_failure [] = None"
| "first_failure ((n, None) # os) = first_failure os"
| "first_failure ((n, Some e) # os) = Some (EntryFailed n e)"

lemma run_entries_some: "fst (run_entries exec cs ns (Some x) w) = Some x"
  by (induction ns arbitrary: w) (auto split: prod.split)

lemma run_entries_first:
  "fst (run_entries exec cs ns None w) = first_failure (entry_outcomes exec cs ns w)"
proof (induction ns arbitrary: w)
  case (Cons n ns)
  obtain err w' where "exec (to_argv (entry cs n)) w = (err, w')" by fastforce
  with Cons show ?case by (cases err) (simp_all add: run_entries_some)
qed simp

lemma first_failure_None: "first_failure os = None \<longleftrightarrow> list_all (\<lambda>o'. snd o' = None) os"
  by (induction os rule: first_failure.induct) auto

locale executor =
  fixes exec :: "('w, 'e) executor" and calls :: "'w \<Rightarrow> 'c list" and stamp :: "string list \<Rightarrow> 'c"
  assumes exec_calls: "calls (snd (exec argv w)) = calls w @ [stamp argv]"
begin

lemma run_entries_calls:
  "calls (snd (run_entries exec cs ns first w)) = calls w @ map (\<lambda>n. stamp (to_argv (entry cs n))) ns"
proof (induction ns arbitrary: first w)
  case (Cons n ns)
  obtain err w' where e: "exec (to_argv (entry cs n)) w = (err, w')" by fastforce
  then have "calls w' = calls w @ [stamp (to_argv (entry cs n))]"
    using exec_calls [of "to_argv (entry cs n)" w] by simp
  with e Cons show ?case by simp
qed simp

lemma run_hook_calls:
  "calls (snd (run_hook sched exec c w)) = calls w @ map stamp (command_argvs sched c)"
  by (cases c) (simp_all add: run_named_def run_entries_calls exec_calls split_beta)

end

lemma container_executor_calls:
  assumes "ue_runner e = cli_ops decode p c"
  shows "executor (container_executor e ref) (\<lambda>w. map c_args (w_calls w))
    (\<lambda>argv. cli_argv c (container_argv e ref argv))"
  by unfold_locales (simp add: container_executor_def assms cli.run_calls)

section \<open>Pending hooks\<close>

text \<open>The hooks that have a command and no marker, and the argument lists they run.\<close>

definition pending_hooks :: "state \<Rightarrow> (hook_name \<times> command) list \<Rightarrow> (hook_name \<times> command) list" where
  "pending_hooks st hs = filter (\<lambda>(h, c). \<not> is_zero c \<and> map_get (st_hooks st) (hook_text h) = []) hs"

definition hook_argvs :: "(string list \<Rightarrow> string list) \<Rightarrow> (hook_name \<times> command) list \<Rightarrow> string list list" where
  "hook_argvs sched hs = concat (map (\<lambda>(h, c). command_argvs sched c) hs)"

text \<open>What is stored when the loop ends, and what a failure leaves for the next run.\<close>

definition keeps_state :: "state \<Rightarrow> state \<Rightarrow> bool" where
  "keeps_state st st' \<longleftrightarrow> (\<exists>hm. st' = st\<lparr>st_hooks := hm\<rparr>
     \<and> (\<forall>k. map_get (st_hooks st) k \<noteq> [] \<longrightarrow> map_get hm k \<noteq> []))"

lemma keeps_state_refl: "keeps_state st st"
  unfolding keeps_state_def by (rule exI [of _ "st_hooks st"]) simp

lemma keeps_state_put:
  "keeps_state (st\<lparr>st_hooks := map_put k v (st_hooks st)\<rparr>) st' \<Longrightarrow> v \<noteq> [] \<Longrightarrow>
   keeps_state st st' \<and> map_get (st_hooks st') k \<noteq> []"
  unfolding keeps_state_def by (auto split: if_splits)

lemma keeps_state_marked:
  "keeps_state st st' \<Longrightarrow> map_get (st_hooks st) k \<noteq> [] \<Longrightarrow> map_get (st_hooks st') k \<noteq> []"
  by (auto simp: keeps_state_def)

definition left_for_next :: "'e up_error + state \<Rightarrow> (hook_name \<times> command) list \<Rightarrow> state \<Rightarrow> state option \<Rightarrow> state option \<Rightarrow> bool" where
  "left_for_next res hs st before after =
     (case res of
        Inr st' \<Rightarrow> keeps_state st st' \<and> pending_hooks st' hs = []
      | Inl err \<Rightarrow> (\<exists>st' h e. err = HookFailed h e \<and> keeps_state st st' \<and> pending_hooks st' hs \<noteq> []
            \<and> fst (hd (pending_hooks st' hs)) = h \<and> (after = Some st' \<or> st' = st \<and> after = before)))"

lemma fresh_identity_same:
  "st_container_id st = cid \<Longrightarrow> pending_hooks (fresh_identity cid False i st) hs = pending_hooks st hs"
  by (simp add: fresh_identity_def pending_hooks_def Let_def)

lemma fresh_identity_new:
  "st_container_id st \<noteq> cid \<or> rerun \<Longrightarrow>
   pending_hooks (fresh_identity cid rerun i st) hs = filter (\<lambda>(h, c). \<not> is_zero c) hs"
  by (simp add: fresh_identity_def pending_hooks_def Let_def map_get_def)

lemma left_for_next_cong:
  assumes "left_for_next res hs st1 b1 a"
    and "\<And>st'. keeps_state st1 st' \<Longrightarrow> keeps_state st st' \<and> pending_hooks st' hs' = pending_hooks st' hs"
    and "st1 = st \<and> b1 = b \<or> b1 = Some st1"
  shows "left_for_next res hs' st b a"
proof (cases res)
  case (Inl err)
  with assms(1) obtain st' h e where
    *: "err = HookFailed h e" "keeps_state st1 st'" "pending_hooks st' hs \<noteq> []"
      "fst (hd (pending_hooks st' hs)) = h" "a = Some st' \<or> st' = st1 \<and> a = b1"
    unfolding left_for_next_def by auto
  with assms(2) [OF *(2)] assms(3) show ?thesis
    unfolding left_for_next_def Inl sum.case
    by (intro exI [of _ st'] exI [of _ h] exI [of _ e]) auto
next
  case (Inr st')
  with assms(1,2) show ?thesis by (simp add: left_for_next_def)
qed

lemma pending_put:
  "h \<notin> fst ` set hs \<Longrightarrow> pending_hooks (st\<lparr>st_hooks := map_put (hook_text h) v (st_hooks st)\<rparr>) hs = pending_hooks st hs"
  by (induction hs) (auto simp: pending_hooks_def)

section \<open>The lifecycle inside the interfaces\<close>

text \<open>
  Hooks that run as processes and a store they do not touch. \<open>now\<close> never returns the empty text, which
  marks a hook that has not run.
\<close>

locale lifecycle = executor exec calls stamp + store s calls ready
  for exec :: "('w, 'e) executor" and calls :: "'w \<Rightarrow> 'c list" and stamp :: "string list \<Rightarrow> 'c"
    and s :: "'w store_ops" and ready :: "string \<Rightarrow> 'w \<Rightarrow> bool" +
  fixes now :: "'w \<Rightarrow> string"
  assumes exec_load: "so_load s i (snd (exec argv w)) = so_load s i w"
    and exec_ready: "ready i w \<Longrightarrow> ready i (snd (exec argv w))"
    and now_set: "now w \<noteq> []"
begin

lemma run_entries_store:
  "so_load s i (snd (run_entries exec cs ns first w)) = so_load s i w \<and>
   (ready i w \<longrightarrow> ready i (snd (run_entries exec cs ns first w)))"
proof (induction ns arbitrary: first w)
  case (Cons n ns)
  obtain err w' where "exec (to_argv (entry cs n)) w = (err, w')" by fastforce
  with Cons exec_load [of i "to_argv (entry cs n)" w] exec_ready [of i w "to_argv (entry cs n)"]
  show ?case by simp
qed simp

lemma run_hook_store:
  "so_load s i (snd (run_hook sched exec c w)) = so_load s i w"
  "ready i w \<Longrightarrow> ready i (snd (run_hook sched exec c w))"
  using exec_load [of i] exec_ready [of i]
  by (cases c; simp add: run_named_def run_entries_store split_beta)+

lemma create_hooks_calls:
  "distinct (map fst hs) \<Longrightarrow>
   \<exists>as. calls (snd (run_create_hooks sched s now exec i hs st w)) = calls w @ map stamp as
     \<and> (case fst (run_create_hooks sched s now exec i hs st w) of
          Inr _ \<Rightarrow> as = hook_argvs sched (pending_hooks st hs)
        | Inl _ \<Rightarrow> prefix as (hook_argvs sched (pending_hooks st hs)))
     \<and> (pending_hooks st hs = [] \<or> prefix (command_argvs sched (snd (hd (pending_hooks st hs)))) as)"
proof (induction hs arbitrary: st w)
  case Nil
  then show ?case by (simp add: pending_hooks_def hook_argvs_def)
next
  case (Cons hc hs)
  obtain h c where hc: "hc = (h, c)" by (cases hc)
  have dist: "distinct (map fst hs)" "h \<notin> fst ` set hs" using Cons.prems hc by auto
  show ?case
  proof (cases "is_zero c \<or> map_get (st_hooks st) (hook_text h) \<noteq> []")
    case True
    then have pend: "pending_hooks st (hc # hs) = pending_hooks st hs" by (auto simp: pending_hooks_def hc)
    have run: "run_create_hooks sched s now exec i (hc # hs) st w = run_create_hooks sched s now exec i hs st w"
      using True hc by simp
    show ?thesis unfolding run pend by (rule Cons.IH [OF dist(1)])
  next
    case False
    then have pend: "pending_hooks st (hc # hs) = (h, c) # pending_hooks st hs" by (simp add: pending_hooks_def hc)
    obtain err w1 where run: "run_hook sched exec c w = (err, w1)" by fastforce
    have w1: "calls w1 = calls w @ map stamp (command_argvs sched c)"
      using run_hook_calls [of sched c w] run by simp
    show ?thesis
    proof (cases err)
      case (Some e)
      with False run hc w1 pend show ?thesis
        by (intro exI [of _ "command_argvs sched c"]) (simp add: hook_argvs_def)
    next
      case None
      define st' where "st' = st\<lparr>st_hooks := map_put (hook_text h) (now w1) (st_hooks st)\<rparr>"
      obtain b w2 where save: "so_save s i st' w1 = (b, w2)" by fastforce
      have step: "run_create_hooks sched s now exec i (hc # hs) st w = run_create_hooks sched s now exec i hs st' w2"
        using False run None hc save by (simp add: Let_def flip: st'_def)
      have same: "pending_hooks st' hs = pending_hooks st hs" unfolding st'_def using dist(2) by (rule pending_put)
      obtain as where
        "calls (snd (run_create_hooks sched s now exec i hs st' w2)) = calls w2 @ map stamp as"
        "case fst (run_create_hooks sched s now exec i hs st' w2) of
           Inr _ \<Rightarrow> as = hook_argvs sched (pending_hooks st hs) | Inl _ \<Rightarrow> prefix as (hook_argvs sched (pending_hooks st hs))"
        using Cons.IH [OF dist(1), of st' w2, unfolded same] by blast
      with step w1 save_calls [OF save] pend show ?thesis
        by (intro exI [of _ "command_argvs sched c @ as"]) (auto simp: hook_argvs_def split: sum.splits)
    qed
  qed
qed

lemma create_hooks_store:
  assumes "ready i w"
  shows "ready i (snd (run_create_hooks sched s now exec i hs st w))
    \<and> left_for_next (fst (run_create_hooks sched s now exec i hs st w)) hs st (so_load s i w)
        (so_load s i (snd (run_create_hooks sched s now exec i hs st w)))"
  using assms
proof (induction hs arbitrary: st w)
  case Nil
  then show ?case by (simp add: left_for_next_def keeps_state_refl pending_hooks_def)
next
  case (Cons hc hs)
  obtain h c where hc: "hc = (h, c)" by (cases hc)
  show ?case
  proof (cases "is_zero c \<or> map_get (st_hooks st) (hook_text h) \<noteq> []")
    case True
    have run: "run_create_hooks sched s now exec i (hc # hs) st w = run_create_hooks sched s now exec i hs st w"
      using True hc by simp
    have pend: "pending_hooks st' (hc # hs) = pending_hooks st' hs" if "keeps_state st st'" for st'
      using True keeps_state_marked [OF that] by (auto simp: pending_hooks_def hc)
    have "left_for_next res (hc # hs) st b a" if "left_for_next res hs st b a" for res b a
      using that by (rule left_for_next_cong) (simp_all add: pend)
    with Cons.IH [OF Cons.prems, of st] show ?thesis unfolding run by blast
  next
    case False
    obtain err w1 where run: "run_hook sched exec c w = (err, w1)" by fastforce
    have w1: "so_load s i w1 = so_load s i w" "ready i w1"
      using run_hook_store(1) [of i sched c w] run_hook_store(2) [of i w sched c] run Cons.prems by simp_all
    show ?thesis
    proof (cases err)
      case (Some e)
      then have "run_create_hooks sched s now exec i (hc # hs) st w = (Inl (HookFailed h e), w1)"
        using False run hc by simp
      moreover have "pending_hooks st (hc # hs) = (h, c) # pending_hooks st hs"
        using False by (simp add: pending_hooks_def hc)
      ultimately show ?thesis
        using w1 by (auto simp: left_for_next_def intro!: exI [of _ st] keeps_state_refl)
    next
      case None
      define st' where "st' = st\<lparr>st_hooks := map_put (hook_text h) (now w1) (st_hooks st)\<rparr>"
      obtain b w2 where save: "so_save s i st' w1 = (b, w2)" by fastforce
      have step: "run_create_hooks sched s now exec i (hc # hs) st w = run_create_hooks sched s now exec i hs st' w2"
        using False run None hc save by (simp add: Let_def flip: st'_def)
      have w2: "so_load s i w2 = Some st'" "ready i w2" using save_ready_load [OF w1(2) save] by blast+
      have marked: "keeps_state st st'' \<and> pending_hooks st'' (hc # hs) = pending_hooks st'' hs"
        if "keeps_state st' st''" for st''
        using keeps_state_put [OF that [unfolded st'_def] now_set] by (simp add: pending_hooks_def hc)
      have "left_for_next res (hc # hs) st b' a" if "left_for_next res hs st' (Some st') a" for res b' a
        using that by (rule left_for_next_cong) (simp_all add: marked)
      with Cons.IH [OF w2(2), of st'] show ?thesis unfolding step w2(1) by blast
    qed
  qed
qed

text \<open>A run without skipping, opened up once for the lemmas below.\<close>

lemma lifecycle_unfold:
  assumes ready: "ready (s_id sp) w" and load: "so_load s (s_id sp) w = Some st"
  obtains w1 where "calls w1 = calls w" "ready (s_id sp) w1" "so_load s (s_id sp) w1 = Some st"
    "run_lifecycle_hooks sched s now exec sp cid False rerun w =
       (case run_create_hooks sched s now exec (s_id sp) (create_hooks sp) (fresh_identity cid rerun (s_id sp) st) w1 of
          (Inl e, w2) \<Rightarrow> (Some e, w2)
        | (Inr st', w2) \<Rightarrow>
          (case run_hook sched exec (h_post_start (s_hooks sp)) w2 of
             (Some e, w3) \<Rightarrow> (Some (HookFailed HookPostStart e), w3)
           | (None, w3) \<Rightarrow> (case so_save s (s_id sp) st' w3 of (ok, w4) \<Rightarrow> (if ok then None else Some StateUnwritable, w4))))"
proof -
  obtain b w1 where f: "so_for s (s_id sp) w = (b, w1)" by fastforce
  have b using ready_for [OF ready] f by simp
  have "so_load s (s_id sp) w1 = Some st" using for_load [OF f] load by simp
  with f \<open>b\<close> that [OF for_calls [OF f] for_ready [OF ready f]] show ?thesis
    by (simp add: run_lifecycle_hooks_def)
qed

lemma create_hooks_distinct: "distinct (map fst (create_hooks sp))"
  by (simp add: create_hooks_def)

lemma lifecycle_success:
  assumes "ready (s_id sp) w" and "so_load s (s_id sp) w = Some st"
    and run: "run_lifecycle_hooks sched s now exec sp cid False rerun w = (None, w')"
  shows "calls w' = calls w @ map stamp (hook_argvs sched
      (pending_hooks (fresh_identity cid rerun (s_id sp) st) (create_hooks sp))
      @ command_argvs sched (h_post_start (s_hooks sp)))"
    and "ready (s_id sp) w'"
    and "\<exists>st'. so_load s (s_id sp) w' = Some st' \<and> st_container_id st' = cid \<and> pending_hooks st' (create_hooks sp) = []"
proof -
  define st0 where "st0 = fresh_identity cid rerun (s_id sp) st"
  note unfold = lifecycle_unfold [OF assms(1,2), where sched = sched and cid = cid and rerun = rerun, folded st0_def]
  obtain w1 where w1: "calls w1 = calls w" "ready (s_id sp) w1" and unf: "run_lifecycle_hooks sched s now exec sp cid False rerun w =
       (case run_create_hooks sched s now exec (s_id sp) (create_hooks sp) st0 w1 of
          (Inl e, w2) \<Rightarrow> (Some e, w2)
        | (Inr st', w2) \<Rightarrow>
          (case run_hook sched exec (h_post_start (s_hooks sp)) w2 of
             (Some e, w3) \<Rightarrow> (Some (HookFailed HookPostStart e), w3)
           | (None, w3) \<Rightarrow> (case so_save s (s_id sp) st' w3 of (ok, w4) \<Rightarrow> (if ok then None else Some StateUnwritable, w4))))"
    by (rule unfold)
  obtain res w2 where c: "run_create_hooks sched s now exec (s_id sp) (create_hooks sp) st0 w1 = (res, w2)" by fastforce
  with unf run obtain st' where res: "res = Inr st'" by (cases res) auto
  obtain err w3 where h: "run_hook sched exec (h_post_start (s_hooks sp)) w2 = (err, w3)" by fastforce
  obtain ok where sv: "so_save s (s_id sp) st' w3 = (ok, w')" "err = None" ok
    using unf run c res h by (auto split: option.splits prod.splits if_splits)
  have w2: "calls w2 = calls w1 @ map stamp (hook_argvs sched (pending_hooks st0 (create_hooks sp)))"
    using create_hooks_calls [OF create_hooks_distinct [of sp], where sched = sched and i = "s_id sp" and st = st0 and w = w1] c res by auto
  have st: "ready (s_id sp) w2" "keeps_state st0 st'" "pending_hooks st' (create_hooks sp) = []"
    using create_hooks_store [OF w1(2), where sched = sched and hs = "create_hooks sp" and st = st0] c res by (simp_all add: left_for_next_def)
  have w3: "calls w3 = calls w2 @ map stamp (command_argvs sched (h_post_start (s_hooks sp)))" "ready (s_id sp) w3"
    using run_hook_calls [of sched _ w2] run_hook_store(2) [OF st(1), of sched] h by (metis snd_conv)+
  show "calls w' = calls w @ map stamp (hook_argvs sched
      (pending_hooks (fresh_identity cid rerun (s_id sp) st) (create_hooks sp))
      @ command_argvs sched (h_post_start (s_hooks sp)))"
    using save_calls [OF sv(1)] w3 w2 w1 by (simp add: st0_def)
  have cid: "st_container_id st' = cid"
    using st(2) by (auto simp: keeps_state_def st0_def fresh_identity_def Let_def)
  show "ready (s_id sp) w'"
    and "\<exists>st'. so_load s (s_id sp) w' = Some st' \<and> st_container_id st' = cid \<and> pending_hooks st' (create_hooks sp) = []"
    using save_ready_load [OF w3(2) sv(1)] st(3) cid by blast+
qed

text \<open>What a run that reaches the create hooks executes first.\<close>

lemma lifecycle_starts_with:
  assumes "ready (s_id sp) w" and "so_load s (s_id sp) w = Some st"
    and "pending_hooks (fresh_identity cid rerun (s_id sp) st) (create_hooks sp) = (h, c) # hs"
  shows "\<exists>as. calls (snd (run_lifecycle_hooks sched s now exec sp cid False rerun w))
    = calls w @ map stamp (command_argvs sched c @ as)"
proof -
  note unfold = lifecycle_unfold [OF assms(1,2), where sched = sched and cid = cid and rerun = rerun]
  show ?thesis
  proof (rule unfold)
    fix w1
    let ?cr = "run_create_hooks sched s now exec (s_id sp) (create_hooks sp) (fresh_identity cid rerun (s_id sp) st) w1"
    assume w1: "calls w1 = calls w" "ready (s_id sp) w1"
      and unf: "run_lifecycle_hooks sched s now exec sp cid False rerun w =
       (case ?cr of
          (Inl e, w2) \<Rightarrow> (Some e, w2)
        | (Inr st', w2) \<Rightarrow>
          (case run_hook sched exec (h_post_start (s_hooks sp)) w2 of
             (Some e, w3) \<Rightarrow> (Some (HookFailed HookPostStart e), w3)
           | (None, w3) \<Rightarrow> (case so_save s (s_id sp) st' w3 of (ok, w4) \<Rightarrow> (if ok then None else Some StateUnwritable, w4))))"
    obtain as where as: "calls (snd ?cr) = calls w @ map stamp (command_argvs sched c @ as)"
      using create_hooks_calls [OF create_hooks_distinct [of sp], where sched = sched and i = "s_id sp"
          and st = "fresh_identity cid rerun (s_id sp) st" and w = w1] assms(3) w1(1)
      by (auto simp: prefix_def)
    obtain res w2 where c: "?cr = (res, w2)" by fastforce
    show ?thesis
    proof (cases res)
      case (Inl e)
      with unf c as show ?thesis by auto
    next
      case (Inr st')
      obtain err w3 where h: "run_hook sched exec (h_post_start (s_hooks sp)) w2 = (err, w3)" by fastforce
      obtain ok w4 where sv: "so_save s (s_id sp) st' w3 = (ok, w4)" by fastforce
      have "calls w3 = calls w2 @ map stamp (command_argvs sched (h_post_start (s_hooks sp)))"
        using run_hook_calls [of sched _ w2] h by (metis snd_conv)
      with unf c as Inr h sv save_calls [OF sv] show ?thesis
        by (cases err) (auto intro!: exI [of _ "as @ command_argvs sched (h_post_start (s_hooks sp))"])
    qed
  qed
qed

lemma lifecycle_failure_leaves:
  assumes "ready (s_id sp) w" and "so_load s (s_id sp) w = Some st"
    and run: "run_lifecycle_hooks sched s now exec sp cid False False w = (Some (HookFailed h e), w')"
    and h: "h \<noteq> HookPostStart"
  obtains st' c hs where "ready (s_id sp) w'" "so_load s (s_id sp) w' = Some st'"
    "pending_hooks (fresh_identity cid False (s_id sp) st') (create_hooks sp) = (h, c) # hs"
    "(h, c) \<in> set (create_hooks sp)"
proof -
  define st0 where "st0 = fresh_identity cid False (s_id sp) st"
  note unfold = lifecycle_unfold [OF assms(1,2), where sched = sched and cid = cid and rerun = False, folded st0_def]
  obtain w1 where w1: "ready (s_id sp) w1" "so_load s (s_id sp) w1 = Some st"
    and cr: "run_create_hooks sched s now exec (s_id sp) (create_hooks sp) st0 w1 = (Inl (HookFailed h e), w')"
    by (rule unfold) (use run h in \<open>auto split: sum.splits prod.splits option.splits if_splits\<close>)
  have left: "ready (s_id sp) w'"
    "left_for_next (Inl (HookFailed h e) :: 'e up_error + state) (create_hooks sp) st0 (Some st) (so_load s (s_id sp) w')"
    using create_hooks_store [OF w1(1), where sched = sched and hs = "create_hooks sp" and st = st0] cr w1(2) by simp_all
  then obtain st' where st': "keeps_state st0 st'" "pending_hooks st' (create_hooks sp) \<noteq> []"
      "fst (hd (pending_hooks st' (create_hooks sp))) = h"
      "so_load s (s_id sp) w' = Some st' \<or> st' = st0 \<and> so_load s (s_id sp) w' = Some st"
    by (auto simp: left_for_next_def)
  obtain c hs where pend: "pending_hooks st' (create_hooks sp) = (h, c) # hs"
    using st'(2,3) by (cases "pending_hooks st' (create_hooks sp)") auto
  have "st_container_id st' = cid"
    using st'(1) by (auto simp: keeps_state_def st0_def fresh_identity_def Let_def)
  from fresh_identity_same [OF this] st'(4) pend obtain st1 where
    "so_load s (s_id sp) w' = Some st1" "pending_hooks (fresh_identity cid False (s_id sp) st1) (create_hooks sp) = (h, c) # hs"
    unfolding st0_def by metis
  moreover have "(h, c) \<in> set (create_hooks sp)"
    using pend by (metis (no_types, lifting) filter_is_subset list.set_intros(1) pending_hooks_def subsetD)
  ultimately show ?thesis using that left(1) by blast
qed

lemma lifecycle_loaded:
  assumes "ready (s_id sp) w" and "run_lifecycle_hooks sched s now exec sp cid False rerun w = (r, w')"
    and "r = None \<or> r = Some (HookFailed h e)"
  obtains st where "so_load s (s_id sp) w = Some st"
proof -
  obtain b w1 where f: "so_for s (s_id sp) w = (b, w1)" by fastforce
  have b using ready_for [OF assms(1)] f by simp
  with assms(2,3) f for_load [OF f] that show ?thesis
    by (auto simp: run_lifecycle_hooks_def split: option.splits)
qed

end

section \<open>The lifecycle in a container\<close>

text \<open>
  With \<open>time.Now().UTC().Format(time.RFC3339)\<close> on what a clock shows, and the executor of a workspace
  whose runner is the container CLI: an executor and a store as above.
\<close>

definition cli_env :: "'z world_scheme uenv \<Rightarrow> (string \<Rightarrow> info option) \<Rightarrow> proc \<Rightarrow> cli \<Rightarrow> 'z world_scheme uenv" where
  "cli_env e decode p c = e\<lparr>ue_runner := cli_ops decode p c\<rparr>"

lemma cli_env_simps [simp]:
  "ue_spec (cli_env e decode p c) = ue_spec e" "ue_runner (cli_env e decode p c) = cli_ops decode p c"
  "container_argv (cli_env e decode p c) ref argv = container_argv e ref argv"
  by (simp_all add: cli_env_def container_argv_def effective_env_def split: option.split)

lemma cli_run_machine: "\<exists>cs. snd (cli_run p c args stdin m) = m\<lparr>w_calls := cs\<rparr>"
  by (auto simp: cli_run_def cli_exec_def exec_call_def)

interpretation container: lifecycle "container_executor (cli_env e decode p c) ref" "\<lambda>m. map c_args (w_calls m)"
    "\<lambda>argv. cli_argv c (container_argv e ref argv)" disk_store disk_ready "\<lambda>m. rfc3339 (clock m)"
  for e decode p c ref clock
proof unfold_locales
  fix argv w i
  obtain cs where "snd (container_executor (cli_env e decode p c) ref argv w) = w\<lparr>w_calls := cs\<rparr>"
    using cli_run_machine by (fastforce simp: container_executor_def cli_ops_def)
  then show "so_load disk_store i (snd (container_executor (cli_env e decode p c) ref argv w)) = so_load disk_store i w"
    and "disk_ready i w \<Longrightarrow> disk_ready i (snd (container_executor (cli_env e decode p c) ref argv w))"
    by (simp_all add: disk_store_def state_load_def disk_ready_def)
qed (simp_all add: container_executor_def cli.run_calls)


text \<open>
  C3: the create hooks run once per container. After an \<open>up\<close> that ran the hooks, the next one runs only
  \<open>postStartCommand\<close> when it finds the same container and is not told to rerun; for another container, or
  with \<open>--rerun-hooks\<close>, it runs every create hook that is set, in order, then \<open>postStartCommand\<close>.
\<close>

theorem create_hooks_once:
  assumes "disk_ready (s_id sp) m"
    and first: "run_lifecycle_hooks sched disk_store (\<lambda>m. rfc3339 (clock m))
      (container_executor (cli_env e decode p c) ref) sp cid False rerun m = (None, m1)"
    and second: "run_lifecycle_hooks sched disk_store (\<lambda>m. rfc3339 (clock m))
      (container_executor (cli_env e decode p c) ref) sp cid' False rerun' m1 = (None, m2)"
  shows "map c_args (w_calls m2) = map c_args (w_calls m1) @ map (\<lambda>argv. cli_argv c (container_argv e ref argv))
    ((if cid' = cid \<and> \<not> rerun' then []
      else hook_argvs sched (filter (\<lambda>(h, cmd). \<not> is_zero cmd) (create_hooks sp)))
     @ command_argvs sched (h_post_start (s_hooks sp)))"
proof -
  obtain st where "so_load disk_store (s_id sp) m = Some st"
    by (rule container.lifecycle_loaded [OF assms(1) first]) simp
  note s1 = container.lifecycle_success [OF assms(1) this first]
  then obtain st1 where st1: "so_load disk_store (s_id sp) m1 = Some st1"
    "st_container_id st1 = cid" "pending_hooks st1 (create_hooks sp) = []" by blast
  have "pending_hooks (fresh_identity cid' rerun' (s_id sp) st1) (create_hooks sp) =
      (if cid' = cid \<and> \<not> rerun' then [] else filter (\<lambda>(h, cmd). \<not> is_zero cmd) (create_hooks sp))"
    using st1(2,3) fresh_identity_same [of st1 cid] fresh_identity_new [of st1 cid' rerun'] by auto
  with container.lifecycle_success(1) [OF s1(2) st1(1) second] show ?thesis by (simp add: hook_argvs_def)
qed


text \<open>
  The marker of the container is also written with the probe. When the hooks of a new container were
  skipped (\<open>--skip-hooks\<close>) the probe still records its identity, with the markers of the
  old container, so a later run takes the create hooks of the new container as done.
\<close>

lemma probe_env_machine: "\<exists>cs. snd (probe_env (cli_ops decode p c) ref user mode m) = m\<lparr>w_calls := cs\<rparr>"
proof (cases "probe_shell_flags mode = []")
  case True
  then show ?thesis by (intro exI [of _ "w_calls m"]) (simp add: probe_env_def)
next
  case False
  then have "snd (probe_env (cli_ops decode p c) ref user mode m) = snd (cli_output p c (exec_args ref user [] [] False False
      [''/bin/sh'', probe_shell_flags mode, ''-c'', ''env'']) m)"
    by (simp add: probe_env_def cli_ops_def split_beta)
  then show ?thesis by (simp add: cli_output_world cli_exec_def exec_call_def) blast
qed

lemma skipped_hooks_stay_skipped:
  assumes ready: "disk_ready (s_id (ue_spec e)) m" and st: "state_load (s_id (ue_spec e)) m = Some st"
    and marked: "pending_hooks st (create_hooks (ue_spec e)) = []" and new: "st_container_id st \<noteq> cid"
    and m1: "m1 = snd (load_or_run_probe disk_store version (cli_env e decode p c) ref cid m)"
    and run: "run_lifecycle_hooks sched disk_store (\<lambda>m. rfc3339 (clock m))
      (container_executor (cli_env e decode p c) ref) (ue_spec e) cid False False m1 = (None, m2)"
  shows "map c_args (w_calls m2) = map c_args (w_calls m1)
    @ map (\<lambda>argv. cli_argv c (container_argv e ref argv)) (command_argvs sched (h_post_start (s_hooks (ue_spec e))))"
proof -
  let ?i = "s_id (ue_spec e)"
  obtain probe m' where pr: "probe_env (cli_ops decode p c) ref (s_remote_user (ue_spec e)) (s_env_probe (ue_spec e)) m
    = (probe, m')" by fastforce
  let ?st = "st\<lparr>st_env_probe := probe, st_env_probe_version := version, st_container_id := cid\<rparr>"
  from probe_env_machine [of decode p c ref _ _ m] pr obtain cs where m': "m' = m\<lparr>w_calls := cs\<rparr>" by (metis snd_conv)
  then have ready': "disk_ready ?i m'" using ready by (simp add: disk_ready_def)
  have "m1 = snd (state_save ?i ?st m')"
    using m1 ready st new pr
    by (auto simp: load_or_run_probe_def disk_store_def state_for_def disk_ready_def probe_is_fresh_def)
  with ready' have m1': "disk_ready ?i m1" "so_load disk_store ?i m1 = Some ?st"
    by (auto simp: disk_store_def state_save_def disk_ready_def state_load_def read_state_def)
  have "pending_hooks (fresh_identity cid False ?i ?st) (create_hooks (ue_spec e)) = []"
    using marked fresh_identity_same [of ?st cid] by (simp add: pending_hooks_def)
  with container.lifecycle_success(1) [OF m1' run] show ?thesis by (simp add: hook_argvs_def)
qed

section \<open>Instances\<close>

definition demo_proc :: "nat option \<Rightarrow> proc" where
  "demo_proc failing cs c =
     \<lparr>rs_out = [], rs_err = [], rs_fail = (if failing = Some (List.length cs) then Some ''exit status 1'' else None)\<rparr>"

definition demo_cli :: cli where
  "demo_cli = \<lparr>cli_bin = ''podman'', cli_base = []\<rparr>"

definition demo_up_spec :: spec where
  "demo_up_spec = demo_spec\<lparr>s_id := ''app-1''\<rparr>"

definition demo_uenv :: "machine uenv" where
  "demo_uenv = \<lparr>ue_spec = demo_up_spec, ue_runner = cli_ops (\<lambda>_. None) (demo_proc None) demo_cli, ue_session_env = None\<rparr>"

definition demo_clock :: "machine \<Rightarrow> civil" where
  "demo_clock m = \<lparr>cv_year = 2024, cv_month = 5, cv_day = 1, cv_hour = 12, cv_minute = 0, cv_second = 0\<rparr>"

definition demo_run :: "nat option \<Rightarrow> string \<Rightarrow> machine \<Rightarrow> runner_error up_error option \<times> machine" where
  "demo_run failing cid m =
     run_lifecycle_hooks (\<lambda>ns. ns) disk_store (\<lambda>m. rfc3339 (demo_clock m))
       (container_executor (cli_env demo_uenv (\<lambda>_. None) (demo_proc failing) demo_cli) ''c'') demo_up_spec cid False False m"

lemma demo_runs:
  "fst (demo_run None ''id1'' demo_machine) = None"
  "fst (demo_run None ''id1'' (snd (demo_run None ''id1'' demo_machine))) = None"
  "fst (demo_run (Some 1) ''id1'' demo_machine) = Some (HookFailed HookPostCreate (CommandFailed (RunnerFailed ''exit status 1'')))"
  "disk_ready (s_id demo_up_spec) demo_machine"
  by (simp_all add: demo_run_def run_lifecycle_hooks_def demo_up_spec_def demo_spec_def demo_hooks_def
    disk_store_def state_for_def demo_machine_def state_load_def read_state_def zero_state_def
    create_hooks_def fresh_identity_def map_get_def container_executor_def cli_ops_def cli_run_def
    cli_exec_def exec_call_def demo_proc_def state_save_def disk_ready_def is_zero_def demo_clock_def Let_def)

text \<open>The arguments of the container invocation of a hook.\<close>

definition demo_argv :: "string list \<Rightarrow> string list" where
  "demo_argv argv = cli_argv demo_cli (container_argv demo_uenv ''c'' argv)"

definition calls_of :: "machine \<Rightarrow> string list list" where
  "calls_of m = map c_args (w_calls m)"


lemma create_hooks_once_witness:
  "let m1 = snd (demo_run None ''id1'' demo_machine); m2 = snd (demo_run None ''id1'' m1) in
   calls_of m2 = calls_of m1 @ [demo_argv [''/bin/sh'', ''-c'', ''date'']]"
proof -
  define m1 where "m1 = snd (demo_run None ''id1'' demo_machine)"
  define m2 where "m2 = snd (demo_run None ''id1'' m1)"
  have *: "demo_run None ''id1'' demo_machine = (None, m1)" "demo_run None ''id1'' m1 = (None, m2)"
    using demo_runs(1,2) by (auto simp: m1_def m2_def prod_eq_iff)
  have hook: "command_argvs (\<lambda>ns. ns) (h_post_start (s_hooks demo_up_spec)) = [[''/bin/sh'', ''-c'', ''date'']]"
    by (simp add: demo_up_spec_def demo_spec_def demo_hooks_def)
  show ?thesis
    using create_hooks_once [OF demo_runs(4) * [unfolded demo_run_def]]
    by (simp add: hook calls_of_def demo_argv_def flip: m1_def m2_def)
qed


end
