(* ===== verification/SshConf.thy ===== *)
theory SshConf
  imports ContainerEnv StateStore GoTime
begin

text \<open>
  Package \<open>sshconf\<close>: the Host block of a workspace (\<open>sshconf/render.go\<close>) and the \<open>Include\<close> line in the
  user's configuration (\<open>sshconf/include.go\<close>). The command in the block is run by a shell: \<open>sh_words\<close>
  below is what a POSIX shell makes of a simple command, the specification of the quoting.
\<close>

section \<open>Render\<close>

record ssh_params =
  sp_alias :: string
  sp_user :: string
  sp_devc_bin :: string
  sp_config_path :: string
  sp_runtime_path :: string
  sp_workspace_name :: string
  sp_identity_file :: string
  sp_known_hosts_file :: string
  sp_control_dir :: string
  sp_forwards :: "(int \<times> int) list"
  sp_forward_agent :: bool

text \<open>\<open>needsQuote\<close> on bytes: a rune outside ASCII needs quotes, and so do its bytes.\<close>

definition needs_quote :: "char \<Rightarrow> bool" where
  "needs_quote c \<longleftrightarrow> \<not> (is_lower c \<or> is_upper c \<or> is_digit c \<or> c \<in> set ''-_./@:,='')"

definition maybe_quote :: "string \<Rightarrow> string" where
  "maybe_quote s =
     (if s = [] then [SQ, SQ]
      else if \<not> list_ex needs_quote s then s
      else SQ # replace_byte SQ [SQ, BSL, SQ, SQ] s @ [SQ])"

definition proxy_argv :: "ssh_params \<Rightarrow> string list" where
  "proxy_argv p =
     [sp_devc_bin p, ''ssh'', ''--stdio'', ''--start'']
     @ (if sp_config_path p = [] then [] else [''--config'', sp_config_path p])
     @ (if sp_runtime_path p = [] then [] else [''--runtime'', sp_runtime_path p])
     @ (if sp_forward_agent p then [''--forward-agent''] else [])
     @ [sp_workspace_name p]"

definition proxy_command :: "ssh_params \<Rightarrow> string" where
  "proxy_command p =
     join '' ''
       ([maybe_quote (sp_devc_bin p), ''ssh'', ''--stdio'', ''--start'']
        @ (if sp_config_path p = [] then [] else [''--config'', maybe_quote (sp_config_path p)])
        @ (if sp_runtime_path p = [] then [] else [''--runtime'', maybe_quote (sp_runtime_path p)])
        @ (if sp_forward_agent p then [''--forward-agent''] else [])
        @ [maybe_quote (sp_workspace_name p)])"

definition yes_no :: "bool \<Rightarrow> string" where
  "yes_no b = (if b then ''yes'' else ''no'')"

definition forward_line :: "int \<times> int \<Rightarrow> string" where
  "forward_line f = ''    LocalForward          '' @ itoa (fst f) @ '' localhost:'' @ itoa (snd f) @ [LF]"

text \<open>
  \<open>sort.Slice\<close> by host port; two forwards of one host port may come in either order, here in the order given.
\<close>

definition render :: "ssh_params \<Rightarrow> string" where
  "render p =
     ''Host '' @ sp_alias p @ [LF]
     @ ''    HostName              '' @ sp_alias p @ [LF]
     @ ''    User                  '' @ (if sp_user p = [] then ''root'' else sp_user p) @ [LF]
     @ ''    ProxyCommand          '' @ proxy_command p @ [LF]
     @ ''    IdentityFile          '' @ sp_identity_file p @ [LF]
     @ ''    IdentitiesOnly        yes'' @ [LF]
     @ ''    UserKnownHostsFile    '' @ sp_known_hosts_file p @ [LF]
     @ ''    StrictHostKeyChecking yes'' @ [LF]
     @ ''    ControlMaster         auto'' @ [LF]
     @ ''    ControlPath           '' @ sp_control_dir p @ ''/control-%r'' @ [LF]
     @ ''    ControlPersist        10m'' @ [LF]
     @ ''    ServerAliveInterval   30'' @ [LF]
     @ ''    ForwardAgent          '' @ yes_no (sp_forward_agent p) @ [LF]
     @ concat (map forward_line (sort_key fst (sp_forwards p)))"

definition managed_file :: "string list \<Rightarrow> string" where
  "managed_file blocks =
     (let t = ''# Managed by devc. Do not edit; regenerated on `devc up`.'' @ [LF, LF] @ join [LF] blocks in
      if suffix [LF] t then t else t @ [LF])"

section \<open>Include\<close>

definition equal_fold_include :: "string \<Rightarrow> bool" where
  "equal_fold_include s \<longleftrightarrow> map lower_byte s = ''include''"

definition is_include_of :: "string \<Rightarrow> string \<Rightarrow> bool" where
  "is_include_of want raw_line =
     (let line = trim_space raw_line in
      if line = [] \<or> prefix ''#'' line then False
      else let fs = split_fields line in
        2 \<le> length fs \<and> equal_fold_include (hd fs) \<and> trim_space (trim_prefix line (hd fs)) = want)"

definition contains_include_line :: "string \<Rightarrow> string \<Rightarrow> bool" where
  "contains_include_line data include_line =
     list_ex (is_include_of (trim_space (trim_prefix include_line ''Include ''))) (scan_lines data)"

datatype include_error = ReadFailed | MkdirFailed | BackupFailed | WriteFailed

definition included_text :: "string \<Rightarrow> string \<Rightarrow> string" where
  "included_text include_line existing =
     ''# Added by devc: per-workspace ssh config.'' @ [LF] @ include_line @ [LF]
     @ (if existing = [] then []
        else (if prefix [LF] existing then [] else [LF]) @ existing)"

definition backup_path :: "civil \<Rightarrow> string \<Rightarrow> string" where
  "backup_path t user_conf = user_conf @ ''.devc-backup-'' @ compact_time t"

text \<open>The two writes: the backup when there is something to back up, then the file.\<close>

definition add_include :: "string \<Rightarrow> string \<Rightarrow> string \<Rightarrow> string \<Rightarrow> 'z machine_scheme
    \<Rightarrow> (include_error + bool) \<times> 'z machine_scheme" where
  "add_include backup user_conf include_line existing m =
     (case (if existing = [] then (True, m) else write_file backup existing m) of
        (False, m1) \<Rightarrow> (Inl BackupFailed, m1)
      | (True, m1) \<Rightarrow>
          (case write_file user_conf (included_text include_line existing) m1 of
             (False, m2) \<Rightarrow> (Inl WriteFailed, m2)
           | (True, m2) \<Rightarrow> (Inr True, m2)))"

definition existing_text :: "string \<Rightarrow> 'z machine_scheme \<Rightarrow> string" where
  "existing_text p m = (case read_file p m of Inl _ \<Rightarrow> [] | Inr s \<Rightarrow> s)"

definition ensure_include :: "('z machine_scheme \<Rightarrow> civil) \<Rightarrow> string \<Rightarrow> string \<Rightarrow> 'z machine_scheme
    \<Rightarrow> (include_error + bool) \<times> 'z machine_scheme" where
  "ensure_include clock user_conf include_path m =
     (let include_line = ''Include '' @ include_path; existing = existing_text user_conf m in
      if read_file user_conf m = Inl False then (Inl ReadFailed, m)
      else if contains_include_line existing include_line then (Inr False, m)
      else if \<not> mkdir_ok (dir user_conf) m then (Inl MkdirFailed, m)
      else add_include (backup_path (clock m) user_conf) user_conf include_line existing m)"

definition write_workspace_config :: "string \<Rightarrow> string \<Rightarrow> 'z machine_scheme \<Rightarrow> bool \<times> 'z machine_scheme" where
  "write_workspace_config p content m =
     (if mkdir_ok (dir p) m then write_file p content m else (False, m))"

definition remove_workspace_config :: "string \<Rightarrow> 'z machine_scheme \<Rightarrow> bool \<times> 'z machine_scheme" where
  "remove_workspace_config p m = remove_file p m"

section \<open>What a shell makes of the command\<close>

text \<open>
  Word splitting and quote removal of a POSIX shell for a simple command: single quotes keep everything,
  a backslash keeps the next byte, blanks end a word. A special byte outside quotes, or an open quote,
  is not a simple command.
\<close>

definition sh_special :: "char \<Rightarrow> bool" where
  "sh_special c \<longleftrightarrow> c \<in> set ''|&;<>()$`*?[]#~!{}^%'' \<or> c = DQ \<or> byte c < 32 \<or> 127 \<le> byte c"

fun sh_scan :: "bool \<Rightarrow> bool \<Rightarrow> string \<Rightarrow> string \<Rightarrow> string list option" where
  "sh_scan quoted word cur [] = (if quoted then None else Some (if word then [cur] else []))"
| "sh_scan True word cur (c # s) =
     (if c = SQ then sh_scan False True cur s else sh_scan True True (cur @ [c]) s)"
| "sh_scan False word cur (c # s) =
     (if c = SQ then sh_scan True True cur s
      else if c = CHR '' '' then
        (if word then map_option (\<lambda>ws. cur # ws) (sh_scan False False [] s) else sh_scan False False [] s)
      else if c = BSL then
        (case s of [] \<Rightarrow> None | d # s' \<Rightarrow> if d = LF then None else sh_scan False True (cur @ [d]) s')
      else if sh_special c then None
      else sh_scan False True (cur @ [c]) s)"

definition sh_words :: "string \<Rightarrow> string list option" where
  "sh_words s = sh_scan False False [] s"

lemma not_needs_quote: "\<not> needs_quote c \<Longrightarrow> c \<noteq> SQ \<and> c \<noteq> CHR '' '' \<and> c \<noteq> BSL \<and> \<not> sh_special c"
  by (auto simp: needs_quote_def is_lower_def is_upper_def is_digit_def sh_special_def)

lemma sh_scan_plain:
  "\<not> list_ex needs_quote s \<Longrightarrow> s \<noteq> [] \<or> word \<Longrightarrow> sh_scan False word cur (s @ rest) = sh_scan False True (cur @ s) rest"
proof (induction s arbitrary: word cur)
  case (Cons c s)
  then show ?case using not_needs_quote [of c] by simp
qed simp

lemma sh_scan_quoted:
  "sh_scan True True cur (replace_byte SQ [SQ, BSL, SQ, SQ] s @ SQ # rest) = sh_scan False True (cur @ s) rest"
  by (induction s arbitrary: cur) (simp_all add: replace_byte_def)

lemma sh_scan_maybe_quote: "sh_scan False word cur (maybe_quote s @ rest) = sh_scan False True (cur @ s) rest"
proof (cases "s = [] \<or> list_ex needs_quote s")
  case True
  then show ?thesis using sh_scan_quoted [of cur s rest] by (auto simp: maybe_quote_def)
next
  case False
  then show ?thesis using sh_scan_plain [of s word cur rest] by (simp add: maybe_quote_def)
qed

text \<open>A text that stands for a word in the command: quoted where needed, or plain.\<close>

definition stands_for :: "string \<Rightarrow> string \<Rightarrow> bool" where
  "stands_for q w \<longleftrightarrow> q = maybe_quote w \<or> q = w \<and> w \<noteq> [] \<and> \<not> list_ex needs_quote w"

lemma sh_scan_stands_for: "stands_for q w \<Longrightarrow> sh_scan False False [] (q @ rest) = sh_scan False True w rest"
  using sh_scan_maybe_quote [of False "[]" w rest] sh_scan_plain [of w False "[]" rest]
  by (auto simp: stands_for_def)

lemma sh_words_join: "list_all2 stands_for qs ws \<Longrightarrow> sh_words (join '' '' qs) = Some ws"
proof (induction qs arbitrary: ws rule: induct_list012)
  case 1
  then show ?case by (simp add: sh_words_def)
next
  case (2 q)
  then obtain w where "ws = [w]" "stands_for q w" by (auto simp: list_all2_Cons1)
  then show ?case using sh_scan_stands_for [of q w "[]"] by (simp add: sh_words_def)
next
  case (3 q r qs)
  then obtain w ws' where ws: "ws = w # ws'" "stands_for q w" and rest: "list_all2 stands_for (r # qs) ws'"
    unfolding list_all2_Cons1 by blast
  from 3(2) [OF rest] sh_scan_stands_for [OF ws(2), of "CHR '' '' # join '' '' (r # qs)"] show ?case
    by (simp add: sh_words_def ws(1))
qed

lemma stands_for_literals:
  "stands_for (maybe_quote w) w" "stands_for ''ssh'' ''ssh''" "stands_for ''--stdio'' ''--stdio''"
  "stands_for ''--start'' ''--start''" "stands_for ''--config'' ''--config''" "stands_for ''--runtime'' ''--runtime''"
  "stands_for ''--forward-agent'' ''--forward-agent''"
  by (simp add: stands_for_def) code_simp+

text \<open>
  The \<open>ProxyCommand\<close> runs what it says whatever the paths are. Read by a shell, it is one simple
  command whose words are the devc binary, \<open>ssh --stdio --start\<close>, the configuration and runtime paths
  when they are known, the forwarding switch and the workspace name, each exactly as given: with
  spaces, quotes, any byte.
\<close>

lemma proxy_command_words: "sh_words (proxy_command p) = Some (proxy_argv p)"
  unfolding proxy_command_def proxy_argv_def
  by (rule sh_words_join) (auto intro!: list_all2_appendI stands_for_literals)

section \<open>The Include line\<close>

lemma lead_space_space: "lead_space space_runes (CHR '' '' # s) = 1"
  by (simp add: lead_space_def space_runes_def)

lemma split_fields_acc_not_Nil: "acc \<noteq> [] \<Longrightarrow> split_fields_acc acc s \<noteq> []"
proof (induction acc s rule: split_fields_acc.induct)
  case (1 acc s)
  then show ?case by (subst split_fields_acc.simps) simp
qed

lemma split_fields_acc_printable:
  "33 \<le> byte c \<Longrightarrow> byte c < 128 \<Longrightarrow> split_fields_acc acc (c # s) = split_fields_acc (c # acc) s"
  by (subst split_fields_acc.simps) (simp add: lead_space_ascii)

lemma split_fields_include:
  assumes "path \<noteq> []" and "33 \<le> byte (hd path)" "byte (hd path) < 128"
  shows "\<exists>f fs. split_fields (''Include '' @ path) = ''Include'' # f # fs"
proof -
  obtain c t where path: "path = c # t" using assms(1) by (cases path) auto
  have "split_fields_acc [] path = split_fields_acc [c] t"
    using assms(2,3) by (simp add: path split_fields_acc_printable)
  then obtain f fs where "split_fields_acc [] path = f # fs"
    using split_fields_acc_not_Nil [of "[c]" t] by (metis list.exhaust not_Cons_self)
  moreover have "split_fields (''Include '' @ path) = ''Include'' # split_fields_acc [] path"
    by (simp add: split_fields_def split_fields_acc_printable)
      (subst split_fields_acc.simps, simp add: lead_space_space)
  ultimately show ?thesis by simp
qed

lemma trim_space_lead: "trim_space (CHR '' '' # s) = trim_space s"
proof -
  have "trim_lead space_runes (CHR '' '' # s) = trim_lead space_runes s"
    by (subst trim_lead.simps) (simp add: lead_space_space)
  then show ?thesis by (simp add: trim_space_def)
qed

text \<open>A path as \<open>devcSSHIncludeGlob\<close> makes it: one line, no space at its ends.\<close>

definition plain_path :: "string \<Rightarrow> bool" where
  "plain_path p \<longleftrightarrow> p \<noteq> [] \<and> 33 \<le> byte (hd p) \<and> byte (hd p) < 128 \<and> 33 \<le> byte (last p) \<and> byte (last p) < 128
     \<and> LF \<notin> set p \<and> length p < 65528"

lemma is_include_of_line:
  assumes "plain_path path"
  shows "is_include_of path (''Include '' @ path)"
proof -
  have trim: "trim_space (''Include '' @ path) = ''Include '' @ path" "trim_space path = path"
    using assms by (auto simp: plain_path_def intro!: trim_space_printable)
  obtain f fs where "split_fields (''Include '' @ path) = ''Include'' # f # fs"
    using split_fields_include assms unfolding plain_path_def by blast
  moreover have "trim_prefix (''Include '' @ path) ''Include'' = CHR '' '' # path"
    by (simp add: trim_prefix_def)
  moreover have "equal_fold_include ''Include''" by code_simp
  ultimately show ?thesis
    using trim_space_lead [of path] trim unfolding is_include_of_def by (simp add: Let_def)
qed

lemma split_on_snoc: "c \<notin> set x \<Longrightarrow> split_on c (x @ c # s) = x # split_on c s"
  by (rule split_on_append)

lemma raw_lines_Cons: "LF \<notin> set x \<Longrightarrow> raw_lines (x @ LF # s) = x # raw_lines s"
  by (simp add: raw_lines_def split_on_snoc Let_def)

lemma included_found:
  assumes "plain_path path"
  shows "contains_include_line (included_text (''Include '' @ path) existing) (''Include '' @ path)"
proof -
  define tail where "tail = (if existing = [] then [] else (if prefix [LF] existing then [] else [LF]) @ existing)"
  have "raw_lines (included_text (''Include '' @ path) existing) =
      ''# Added by devc: per-workspace ssh config.'' # (''Include '' @ path) # raw_lines tail"
    using raw_lines_Cons [of "''# Added by devc: per-workspace ssh config.''" "''Include '' @ path @ LF # tail"]
      raw_lines_Cons [of "''Include '' @ path" tail] assms
    by (simp add: included_text_def tail_def plain_path_def)
  moreover have "drop_cr (''Include '' @ path) = ''Include '' @ path"
    using assms by (auto simp: drop_cr_def plain_path_def)
  ultimately have "''Include '' @ path \<in> set (scan_lines (included_text (''Include '' @ path) existing))"
    using assms by (simp add: scan_lines_def plain_path_def max_token_def)
  moreover have "trim_space (trim_prefix (''Include '' @ path) ''Include '') = path"
    using assms by (auto simp: trim_prefix_def plain_path_def intro!: trim_space_printable)
  ultimately show ?thesis
    using is_include_of_line [OF assms] unfolding contains_include_line_def list_ex_iff by metis
qed

lemma add_include_cases:
  assumes "add_include backup conf line old m = (r, m')" and "backup \<noteq> conf"
  shows "r = Inr True \<and> read_file conf m' = Inr (included_text line old) \<and> (old = [] \<or> read_file backup m' = Inr old)
    \<or> (\<exists>e. r = Inl e) \<and> read_file conf m' = read_file conf m"
  using assms by (auto simp: add_include_def write_file_def read_file_def split: if_splits)


definition demo_home :: machine where
  "demo_home = demo_machine\<lparr>m_files := (\<lambda>_. None)(''/home/u/.ssh/config'' \<mapsto> Readable ''Host x'')\<rparr>"

definition demo_time :: civil where
  "demo_time = \<lparr>cv_year = 2024, cv_month = 5, cv_day = 1, cv_hour = 12, cv_minute = 0, cv_second = 9\<rparr>"


end
