(* ===== verification/Keys.thy ===== *)
theory Keys
  imports StateStore
begin

text \<open>
  Package \<open>keys\<close> (\<open>keys/keys.go\<close>): the key files of a workspace. \<open>gen\<close> makes a fresh key pair as the two
  file texts (\<open>ed25519.GenerateKey\<close> and the encoders of \<open>golang.org/x/crypto/ssh\<close>), \<open>canon\<close> parses a public
  key line and marshals it back without its line end, \<open>parse\<close> takes the first key off an
  \<open>authorized_keys\<close> text.
\<close>

record key_set =
  ks_dir :: string
  ks_client_private :: string
  ks_client_public :: string
  ks_host_private :: string
  ks_host_public :: string
  ks_known_hosts :: string

definition paths_in :: "string \<Rightarrow> key_set" where
  "paths_in d =
     \<lparr>ks_dir = d, ks_client_private = path_join [d, ''id_ed25519''],
      ks_client_public = path_join [d, ''id_ed25519.pub''], ks_host_private = path_join [d, ''host_key''],
      ks_host_public = path_join [d, ''host_key.pub''], ks_known_hosts = path_join [d, ''known_hosts'']\<rparr>"

type_synonym 'w key_gen = "'w \<Rightarrow> (string \<times> string) option"

datatype key_error = KeyDirFailed | ClientKeyFailed | HostKeyFailed | KnownHostsFailed | RemoveFailed string

definition has_file :: "string \<Rightarrow> 'z machine_scheme \<Rightarrow> bool" where
  "has_file p m \<longleftrightarrow> m_files m p \<noteq> None"

definition generate_key_pair :: "'z machine_scheme key_gen \<Rightarrow> string \<Rightarrow> string \<Rightarrow> 'z machine_scheme
    \<Rightarrow> bool \<times> 'z machine_scheme" where
  "generate_key_pair gen priv pub m =
     (case gen m of
        None \<Rightarrow> (False, m)
      | Some (pr, pu) \<Rightarrow>
          (case write_file priv pr m of
             (False, m1) \<Rightarrow> (False, m1)
           | (True, m1) \<Rightarrow> write_file pub pu m1))"

definition write_known_hosts :: "(string \<Rightarrow> string option) \<Rightarrow> string \<Rightarrow> string \<Rightarrow> string \<Rightarrow> 'z machine_scheme
    \<Rightarrow> bool \<times> 'z machine_scheme" where
  "write_known_hosts canon path alias host_pub m =
     (case read_file host_pub m of
        Inl _ \<Rightarrow> (False, m)
      | Inr t \<Rightarrow>
          (case canon t of
             None \<Rightarrow> (False, m)
           | Some k \<Rightarrow> write_file path (alias @ '' '' @ k @ [LF]) m))"

text \<open>\<open>Ensure\<close>: one pair is generated when its private half is missing.\<close>

definition ensure_pair :: "'z machine_scheme key_gen \<Rightarrow> string \<Rightarrow> string \<Rightarrow> 'z machine_scheme
    \<Rightarrow> bool \<times> 'z machine_scheme" where
  "ensure_pair gen priv pub m = (if has_file priv m then (True, m) else generate_key_pair gen priv pub m)"

definition ensure_keys :: "'z machine_scheme key_gen \<Rightarrow> (string \<Rightarrow> string option) \<Rightarrow> string \<Rightarrow> string
    \<Rightarrow> 'z machine_scheme \<Rightarrow> (key_error + key_set) \<times> 'z machine_scheme" where
  "ensure_keys gen canon d alias m =
     (if \<not> mkdir_ok d m then (Inl KeyDirFailed, m)
      else
        let s = paths_in d in
        (case ensure_pair gen (ks_client_private s) (ks_client_public s) m of
           (False, m1) \<Rightarrow> (Inl ClientKeyFailed, m1)
         | (True, m1) \<Rightarrow>
         (case ensure_pair gen (ks_host_private s) (ks_host_public s) m1 of
           (False, m2) \<Rightarrow> (Inl HostKeyFailed, m2)
         | (True, m2) \<Rightarrow>
         (case write_known_hosts canon (ks_known_hosts s) alias (ks_host_public s) m2 of
           (False, m3) \<Rightarrow> (Inl KnownHostsFailed, m3)
         | (True, m3) \<Rightarrow> (Inr s, m3)))))"

fun remove_files :: "string list \<Rightarrow> 'z machine_scheme \<Rightarrow> string option \<times> 'z machine_scheme" where
  "remove_files [] m = (None, m)"
| "remove_files (p # ps) m =
     (case remove_file p m of (False, m') \<Rightarrow> (Some p, m') | (True, m') \<Rightarrow> remove_files ps m')"

definition rotate_keys :: "'z machine_scheme key_gen \<Rightarrow> (string \<Rightarrow> string option) \<Rightarrow> string \<Rightarrow> string
    \<Rightarrow> 'z machine_scheme \<Rightarrow> (key_error + key_set) \<times> 'z machine_scheme" where
  "rotate_keys gen canon d alias m =
     (let s = paths_in d in
      case remove_files [ks_client_private s, ks_client_public s, ks_host_private s, ks_host_public s] m of
        (Some p, m1) \<Rightarrow> (Inl (RemoveFailed p), m1)
      | (None, m1) \<Rightarrow> ensure_keys gen canon d alias m1)"

text \<open>The loop of \<open>LoadAuthorized\<close>; each key takes at least one byte, so the length of the text is enough fuel.\<close>

fun authorized_loop :: "(string \<Rightarrow> ('k \<times> string) option) \<Rightarrow> nat \<Rightarrow> string \<Rightarrow> 'k list" where
  "authorized_loop parse 0 rest = []"
| "authorized_loop parse (Suc n) rest =
     (if rest = [] then []
      else (case parse rest of None \<Rightarrow> [] | Some (k, rest') \<Rightarrow> k # authorized_loop parse n rest'))"

definition load_authorized :: "(string \<Rightarrow> ('k \<times> string) option) \<Rightarrow> string \<Rightarrow> 'z machine_scheme \<Rightarrow> 'k list option" where
  "load_authorized parse p m =
     (case read_file p m of
        Inl _ \<Rightarrow> None
      | Inr t \<Rightarrow> (let ks = authorized_loop parse (length t) t in if ks = [] then None else Some ks))"

lemma authorized_loop_fuel:
  assumes "\<And>s k s'. parse s = Some (k, s') \<Longrightarrow> length s' < length s"
  shows "length rest \<le> n \<Longrightarrow> authorized_loop parse n rest = authorized_loop parse (length rest) rest"
proof (induction "length rest" arbitrary: n rest rule: less_induct)
  case less
  show ?case
  proof (cases rest)
    case Nil
    then show ?thesis by (cases n) simp_all
  next
    case (Cons c cs)
    then obtain n' where n: "n = Suc n'" using less.prems by (cases n) auto
    have "authorized_loop parse n' s' = authorized_loop parse (length cs) s'" if "parse rest = Some (k, s')" for k s'
    proof -
      have "length s' < length rest" using assms [OF that] .
      then have "length s' \<le> n'" "length s' \<le> length cs" using less.prems n Cons by auto
      then show ?thesis using less.hyps [OF \<open>length s' < length rest\<close>] by metis
    qed
    then show ?thesis by (auto simp: n Cons split: option.split)
  qed
qed

text \<open>
  Reading \<open>authorized_keys\<close> ends. As long as a parsed key takes at least one byte, as every key does,
  the loop of \<open>LoadAuthorized\<close> comes to an end on every file: its result satisfies the equation of the loop
  without any bound, more fuel changes nothing, and it has at most as many keys as the file has bytes.
\<close>

lemma load_authorized_ends:
  assumes "\<And>s k s'. parse s = Some (k, s') \<Longrightarrow> length s' < length s"
  shows "authorized_loop parse (length t) t =
      (if t = [] then []
       else (case parse t of None \<Rightarrow> [] | Some (k, t') \<Rightarrow> k # authorized_loop parse (length t') t'))
    \<and> (length t \<le> n \<longrightarrow> authorized_loop parse n t = authorized_loop parse (length t) t)
    \<and> length (authorized_loop parse n t) \<le> length t"
proof -
  have fuel: "length r \<le> n \<Longrightarrow> authorized_loop parse n r = authorized_loop parse (length r) r" for n r
    by (rule authorized_loop_fuel) (auto dest: assms)
  have "authorized_loop parse (length t) t =
      (if t = [] then [] else (case parse t of None \<Rightarrow> [] | Some (k, t') \<Rightarrow> k # authorized_loop parse (length t') t'))"
  proof (cases t)
    case (Cons c cs)
    have "authorized_loop parse (length cs) t' = authorized_loop parse (length t') t'" if "parse t = Some (k, t')" for k t'
      using assms [OF that] Cons by (intro fuel) simp_all
    then show ?thesis using Cons by (auto split: option.split)
  qed simp
  moreover have "length (authorized_loop parse n t) \<le> length t"
  proof (induction n arbitrary: t)
    case (Suc n)
    have "Suc (length (authorized_loop parse n t')) \<le> length t" if "parse t = Some (k, t')" for k t'
      using assms [OF that] Suc [of t'] by simp
    then show ?case by (auto split: option.split)
  qed simp
  ultimately show ?thesis using fuel [of t n] by auto
qed

lemma load_authorized_ends_witness:
  "authorized_loop (\<lambda>s :: string. case s of [] \<Rightarrow> None | c # cs \<Rightarrow> Some (c, cs)) 5 ''ab'' = ''ab''"
proof -
  let ?p = "\<lambda>s :: string. case s of [] \<Rightarrow> None | c # cs \<Rightarrow> Some (c, cs)"
  have shorter: "length s' < length s" if "?p s = Some (k, s')" for s k s'
    using that by (auto split: list.splits)
  have "length ''ab'' \<le> (5 :: nat) \<longrightarrow> authorized_loop ?p 5 ''ab'' = authorized_loop ?p (length ''ab'') ''ab''"
    using load_authorized_ends [of ?p "''ab''" 5] shorter by blast
  then show ?thesis by (simp add: numeral_eq_Suc)
qed

section \<open>Key files stay and match\<close>

lemma key_paths:
  assumes "abs_parts ps"
  shows "distinct [ks_client_private (paths_in (abs_of ps)), ks_client_public (paths_in (abs_of ps)),
    ks_host_private (paths_in (abs_of ps)), ks_host_public (paths_in (abs_of ps)), ks_known_hosts (paths_in (abs_of ps))]"
proof -
  have "path_join [abs_of ps, n] = abs_of (ps @ [n])" if "plain_part n" "n \<noteq> ''..''" for n
    using path_join_below [OF assms, of "[n]"] that by (simp add: abs_parts_def)
  moreover have "plain_part ''id_ed25519''" "plain_part ''id_ed25519.pub''" "plain_part ''host_key''"
    "plain_part ''host_key.pub''" "plain_part ''known_hosts''" by code_simp+
  ultimately show ?thesis by (simp add: paths_in_def abs_of_snoc)
qed

text \<open>What each step does to the files it does not own, and to the pair it makes.\<close>

lemma ensure_pair_frame:
  "ensure_pair gen priv pub m = (b, m') \<Longrightarrow> p \<notin> {priv, pub} \<Longrightarrow> m_files m' p = m_files m p"
  by (auto simp: ensure_pair_def generate_key_pair_def write_file_def split: if_splits option.splits)

lemma ensure_pair_locked: "ensure_pair gen priv pub m = (b, m') \<Longrightarrow> m_locked m' = m_locked m"
  by (auto simp: ensure_pair_def generate_key_pair_def write_file_def split: if_splits option.splits)

lemma ensure_pair_has: "ensure_pair gen priv pub m = (True, m') \<Longrightarrow> has_file priv m'"
  by (auto simp: ensure_pair_def generate_key_pair_def write_file_def has_file_def split: if_splits option.splits)

lemma ensure_pair_keeps: "has_file priv m \<Longrightarrow> ensure_pair gen priv pub m = (True, m)"
  by (simp add: ensure_pair_def)

text \<open>A complete pair: both halves of one generated key.\<close>

definition paired :: "'w key_gen \<Rightarrow> string \<Rightarrow> string \<Rightarrow> 'z machine_scheme \<Rightarrow> bool" where
  "paired gen priv pub m \<longleftrightarrow>
     (\<exists>w pr pu. gen w = Some (pr, pu) \<and> read_file priv m = Inr pr \<and> read_file pub m = Inr pu)"

lemma paired_cong: "m_files m' priv = m_files m priv \<Longrightarrow> m_files m' pub = m_files m pub \<Longrightarrow>
    paired gen priv pub m' = paired gen priv pub m"
  by (simp add: paired_def read_file_def)

lemma ensure_pair_paired:
  "ensure_pair gen priv pub m = (True, m') \<Longrightarrow> priv \<noteq> pub \<Longrightarrow> has_file priv m \<longrightarrow> paired gen priv pub m \<Longrightarrow>
   paired gen priv pub m'"
  by (auto simp: ensure_pair_def generate_key_pair_def write_file_def paired_def read_file_def
      split: if_splits option.splits) blast+

text \<open>The steps of a successful \<open>Ensure\<close>.\<close>

lemma ensure_keys_steps:
  assumes "ensure_keys gen canon d alias m = (Inr s, m')"
  obtains m1 m2 t k where "s = paths_in d" "mkdir_ok d m"
    "ensure_pair gen (ks_client_private s) (ks_client_public s) m = (True, m1)"
    "ensure_pair gen (ks_host_private s) (ks_host_public s) m1 = (True, m2)"
    "read_file (ks_host_public s) m2 = Inr t" "canon t = Some k"
    "write_file (ks_known_hosts s) (alias @ '' '' @ k @ [LF]) m2 = (True, m')"
  using assms
  by (auto simp: ensure_keys_def write_known_hosts_def Let_def split: if_splits prod.splits bool.splits sum.splits option.splits)

lemma keys_pinned:
  assumes run: "ensure_keys gen canon (abs_of ps) alias m = (Inr s, m')" and ps: "abs_parts ps"
  shows "\<exists>t k. read_file (ks_host_public s) m' = Inr t \<and> canon t = Some k
    \<and> read_file (ks_known_hosts s) m' = Inr (alias @ '' '' @ k @ [LF])"
proof -
  obtain m2 t k where s: "s = paths_in (abs_of ps)"
    and t: "read_file (ks_host_public s) m2 = Inr t" "canon t = Some k"
    and w: "write_file (ks_known_hosts s) (alias @ '' '' @ k @ [LF]) m2 = (True, m')"
    by (rule ensure_keys_steps [OF run])
  with key_paths [OF ps] show ?thesis
    by (intro exI [of _ t] exI [of _ k]) (auto simp: write_file_ok read_file_def)
qed

text \<open>
  C33: \<open>keys.Ensure\<close> is idempotent and keeps the identity. After it succeeded, running it again changes
  nothing, whatever the key generator would return; a pair whose private half was there is left as it
  was; and \<open>known_hosts\<close> pins exactly the host key on disk to the workspace's alias.
\<close>

theorem ensure_keys_stable:
  assumes run: "ensure_keys gen canon (abs_of ps) alias m = (Inr s, m')" and ps: "abs_parts ps"
  shows "ensure_keys gen' canon (abs_of ps) alias m' = (Inr s, m')
    \<and> (has_file (ks_client_private s) m \<longrightarrow> m_files m' (ks_client_private s) = m_files m (ks_client_private s)
         \<and> m_files m' (ks_client_public s) = m_files m (ks_client_public s))
    \<and> (has_file (ks_host_private s) m \<longrightarrow> m_files m' (ks_host_private s) = m_files m (ks_host_private s)
         \<and> m_files m' (ks_host_public s) = m_files m (ks_host_public s))
    \<and> (\<exists>t k. read_file (ks_host_public s) m' = Inr t \<and> canon t = Some k
         \<and> read_file (ks_known_hosts s) m' = Inr (alias @ '' '' @ k @ [LF]))"
proof -
  obtain m1 m2 t k where s: "s = paths_in (abs_of ps)" and mk: "mkdir_ok (abs_of ps) m"
    and c: "ensure_pair gen (ks_client_private s) (ks_client_public s) m = (True, m1)"
    and h: "ensure_pair gen (ks_host_private s) (ks_host_public s) m1 = (True, m2)"
    and t: "read_file (ks_host_public s) m2 = Inr t" "canon t = Some k"
    and w: "write_file (ks_known_hosts s) (alias @ '' '' @ k @ [LF]) m2 = (True, m')"
    by (rule ensure_keys_steps [OF run])
  note dist = key_paths [OF ps, folded s, simplified]
  have m': "m' = m2\<lparr>m_files := (m_files m2)(ks_known_hosts s \<mapsto> Readable (alias @ '' '' @ k @ [LF]))\<rparr>"
    "\<not> m_locked m2 (ks_known_hosts s)"
    using w by (auto simp: write_file_ok)
  have locked: "m_locked m' = m_locked m"
    using ensure_pair_locked [OF c] ensure_pair_locked [OF h] m'(1) by simp
  have has: "has_file (ks_client_private s) m'" "has_file (ks_host_private s) m'"
    using ensure_pair_has [OF c] ensure_pair_has [OF h] ensure_pair_frame [OF h, of "ks_client_private s"] dist
    by (auto simp: m'(1) has_file_def)
  have read: "read_file (ks_host_public s) m' = Inr t"
    using t(1) dist by (auto simp: m'(1) read_file_def)
  have "write_file (ks_known_hosts s) (alias @ '' '' @ k @ [LF]) m' = (True, m')"
    using m' by (simp add: write_file_def)
  then have "ensure_keys gen' canon (abs_of ps) alias m' = (Inr s, m')"
    using mk locked has read t(2) by (simp add: ensure_keys_def ensure_pair_keeps write_known_hosts_def mkdir_ok_def flip: s)
  moreover have "has_file (ks_host_private s) m \<longrightarrow> m2 = m1"
    using h ensure_pair_frame [OF c, of "ks_host_private s"] dist by (auto simp: ensure_pair_def has_file_def)
  moreover have "has_file (ks_client_private s) m \<longrightarrow> m1 = m"
    using c by (auto simp: ensure_pair_def)
  ultimately show ?thesis
    using dist keys_pinned [OF run ps] ensure_pair_frame [OF c] ensure_pair_frame [OF h] by (auto simp: m'(1))
qed


text \<open>
  C22: what is pinned is what the agent presents. After a \<open>keys.Rotate\<close> that succeeds, and after an
  \<open>Ensure\<close> that succeeds on pairs that are complete or absent, each private key file has its own public
  half beside it, the halves of one generated key, and \<open>known_hosts\<close> names the public half of the host
  key; the halves of different keys are never mixed.
\<close>

theorem keys_match:
  assumes run: "(if rot then rotate_keys gen canon (abs_of ps) alias m else ensure_keys gen canon (abs_of ps) alias m)
      = (Inr s, m')"
    and ps: "abs_parts ps"
    and old: "\<not> rot \<Longrightarrow> (has_file (ks_client_private s) m \<longrightarrow> paired gen (ks_client_private s) (ks_client_public s) m)
      \<and> (has_file (ks_host_private s) m \<longrightarrow> paired gen (ks_host_private s) (ks_host_public s) m)"
  shows "paired gen (ks_client_private s) (ks_client_public s) m'
    \<and> paired gen (ks_host_private s) (ks_host_public s) m'
    \<and> (\<exists>t k. read_file (ks_host_public s) m' = Inr t \<and> canon t = Some k
         \<and> read_file (ks_known_hosts s) m' = Inr (alias @ '' '' @ k @ [LF]))"
proof -
  define s0 where "s0 = paths_in (abs_of ps)"
  obtain m0 where run0: "ensure_keys gen canon (abs_of ps) alias m0 = (Inr s, m')"
    and m0: "rot \<Longrightarrow> remove_files [ks_client_private s0, ks_client_public s0, ks_host_private s0, ks_host_public s0] m = (None, m0)"
      "\<not> rot \<Longrightarrow> m0 = m"
    using run by (fastforce simp: rotate_keys_def s0_def Let_def split: if_splits prod.splits option.splits)
  obtain m1 m2 t k where s: "s = s0"
    and c: "ensure_pair gen (ks_client_private s) (ks_client_public s) m0 = (True, m1)"
    and h: "ensure_pair gen (ks_host_private s) (ks_host_public s) m1 = (True, m2)"
    and w: "write_file (ks_known_hosts s) (alias @ '' '' @ k @ [LF]) m2 = (True, m')"
    by (rule ensure_keys_steps [OF run0]) (simp add: s0_def)
  note dist = key_paths [OF ps, folded s0_def, folded s, simplified]
  have gone: "\<not> has_file (ks_client_private s) m0" "\<not> has_file (ks_host_private s) m0" if rot
    using m0(1) [OF that] dist
    by (auto simp: has_file_def remove_file_def simp flip: s split: if_splits)
  have c0: "has_file (ks_client_private s) m0 \<longrightarrow> paired gen (ks_client_private s) (ks_client_public s) m0"
    and h0: "has_file (ks_host_private s) m0 \<longrightarrow> paired gen (ks_host_private s) (ks_host_public s) m0"
    using gone old m0(2) by (cases rot; simp)+
  have same: "m_files m1 (ks_host_private s) = m_files m0 (ks_host_private s)"
      "m_files m1 (ks_host_public s) = m_files m0 (ks_host_public s)"
      "m_files m' (ks_client_private s) = m_files m1 (ks_client_private s)"
      "m_files m' (ks_client_public s) = m_files m1 (ks_client_public s)"
      "m_files m' (ks_host_private s) = m_files m2 (ks_host_private s)"
      "m_files m' (ks_host_public s) = m_files m2 (ks_host_public s)"
    using ensure_pair_frame [OF c] ensure_pair_frame [OF h] w dist by (auto simp: write_file_ok)
  have c1: "paired gen (ks_client_private s) (ks_client_public s) m1"
    using ensure_pair_paired [OF c _ c0] dist by simp
  have h1: "has_file (ks_host_private s) m1 \<longrightarrow> paired gen (ks_host_private s) (ks_host_public s) m1"
    using h0 paired_cong [OF same(1,2), of gen] same(1) by (simp add: has_file_def)
  have h2: "paired gen (ks_host_private s) (ks_host_public s) m2"
    using ensure_pair_paired [OF h _ h1] dist by simp
  show ?thesis
    using c1 h2 paired_cong [OF same(3,4), of gen] paired_cong [OF same(5,6), of gen] keys_pinned [OF run0 ps] by simp
qed

text \<open>
  A host key whose public half is missing (the process ended between the two writes, or the second
  failed) is never completed: \<open>Ensure\<close> fails from then on, until the keys are rotated.
\<close>

lemma half_pair_stays:
  assumes "abs_parts ps" and "has_file (ks_host_private (paths_in (abs_of ps))) m"
    and "\<not> has_file (ks_host_public (paths_in (abs_of ps))) m"
    and "has_file (ks_client_private (paths_in (abs_of ps))) m" and "mkdir_ok (abs_of ps) m"
  shows "ensure_keys gen canon (abs_of ps) alias m = (Inl KnownHostsFailed, m)"
  using assms
  by (simp add: ensure_keys_def ensure_pair_keeps write_known_hosts_def read_file_def has_file_def)


section \<open>Instances\<close>

definition demo_key_parts :: "string list" where
  "demo_key_parts = [''home'', ''u'', ''keys'']"

definition demo_gen :: "machine key_gen" where
  "demo_gen m = Some (''private'', ''public'')"

definition demo_keys :: "(key_error + key_set) \<times> machine" where
  "demo_keys = ensure_keys demo_gen Some (abs_of demo_key_parts) ''devc-app'' demo_machine"

lemma demo_key_parts: "abs_parts demo_key_parts"
  by code_simp

lemma demo_key_paths:
  "distinct [ks_client_private (paths_in (abs_of demo_key_parts)), ks_client_public (paths_in (abs_of demo_key_parts)),
     ks_host_private (paths_in (abs_of demo_key_parts)), ks_host_public (paths_in (abs_of demo_key_parts)),
     ks_known_hosts (paths_in (abs_of demo_key_parts))]"
  by (rule key_paths [OF demo_key_parts])

lemma demo_keys_made: "fst demo_keys = Inr (paths_in (abs_of demo_key_parts))"
  using demo_key_paths
  by (auto simp: demo_keys_def ensure_keys_def mkdir_ok_def demo_machine_def ensure_pair_def has_file_def
      generate_key_pair_def demo_gen_def write_file_def write_known_hosts_def read_file_def Let_def)

lemma ensure_keys_stable_witness:
  "ensure_keys (\<lambda>_. None) Some (abs_of demo_key_parts) ''devc-app'' (snd demo_keys) = demo_keys"
proof -
  have *: "demo_keys = (Inr (paths_in (abs_of demo_key_parts)), snd demo_keys)"
    using demo_keys_made by (metis prod.collapse)
  from ensure_keys_stable [OF _ demo_key_parts, of demo_gen Some "''devc-app''" demo_machine _ _ "\<lambda>_. None", folded demo_keys_def, OF *]
  show ?thesis using * by simp
qed

lemma keys_match_witness:
  "let s = paths_in (abs_of demo_key_parts) in
   paired demo_gen (ks_client_private s) (ks_client_public s) (snd demo_keys)
   \<and> paired demo_gen (ks_host_private s) (ks_host_public s) (snd demo_keys)"
proof -
  have *: "demo_keys = (Inr (paths_in (abs_of demo_key_parts)), snd demo_keys)"
    using demo_keys_made by (metis prod.collapse)
  have "(if False then rotate_keys demo_gen Some (abs_of demo_key_parts) ''devc-app'' demo_machine
      else ensure_keys demo_gen Some (abs_of demo_key_parts) ''devc-app'' demo_machine)
    = (Inr (paths_in (abs_of demo_key_parts)), snd demo_keys)"
    using * by (simp add: demo_keys_def)
  from keys_match [OF this demo_key_parts] show ?thesis
    by (simp add: Let_def has_file_def demo_machine_def)
qed

end
