(* ===== verification/Workspace.thy ===== *)
theory Workspace
  imports ConfigLoad Detect Hooks SshConf Keys
begin

text \<open>
  What the commands share (\<open>cmd/devc/common.go\<close>) and the operations on containers they call: the verbs
  of \<open>container/single.go\<close> and \<open>container/compose.go\<close>.

  A command starts from the system it runs on (\<open>system\<close>: host, files a configuration is read from, process
  oracle, order in which concurrent hooks end, clock, key generator); \<open>setup\<close> adds the spec, the
  runtime and the options (\<open>ctx\<close>). Neither changes during a run. What changes is the session: the machine,
  the compose cache file, and the two fields of \<open>env\<close> that are filled in during a run, the compose
  implementation and the session environment. \<open>x_json\<close> is \<open>json.Marshal\<close> of a spec, \<open>x_decode\<close> the
  decoding of an inspect object, \<open>x_self\<close> \<open>os.Executable\<close>, \<open>x_tty\<close> whether standard input is a terminal.
  Messages are not modelled.
\<close>

record session = machine +
  ss_cache :: cache
  ss_compose :: "compose option"
  ss_env :: "string gomap option"

record system =
  x_host :: host
  x_files :: env
  x_proc :: proc
  x_decode :: "string \<Rightarrow> info option"
  x_json :: "spec \<Rightarrow> string"
  x_self :: "string option"
  x_version :: string
  x_arch :: string
  x_uid :: int
  x_sched :: "string list \<Rightarrow> string list"
  x_clock :: "session \<Rightarrow> civil"
  x_gen :: "session key_gen"
  x_canon :: "string \<Rightarrow> string option"
  x_tty :: bool

record ctx = system +
  x_spec :: spec
  x_cli :: cli
  x_compose_cmd :: string
  x_platform :: string
  x_quiet :: bool
  x_create :: create_options

datatype provision_error = NoKeyDir | KeysFailed key_error | NoSelf | InjectFailed inject_error
  | ControlDirFailed | ConfigUnwritable | KeyFileUnreadable | IncludeFailed include_error

datatype cmd_error = Query query_error | Runtime runner_error | Compose detect_error | Args args_error
  | NotCreated string | NotRunning string | NotCompose string | NoServices string "string list"
  | NoServiceContainer string | UnknownService string "string list"
  | AllWithServices | VolumesWithServices | PurgeWithServices
  | NoWorkspace string | NoFolder string | AmbiguousName string "string list"
  | InitializeFailed "string run_error" | Up "runner_error up_error" | Provision provision_error
  | Usage | DidNotComeUp string
  | BadFlags flag_error | Detection detect_error | ConfigWithName | Loading load_error
  | EditorMissing string | NoEditor | EditorFailed | NoSsh | SshFailed | Problems
  | ShellUsage | UnsupportedShell string

definition x_ops :: "ctx \<Rightarrow> ('z world_scheme, info) runner_ops" where
  "x_ops x = cli_ops (x_decode x) (x_proc x) (x_cli x)"

text \<open>\<open>CLIRunner.BinPath\<close>: the executable as \<open>PATH\<close> finds it now, made absolute when the working directory is known.\<close>

definition bin_path :: "host \<Rightarrow> env \<Rightarrow> cli \<Rightarrow> string" where
  "bin_path h e c =
     (case ho_look h (cli_bin c) of
        Some found \<Rightarrow> (case abs_path e found of Some p \<Rightarrow> p | None \<Rightarrow> found)
      | None \<Rightarrow> (case abs_path e (cli_bin c) of Some p \<Rightarrow> p | None \<Rightarrow> cli_bin c))"

text \<open>\<open>runtimeBinPath\<close>: every runner of a command is a \<open>CLIRunner\<close>, which can report its path.\<close>

definition runtime_bin_path :: "'a system_scheme \<Rightarrow> cli \<Rightarrow> string" where
  "runtime_bin_path sys c = bin_path (x_host sys) (x_files sys) c"

lemma bin_path_abs: "env_cwd e = Some d \<Longrightarrow> is_abs d \<Longrightarrow> is_abs (bin_path h e c)"
  by (auto simp: bin_path_def abs_path_def is_abs_join split: option.splits)

definition x_env :: "ctx \<Rightarrow> session \<Rightarrow> session uenv" where
  "x_env x m = \<lparr>ue_spec = x_spec x, ue_runner = x_ops x, ue_session_env = ss_env m\<rparr>"

definition project_of :: "ctx \<Rightarrow> string" where
  "project_of x = project_name (ho_env (x_host x) ''COMPOSE_PROJECT_NAME'') (x_spec x)"

definition compose_service :: "spec \<Rightarrow> string" where
  "compose_service s = (case s_compose s of None \<Rightarrow> [] | Some c \<Rightarrow> c_service c)"

definition run_services :: "spec \<Rightarrow> string list" where
  "run_services s = (case s_compose s of None \<Rightarrow> [] | Some c \<Rightarrow> c_run_services c)"

section \<open>Options\<close>

text \<open>\<open>optionalBool\<close>: a flag that remembers whether it was set.\<close>

type_synonym optional_bool = "bool option"

definition optional_bool_set :: "string \<Rightarrow> optional_bool option" where
  "optional_bool_set s = map_option Some (parse_bool s)"

definition optional_bool_string :: "optional_bool \<Rightarrow> string" where
  "optional_bool_string o' = (case o' of None \<Rightarrow> [] | Some b \<Rightarrow> format_bool b)"

definition apply_overrides :: "optional_bool \<Rightarrow> optional_bool \<Rightarrow> spec \<Rightarrow> spec" where
  "apply_overrides fa sg s =
     (let c = s_credentials s;
          c1 = (case fa of None \<Rightarrow> c | Some b \<Rightarrow> c\<lparr>forward_agent := b\<rparr>);
          c2 = (case sg of None \<Rightarrow> c1 | Some b \<Rightarrow> c1\<lparr>sync_git_config := b\<rparr>)
      in s\<lparr>s_credentials := c2\<rparr>)"

text \<open>\<open>resolveSELinux\<close>: only \<open>auto\<close> asks the host.\<close>

definition selinux_enabled :: "'a system_scheme \<Rightarrow> session \<Rightarrow> bool \<times> session" where
  "selinux_enabled sys m =
     (case ho_look (x_host sys) ''selinuxenabled'' of
        None \<Rightarrow> (False, m)
      | Some bin \<Rightarrow>
          (case exec_call (x_proc sys) \<lparr>c_bin = bin, c_args = [], c_stdin = []\<rparr> m of
             (r, m') \<Rightarrow> (rs_fail r = None, m')))"

definition resolve_selinux :: "'a system_scheme \<Rightarrow> string \<Rightarrow> session \<Rightarrow> string \<times> session" where
  "resolve_selinux sys flag m =
     (if flag = ''z'' \<or> flag = ''Z'' then (flag, m)
      else if flag = ''auto'' then
        (case selinux_enabled sys m of (on, m') \<Rightarrow> (if on then ''z'' else [], m'))
      else ([], m))"

section \<open>Container verbs\<close>

text \<open>\<open>Start\<close>, \<open>Stop\<close>, \<open>Restart\<close> and \<open>Remove\<close>; \<open>Build\<close> and \<open>Create\<close>.\<close>

definition verb :: "string list \<Rightarrow> ('w, 'v) runner_ops \<Rightarrow> string \<Rightarrow> 'w \<Rightarrow> cmd_error option \<times> 'w" where
  "verb args r name w = (case ro_output r (args @ [name]) w of ((_, err), w') \<Rightarrow> (map_option Runtime err, w'))"

definition start_container :: "('w, 'v) runner_ops \<Rightarrow> string \<Rightarrow> 'w \<Rightarrow> cmd_error option \<times> 'w" where
  "start_container = verb [''start'']"

definition stop_container :: "('w, 'v) runner_ops \<Rightarrow> string \<Rightarrow> 'w \<Rightarrow> cmd_error option \<times> 'w" where
  "stop_container = verb [''stop'']"

definition restart_container :: "('w, 'v) runner_ops \<Rightarrow> string \<Rightarrow> 'w \<Rightarrow> cmd_error option \<times> 'w" where
  "restart_container = verb [''restart'']"

definition remove_container :: "('w, 'v) runner_ops \<Rightarrow> string \<Rightarrow> 'w \<Rightarrow> cmd_error option \<times> 'w" where
  "remove_container = verb [''rm'', ''--force'']"

definition build_image :: "('w, 'v) runner_ops \<Rightarrow> spec \<Rightarrow> string \<Rightarrow> 'w \<Rightarrow> cmd_error option \<times> 'w" where
  "build_image r s platform w =
     (case build_args s platform of
        Inl e \<Rightarrow> (Some (Args e), w)
      | Inr args \<Rightarrow> (case ro_run r args [] w of (err, w') \<Rightarrow> (map_option Runtime err, w')))"

definition create_container :: "(spec \<Rightarrow> string) \<Rightarrow> ('w, 'v) runner_ops \<Rightarrow> spec \<Rightarrow> create_options \<Rightarrow> string \<Rightarrow> 'w
    \<Rightarrow> (cmd_error + string) \<times> 'w" where
  "create_container json_spec r s opts platform w =
     (case run_args json_spec s opts platform of
        Inl e \<Rightarrow> (Inl (Args e), w)
      | Inr args \<Rightarrow>
          (case ro_output r args w of
             ((_, Some e), w') \<Rightarrow> (Inl (Runtime e), w')
           | ((out, None), w') \<Rightarrow> (Inr (trim_space out), w')))"

section \<open>Compose verbs\<close>

text \<open>\<open>composeImpl\<close>: detected on first use, then kept.\<close>

definition compose_impl :: "ctx \<Rightarrow> session \<Rightarrow> (cmd_error + compose) \<times> session" where
  "compose_impl x m =
     (case ss_compose m of
        Some c \<Rightarrow> (Inr c, m)
      | None \<Rightarrow>
          (case detect_compose (x_host x) (x_proc x) (cli_name (x_cli x)) (x_compose_cmd x) (m, ss_cache m) of
             (Inl e, (m', ca)) \<Rightarrow> (Inl (Compose e), m'\<lparr>ss_cache := ca\<rparr>)
           | (Inr c, (m', ca)) \<Rightarrow> (Inr c, m'\<lparr>ss_cache := ca, ss_compose := Some c\<rparr>)))"

definition compose_run :: "ctx \<Rightarrow> compose \<Rightarrow> string list \<Rightarrow> session \<Rightarrow> cmd_error option \<times> session" where
  "compose_run x c args m =
     (case cli_run (x_proc x) (cp_cli c) args [] m of (err, m') \<Rightarrow> (map_option Runtime err, m'))"

text \<open>\<open>ComposeUp\<close> and \<open>ComposeDown\<close>.\<close>

definition compose_up :: "ctx \<Rightarrow> compose \<Rightarrow> string \<Rightarrow> bool \<Rightarrow> bool \<Rightarrow> string list \<Rightarrow> session \<Rightarrow> cmd_error option \<times> session" where
  [simp]: "compose_up x c project rebuild recreate services m =
     compose_run x c (compose_up_args (x_spec x) project rebuild recreate services) m"

definition compose_down :: "ctx \<Rightarrow> compose \<Rightarrow> string \<Rightarrow> bool \<Rightarrow> session \<Rightarrow> cmd_error option \<times> session" where
  [simp]: "compose_down x c project volumes m = compose_run x c (compose_down_args (x_spec x) project volumes) m"

text \<open>The verbs of a compose project: detect the implementation, then run it once.\<close>

definition compose_verb :: "ctx \<Rightarrow> string list \<Rightarrow> session \<Rightarrow> cmd_error option \<times> session" where
  "compose_verb x args m =
     (case compose_impl x m of
        (Inl e, m') \<Rightarrow> (Some e, m')
      | (Inr c, m') \<Rightarrow> compose_run x c args m')"

definition compose_service_names :: "ctx \<Rightarrow> compose \<Rightarrow> session \<Rightarrow> (cmd_error + string list) \<times> session" where
  "compose_service_names x c m =
     (case cli_output (x_proc x) (cp_cli c) (compose_config_args (x_spec x) (project_of x)) m of
        ((_, Some e), m') \<Rightarrow> (Inl (Runtime e), m')
      | ((out, None), m') \<Rightarrow> (Inr (non_empty_lines out), m'))"

section \<open>Targets\<close>

definition compose_services :: "ctx \<Rightarrow> string list \<Rightarrow> cmd_error + string list" where
  "compose_services x services =
     (if services \<noteq> [] \<and> s_kind (x_spec x) \<noteq> KindCompose
      then Inl (NoServices (s_name (x_spec x)) services) else Inr services)"

definition service_container :: "ctx \<Rightarrow> string \<Rightarrow> session \<Rightarrow> (cmd_error + string \<times> info option) \<times> session" where
  "service_container x service m =
     (case find_compose_service (x_ops x) (project_of x) service m of
        (Inl e, m') \<Rightarrow> (Inl (Query e), m')
      | (Inr None, m') \<Rightarrow> (Inr ([], None), m')
      | (Inr (Some i), m') \<Rightarrow> (Inr (in_id i, Some i), m'))"

definition attach_ref :: "ctx \<Rightarrow> session \<Rightarrow> (cmd_error + string \<times> info option) \<times> session" where
  "attach_ref x m =
     (if s_kind (x_spec x) = KindCompose then service_container x (compose_service (x_spec x)) m
      else
        let name = container_name (x_spec x) in
        (case find_container (x_ops x) name m of
           (Inl e, m') \<Rightarrow> (Inl (Query e), m')
         | (Inr i, m') \<Rightarrow> (Inr (name, i), m')))"

definition service_ref :: "ctx \<Rightarrow> string \<Rightarrow> session \<Rightarrow> (cmd_error + string \<times> info option) \<times> session" where
  "service_ref x service m =
     (if service = [] then attach_ref x m
      else if s_kind (x_spec x) \<noteq> KindCompose then (Inl (NotCompose (s_name (x_spec x))), m)
      else if service = compose_service (x_spec x) then attach_ref x m
      else service_container x service m)"

section \<open>Processes change nothing on the host\<close>

text \<open>Of the machine, running a process changes the calls made, to which it adds.\<close>

definition only_calls :: "'z machine_scheme \<Rightarrow> 'z machine_scheme \<Rightarrow> bool" where
  "only_calls m m' \<longleftrightarrow> (\<exists>cs. m' = m\<lparr>w_calls := w_calls m @ cs\<rparr>)"

named_theorems only_calls "operations that only run processes"

lemma only_calls_refl [simp]: "only_calls m m"
  unfolding only_calls_def by (rule exI [of _ "[]"]) simp

lemma only_calls_trans: "only_calls m m1 \<Longrightarrow> only_calls m1 m2 \<Longrightarrow> only_calls m m2"
  by (auto simp: only_calls_def)

lemma only_calls_files: "only_calls m m' \<Longrightarrow> m_files m' = m_files m \<and> m_dirs m' = m_dirs m \<and> m_locked m' = m_locked m
    \<and> m_home m' = m_home m \<and> m_ids m' = m_ids m \<and> m_writable m' = m_writable m
    \<and> set (w_calls m) \<subseteq> set (w_calls m')"
  by (auto simp: only_calls_def)

lemma only_calls_env: "only_calls m m' \<Longrightarrow> ss_env m' = ss_env m"
  by (auto simp: only_calls_def)

lemma exec_call_only [only_calls]: "exec_call p c m = (r, m') \<Longrightarrow> only_calls m m'"
  by (auto simp: exec_call_def only_calls_def)

lemma cli_run_only [only_calls]: "ro_run (cli_ops d p c) args stdin m = (r, m') \<Longrightarrow> only_calls m m'"
  by (auto simp: cli_ops_def cli_run_def cli_exec_def split: prod.splits dest: exec_call_only)

lemma cli_output_only [only_calls]: "ro_output (cli_ops d p c) args m = (r, m') \<Longrightarrow> only_calls m m'"
  using cli_output_world [of p c args m] exec_call_only [of p _ m]
  by (auto simp: cli_ops_def cli_exec_def) (metis prod.collapse snd_conv)

lemma cli_inspect_only [only_calls]: "ro_inspect (cli_ops d p c) ref m = (r, m') \<Longrightarrow> only_calls m m'"
  using cli_inspect_world [of d p c ref m] cli_output_only [of d p c "inspect_args ref" m]
  by (auto simp: cli_ops_def) (metis prod.collapse snd_conv)

lemma find_container_only [only_calls]: "find_container (cli_ops d p c) name m = (r, m') \<Longrightarrow> only_calls m m'"
  by (auto simp: find_container_def split: prod.splits sum.splits runner_error.splits dest: cli_inspect_only)

lemma verb_only [only_calls]: "verb args (cli_ops d p c) name m = (r, m') \<Longrightarrow> only_calls m m'"
  by (auto simp: verb_def split: prod.splits dest: cli_output_only)

lemma build_image_only [only_calls]: "build_image (cli_ops d p c) s pl m = (r, m') \<Longrightarrow> only_calls m m'"
  by (auto simp: build_image_def split: prod.splits sum.splits dest: cli_run_only)

lemma create_container_only [only_calls]:
  "create_container j (cli_ops d p c) s opts pl m = (r, m') \<Longrightarrow> only_calls m m'"
  by (auto simp: create_container_def split: prod.splits sum.splits option.splits dest: cli_output_only)

lemma inject_only [only_calls]: "inject (cli_ops d p c) opts m = (r, m') \<Longrightarrow> only_calls m m'"
  by (auto simp: inject_def cp_into_def write_secrets_def Let_def split: prod.splits option.splits if_splits
      dest!: cli_output_only cli_run_only intro: only_calls_trans)

section \<open>A sample\<close>

definition demo_ctx :: "proc \<Rightarrow> ctx" where
  "demo_ctx p = \<lparr>x_host = sample_host\<lparr>ho_home := Some ''/home/u''\<rparr>, x_files = sample_env, x_proc = p,
     x_decode = (\<lambda>_. None), x_json = (\<lambda>_. []), x_self = Some ''/bin/devc'',
     x_version = ''1.0'', x_arch = ''amd64'', x_uid = 1000, x_sched = (\<lambda>ns. ns),
     x_clock = (\<lambda>_. \<lparr>cv_year = 2024, cv_month = 5, cv_day = 1, cv_hour = 12, cv_minute = 0, cv_second = 0\<rparr>),
     x_gen = (\<lambda>_. Some (''private'', ''public'')), x_canon = Some, x_tty = False,
     x_spec = demo_up_spec, x_cli = demo_cli, x_compose_cmd = [], x_platform = [], x_quiet = True,
     x_create = \<lparr>co_userns = [], co_selinux_label = []\<rparr>\<rparr>"

definition demo_session :: session where
  "demo_session = \<lparr>w_calls = [], m_home = m_home demo_machine, m_writable = True, m_locked = (\<lambda>_. False),
     m_dirs = m_dirs demo_machine, m_ids = m_ids demo_machine, m_files = (\<lambda>_. None),
     ss_cache = (\<lambda>_. None), ss_compose = None, ss_env = None\<rparr>"

end
