(* ===== verification/Listing.thy ===== *)
theory Listing
  imports Workspace
begin

text \<open>
  What the workspaces and services on the host are: \<open>cmd/devc/list.go\<close>, \<open>cmd/devc/ps.go\<close>, the choice of a
  workspace by name in \<open>cmd/devc/common.go\<close>, the recognition of a renamed workspace in
  \<open>cmd/devc/rename.go\<close> and the report of \<open>devc status\<close>. \<open>sort.Slice\<close> is not stable: rows with equal keys
  may come in any order, here in the order they had.
\<close>

section \<open>Containers\<close>

definition container_state :: "info \<Rightarrow> string" where
  "container_state i =
     (if running i then ''running'' else if in_status i \<noteq> [] then in_status i else ''stopped'')"

definition short :: "string \<Rightarrow> string" where
  "short i = (if 12 < length i then take 12 i else i)"

definition put_label :: "string \<Rightarrow> string \<Rightarrow> info \<Rightarrow> info" where
  "put_label k v i = i\<lparr>in_labels := map_put k v (in_labels i)\<rparr>"

section \<open>devc list\<close>

text \<open>\<open>backfillFromState\<close>: labels that are set are never overwritten.\<close>

definition backfill_name :: "string \<Rightarrow> state option \<Rightarrow> info \<Rightarrow> info" where
  "backfill_name wid s i =
     (if label_of i label_name \<noteq> [] then i
      else (case s of
              Some st \<Rightarrow> put_label label_name (if st_name st \<noteq> [] then st_name st else name_from_id wid) i
            | None \<Rightarrow> put_label label_name (name_from_id wid) i))"

definition backfill_local :: "state option \<Rightarrow> info \<Rightarrow> info" where
  "backfill_local s i =
     (if label_of i label_local \<noteq> [] then i
      else (case s of None \<Rightarrow> i | Some st \<Rightarrow> put_label label_local (st_local_folder st) i))"

definition backfill :: "'z machine_scheme \<Rightarrow> info \<Rightarrow> info" where
  "backfill m i =
     (let wid = label_of i label_id in
      if wid = [] \<or> label_of i label_name \<noteq> [] \<and> label_of i label_local \<noteq> [] then i
      else backfill_local (state_peek wid m) (backfill_name wid (state_peek wid m) i))"

definition list_workspaces :: "(string \<Rightarrow> info option) \<Rightarrow> ('z machine_scheme, info) runner_ops \<Rightarrow> 'z machine_scheme
    \<Rightarrow> (query_error + info list) \<times> 'z machine_scheme" where
  "list_workspaces decode r m =
     (case list_workspaces_raw decode r m of
        (Inl e, m') \<Rightarrow> (Inl e, m')
      | (Inr is, m') \<Rightarrow> (Inr (map (backfill m') is), m'))"

record workspace_row =
  wr_id :: string
  wr_name :: string
  wr_state :: string
  wr_local :: string
  wr_runtime :: string

definition workspace_row :: "string \<Rightarrow> info \<Rightarrow> workspace_row" where
  "workspace_row runtime i =
     \<lparr>wr_id = label_of i label_id, wr_name = label_of i label_name, wr_state = container_state i,
      wr_local = label_of i label_local, wr_runtime = runtime\<rparr>"

definition workspace_rows :: "(string \<Rightarrow> info option) \<Rightarrow> ('z machine_scheme, info) runner_ops \<Rightarrow> 'z machine_scheme
    \<Rightarrow> (query_error + workspace_row list) \<times> 'z machine_scheme" where
  "workspace_rows decode r m =
     (case list_workspaces decode r m of
        (Inl e, m') \<Rightarrow> (Inl e, m')
      | (Inr is, m') \<Rightarrow> (Inr (sort_key wr_name (map (workspace_row (ro_name r)) is)), m'))"

text \<open>
  \<open>%-*s\<close>: padded on the right to a width counted in runes (the first bytes of UTF-8 sequences), while the
  code computes its widths in bytes.
\<close>

definition rune_count :: "string \<Rightarrow> nat" where
  "rune_count s = length (filter (\<lambda>c. byte c < 128 \<or> 192 \<le> byte c) s)"

definition pad_right :: "nat \<Rightarrow> string \<Rightarrow> string" where
  "pad_right w s = s @ replicate (w - rune_count s) (CHR '' '')"

definition column_width :: "string \<Rightarrow> string list \<Rightarrow> nat" where
  "column_width head cells = foldl (\<lambda>w c. if w < length c then length c else w) (length head) cells"

definition print_workspace_rows :: "workspace_row list \<Rightarrow> string" where
  "print_workspace_rows rows =
     (if rows = [] then ''no devc workspaces found'' @ [LF]
      else
        let name_w = column_width ''NAME'' (map wr_name rows);
            state_w = column_width ''STATE'' (map wr_state rows)
        in pad_right name_w ''NAME'' @ ''  '' @ pad_right state_w ''STATE'' @ ''  FOLDER'' @ [LF]
           @ concat (map (\<lambda>r. pad_right name_w (wr_name r) @ ''  '' @ pad_right state_w (wr_state r)
                @ ''  '' @ wr_local r @ [LF]) rows))"

section \<open>A workspace by name\<close>

definition matches :: "string \<Rightarrow> info \<Rightarrow> bool" where
  "matches name i \<longleftrightarrow> label_of i label_name = name \<or> label_of i label_id = name"

definition matched_folders :: "info list \<Rightarrow> string \<Rightarrow> string list" where
  "matched_folders is name =
     sort (remdups (filter (\<lambda>f. f \<noteq> []) (map (\<lambda>i. label_of i label_local) (filter (matches name) is))))"

definition select_workspace_folder :: "info list \<Rightarrow> string \<Rightarrow> cmd_error + string" where
  "select_workspace_folder is name =
     (case matched_folders is name of
        [] \<Rightarrow> Inl (if list_ex (matches name) is then NoFolder name else NoWorkspace name)
      | [f] \<Rightarrow> Inr f
      | fs \<Rightarrow> Inl (AmbiguousName name fs))"

definition workspace_folder_by_name :: "(string \<Rightarrow> info option) \<Rightarrow> ('z machine_scheme, info) runner_ops \<Rightarrow> string
    \<Rightarrow> 'z machine_scheme \<Rightarrow> (cmd_error + string) \<times> 'z machine_scheme" where
  "workspace_folder_by_name decode r name m =
     (case list_workspaces decode r m of
        (Inl e, m') \<Rightarrow> (Inl (Query e), m')
      | (Inr is, m') \<Rightarrow> (select_workspace_folder is name, m'))"

section \<open>Renamed workspaces\<close>

record workspace_ref =
  rf_id :: string
  rf_name :: string
  rf_local :: string
  rf_config :: string

text \<open>The loop of \<open>renamedFrom\<close>, with the ids it has seen.\<close>

fun renamed_loop :: "spec \<Rightarrow> string list \<Rightarrow> workspace_ref list \<Rightarrow> workspace_ref list" where
  "renamed_loop s seen [] = []"
| "renamed_loop s seen (r # rs) =
     (if rf_id r \<in> set seen \<or> rf_local r = [] \<or> rf_local r \<noteq> s_local_folder s then renamed_loop s seen rs
      else if rf_config r \<noteq> [] \<and> rf_config r \<noteq> s_config_path s then renamed_loop s seen rs
      else r # renamed_loop s (rf_id r # seen) rs)"

definition renamed_from :: "spec \<Rightarrow> workspace_ref list \<Rightarrow> workspace_ref list" where
  "renamed_from s rs = sort_key rf_id (renamed_loop s [s_id s] rs)"

definition state_ref :: "state \<Rightarrow> workspace_ref" where
  "state_ref s = \<lparr>rf_id = st_id s, rf_name = st_name s, rf_local = st_local_folder s, rf_config = st_config_path s\<rparr>"

text \<open>The labels of a live container beat the state file.\<close>

definition beat :: "string \<Rightarrow> string \<Rightarrow> string" where
  "beat v old = (if v \<noteq> [] then v else old)"

definition label_ref :: "workspace_ref gomap \<Rightarrow> info \<Rightarrow> workspace_ref gomap" where
  "label_ref known i =
     (let wid = label_of i label_id in
      if wid = [] then known
      else let r = (case map_of known wid of
                      Some r \<Rightarrow> r | None \<Rightarrow> \<lparr>rf_id = wid, rf_name = [], rf_local = [], rf_config = []\<rparr>)
           in map_put wid (r\<lparr>rf_name := beat (label_of i label_name) (rf_name r),
                            rf_local := beat (label_of i label_local) (rf_local r),
                            rf_config := beat (label_of i label_config) (rf_config r)\<rparr>) known)"

definition known_workspaces :: "(string \<Rightarrow> info option) \<Rightarrow> ('z machine_scheme, info) runner_ops \<Rightarrow> 'z machine_scheme
    \<Rightarrow> workspace_ref list \<times> 'z machine_scheme" where
  "known_workspaces decode r m =
     (let known = (case state_list m of None \<Rightarrow> []
                  | Some ss \<Rightarrow> foldl (\<lambda>rs s. map_put (st_id s) (state_ref s) rs) [] ss)
      in case list_workspaces decode r m of
           (Inl _, m') \<Rightarrow> (map snd known, m')
         | (Inr is, m') \<Rightarrow> (map snd (foldl label_ref known is), m'))"

section \<open>devc ps\<close>

record service_row =
  sr_service :: string
  sr_state :: string
  sr_container :: string
  sr_image :: string
  sr_workspace :: bool

definition container_row :: "spec \<Rightarrow> info \<Rightarrow> service_row" where
  "container_row s i =
     \<lparr>sr_service = service_of i, sr_state = container_state i, sr_container = short (in_id i),
      sr_image = in_image i, sr_workspace = (service_of i = compose_service s)\<rparr>"

definition declared_row :: "spec \<Rightarrow> string \<Rightarrow> service_row" where
  "declared_row s svc =
     \<lparr>sr_service = svc, sr_state = ''not created'', sr_container = [], sr_image = [],
      sr_workspace = (svc = compose_service s)\<rparr>"

definition declared_services :: "ctx \<Rightarrow> session \<Rightarrow> string list \<times> session" where
  "declared_services x m =
     (case compose_impl x m of
        (Inl _, m1) \<Rightarrow> ([], m1)
      | (Inr c, m1) \<Rightarrow>
          (case compose_service_names x c m1 of
             (Inl _, m2) \<Rightarrow> ([], m2)
           | (Inr names, m2) \<Rightarrow> (names, m2)))"

definition service_rows :: "ctx \<Rightarrow> session \<Rightarrow> (cmd_error + service_row list) \<times> session" where
  "service_rows x m =
     (case list_compose_project (x_decode x) (x_ops x) (project_of x) m of
        (Inl e, m1) \<Rightarrow> (Inl (Query e), m1)
      | (Inr is, m1) \<Rightarrow>
          (case declared_services x m1 of (names, m2) \<Rightarrow>
             (Inr (sort_key sr_service
                (map (container_row (x_spec x)) is
                 @ map (declared_row (x_spec x)) (filter (\<lambda>n. n \<notin> service_of ` set is) names))), m2)))"

definition single_row :: "spec \<Rightarrow> info option \<Rightarrow> service_row" where
  "single_row s i =
     (case i of
        None \<Rightarrow> \<lparr>sr_service = s_name s, sr_state = ''not created'', sr_container = [], sr_image = [], sr_workspace = True\<rparr>
      | Some c \<Rightarrow> \<lparr>sr_service = s_name s, sr_state = container_state c, sr_container = short (in_id c),
                  sr_image = in_image c, sr_workspace = True\<rparr>)"

fun filter_rows :: "service_row list \<Rightarrow> string list \<Rightarrow> cmd_error + service_row list" where
  "filter_rows rows [] = Inr []"
| "filter_rows rows (want # services) =
     (case filter (\<lambda>r. sr_service r = want) rows of
        [] \<Rightarrow> Inl (UnknownService want (map sr_service rows))
      | rs \<Rightarrow> res_map (\<lambda>rest. rs @ rest) (filter_rows rows services))"

definition narrow_rows :: "service_row list \<Rightarrow> string list \<Rightarrow> cmd_error + service_row list" where
  "narrow_rows rows services = (if services = [] then Inr rows else filter_rows rows services)"

definition ps_rows :: "ctx \<Rightarrow> string list \<Rightarrow> session \<Rightarrow> (cmd_error + service_row list) \<times> session" where
  "ps_rows x services m =
     (case (if s_kind (x_spec x) = KindCompose then service_rows x m
            else (case attach_ref x m of
                    (Inl e, m1) \<Rightarrow> (Inl e, m1)
                  | (Inr (_, i), m1) \<Rightarrow> (Inr [single_row (x_spec x) i], m1))) of
        (Inl e, m') \<Rightarrow> (Inl e, m')
      | (Inr rows, m') \<Rightarrow> (narrow_rows rows services, m'))"

definition dash :: "string \<Rightarrow> string" where
  "dash s = (if s = [] then ''-'' else s)"

definition row_name :: "bool \<Rightarrow> service_row \<Rightarrow> string" where
  "row_name compose r = (if compose \<and> sr_workspace r then sr_service r @ ''*'' else sr_service r)"

definition print_service_rows :: "service_row list \<Rightarrow> bool \<Rightarrow> string" where
  "print_service_rows rows compose =
     (if rows = [] then ''no containers'' @ [LF]
      else
        let svc_w = column_width ''SERVICE'' (map (row_name compose) rows);
            state_w = column_width ''STATE'' (map sr_state rows);
            ctr_w = column_width ''CONTAINER'' (map sr_container rows)
        in pad_right svc_w ''SERVICE'' @ ''  '' @ pad_right state_w ''STATE'' @ ''  '' @ pad_right ctr_w ''CONTAINER''
           @ ''  IMAGE'' @ [LF]
           @ concat (map (\<lambda>r. pad_right svc_w (row_name compose r) @ ''  '' @ pad_right state_w (sr_state r)
                @ ''  '' @ pad_right ctr_w (dash (sr_container r)) @ ''  '' @ dash (sr_image r) @ [LF]) rows)
           @ (if list_ex (\<lambda>r. row_name compose r \<noteq> sr_service r) rows
              then [LF] @ ''* the workspace service devc attaches to'' @ [LF] else []))"

section \<open>devc status\<close>

record status_report =
  rp_name :: string
  rp_id :: string
  rp_kind :: string
  rp_runtime :: string
  rp_local :: string
  rp_container :: string
  rp_state :: string
  rp_container_id :: string
  rp_config_drift :: bool
  rp_ports :: "int list"

definition report_of :: "(spec \<Rightarrow> string) \<Rightarrow> spec \<Rightarrow> string \<Rightarrow> info option \<Rightarrow> status_report" where
  "report_of json_spec s runtime i =
     \<lparr>rp_name = s_name s, rp_id = s_id s, rp_kind = kind_text (s_kind s), rp_runtime = runtime,
      rp_local = s_local_folder s, rp_container = s_container_folder s,
      rp_state = (case i of None \<Rightarrow> ''not created'' | Some c \<Rightarrow> container_state c),
      rp_container_id = (case i of None \<Rightarrow> [] | Some c \<Rightarrow> short (in_id c)),
      rp_config_drift = (case i of None \<Rightarrow> False
         | Some c \<Rightarrow> label_of c label_config_hash \<noteq> [] \<and> label_of c label_config_hash \<noteq> config_hash json_spec s),
      rp_ports = map host_port (s_ports s)\<rparr>"

definition status :: "ctx \<Rightarrow> session \<Rightarrow> (cmd_error + status_report) \<times> session" where
  "status x m =
     (case attach_ref x m of
        (Inl e, m') \<Rightarrow> (Inl e, m')
      | (Inr (_, i), m') \<Rightarrow> (Inr (report_of (x_json x) (x_spec x) (cli_name (x_cli x)) i), m'))"

section \<open>Which folder a name means\<close>

lemma matched_folders:
  "set (matched_folders is name) = (\<lambda>i. label_of i label_local) ` {i \<in> set is. matches name i} - {[]}"
  "sorted (matched_folders is name)" "distinct (matched_folders is name)"
  by (auto simp: matched_folders_def)

text \<open>
  C30: \<open>--name\<close> picks a folder only when it is the one. With the folders recorded for the workspaces that
  have the text as their name or id: a folder is selected exactly when it is the only one; otherwise
  the error says that there is no such workspace, that none of those found has a folder recorded, or
  lists the folders, each once and sorted.
\<close>

lemma select_workspace_folder_spec:
  "let F = (\<lambda>i. label_of i label_local) ` {i \<in> set is. matches name i} - {[]} in
   (select_workspace_folder is name = Inr f \<longleftrightarrow> F = {f})
   \<and> (select_workspace_folder is name = Inl (NoWorkspace name) \<longleftrightarrow> {i \<in> set is. matches name i} = {})
   \<and> (select_workspace_folder is name = Inl (NoFolder name) \<longleftrightarrow> F = {} \<and> {i \<in> set is. matches name i} \<noteq> {})
   \<and> (select_workspace_folder is name = Inl (AmbiguousName name fs) \<longleftrightarrow>
        2 \<le> card F \<and> fs = sorted_list_of_set F)"
proof -
  define F where "F = (\<lambda>i. label_of i label_local) ` {i \<in> set is. matches name i} - {[]}"
  define l where "l = matched_folders is name"
  have l: "F = set l" "sorted l" "distinct l" using matched_folders by (simp_all add: l_def F_def)
  have sl: "sorted_list_of_set F = l" using l by (metis sorted_list_of_set.idem_if_sorted_distinct)
  have none: "{i \<in> set is. matches name i} = {} \<longleftrightarrow> \<not> list_ex (matches name) is" by (auto simp: list_ex_iff)
  have empty: "\<not> list_ex (matches name) is \<Longrightarrow> l = []"
    using l(1) none unfolding F_def by (metis image_empty empty_Diff set_empty2)
  have "set l = {f} \<longleftrightarrow> l = [f]" using l(3) by (cases l; cases "tl l") auto
  then have F: "F = {} \<longleftrightarrow> l = []" "F = {f} \<longleftrightarrow> l = [f]" "card F = length l"
    using l by (simp_all add: distinct_card)
  have sel: "select_workspace_folder is name =
      (case l of [] \<Rightarrow> Inl (if list_ex (matches name) is then NoFolder name else NoWorkspace name)
       | [f] \<Rightarrow> Inr f | fs \<Rightarrow> Inl (AmbiguousName name fs))"
    by (simp add: select_workspace_folder_def l_def)
  consider "l = []" | f' where "l = [f']" | f1 f2 r where "l = f1 # f2 # r" by (metis list.exhaust)
  then show ?thesis
    unfolding Let_def F_def [symmetric] none sl F sel using empty by cases auto
qed

section \<open>Renamed workspaces are found\<close>

definition renamed :: "spec \<Rightarrow> workspace_ref \<Rightarrow> bool" where
  "renamed s r \<longleftrightarrow> rf_id r \<noteq> s_id s \<and> rf_local r \<noteq> [] \<and> rf_local r = s_local_folder s
     \<and> (rf_config r = [] \<or> rf_config r = s_config_path s)"

lemma renamed_loop_filter:
  "distinct (map rf_id rs) \<Longrightarrow> (\<forall>r \<in> set rs. rf_id r \<in> set seen \<longleftrightarrow> rf_id r = s_id s) \<Longrightarrow>
   renamed_loop s seen rs = filter (renamed s) rs"
proof (induction rs arbitrary: seen)
  case (Cons r rs)
  then have "renamed_loop s seen rs = filter (renamed s) rs" by simp
  moreover have "\<forall>r' \<in> set rs. rf_id r' \<noteq> rf_id r" using Cons.prems(1) by (auto simp: image_iff)
  then have "renamed_loop s (rf_id r # seen) rs = filter (renamed s) rs" using Cons by simp
  ultimately show ?case using Cons.prems(2) by (auto simp: renamed_def [of s r])
qed simp

lemma renamed_from_filter:
  "distinct (map rf_id rs) \<Longrightarrow> renamed_from s rs = sort_key rf_id (filter (renamed s) rs)"
  by (simp add: renamed_from_def renamed_loop_filter)

lemma renamed_from_not_self: "r \<in> set (renamed_from s rs) \<Longrightarrow> rf_id r \<noteq> s_id s \<and> rf_local r = s_local_folder s"
proof -
  have "r \<in> set (renamed_loop s seen rs) \<Longrightarrow> rf_id r \<notin> set seen \<and> rf_local r = s_local_folder s" for seen
    by (induction rs arbitrary: seen) (fastforce split: if_splits)+
  from this [of "[s_id s]"] show "r \<in> set (renamed_from s rs) \<Longrightarrow> rf_id r \<noteq> s_id s \<and> rf_local r = s_local_folder s"
    by (simp add: renamed_from_def)
qed

text \<open>The references of \<open>knownWorkspaces\<close> carry their keys, each once.\<close>

definition keyed :: "workspace_ref gomap \<Rightarrow> bool" where
  "keyed known \<longleftrightarrow> distinct (map fst known) \<and> list_all (\<lambda>(k, r). rf_id r = k) known"

lemma keyed_Nil: "keyed []"
  by (simp add: keyed_def)

lemma keyed_put: "keyed known \<Longrightarrow> rf_id r = k \<Longrightarrow> keyed (map_put k r known)"
  by (auto simp: keyed_def distinct_fst_map_put) (auto simp: map_put_def list_all_iff)

lemma keyed_get: "keyed known \<Longrightarrow> map_of known k = Some r \<Longrightarrow> rf_id r = k"
  by (auto simp: keyed_def list_all_iff dest!: map_of_SomeD)

lemma keyed_ids: "keyed known \<Longrightarrow> map rf_id (map snd known) = map fst known"
  by (auto simp: keyed_def list_all_iff)

lemma keyed_states: "keyed known \<Longrightarrow> keyed (foldl (\<lambda>rs s. map_put (st_id s) (state_ref s) rs) known ss)"
  by (induction ss arbitrary: known) (simp_all add: keyed_put state_ref_def)

lemma keyed_label: "keyed known \<Longrightarrow> keyed (label_ref known i)"
  by (auto simp: label_ref_def Let_def intro!: keyed_put dest: keyed_get split: option.split)

lemma keyed_labels: "keyed known \<Longrightarrow> keyed (foldl label_ref known is)"
  by (induction "is" arbitrary: known) (simp_all add: keyed_label)

lemma known_workspaces_distinct: "distinct (map rf_id (fst (known_workspaces decode r m)))"
proof -
  have "\<exists>known. keyed known \<and> fst (known_workspaces decode r m) = map snd known"
    using keyed_Nil
    by (simp add: known_workspaces_def Let_def split: prod.split sum.split option.split)
      (blast intro: keyed_states keyed_labels)
  then show ?thesis using keyed_ids unfolding keyed_def by metis
qed

text \<open>
  C27: \<open>renamedFrom\<close> does not depend on the order in which Go goes through its map. From the workspaces
  known on the host, in any order, it returns those brought up from the folder and configuration of the
  spec (or from its folder when no configuration was recorded) under another id, each once and sorted.
\<close>

theorem renamed_from_known:
  assumes "mset rs = mset (fst (known_workspaces decode r m))"
  shows "renamed_from s rs = renamed_from s (fst (known_workspaces decode r m))
    \<and> set (renamed_from s rs) = {k \<in> set rs. renamed s k}
    \<and> sorted (map rf_id (renamed_from s rs)) \<and> distinct (map rf_id (renamed_from s rs))"
proof -
  let ?ks = "fst (known_workspaces decode r m)"
  have d: "distinct (map rf_id rs)" "distinct (map rf_id ?ks)"
    using known_workspaces_distinct assms by (metis mset_eq_imp_distinct_iff mset_map)+
  have f: "distinct (map rf_id (renamed_from s xs))" if "distinct (map rf_id xs)" for xs
    using that distinct_map_filter [of rf_id xs "renamed s"]
    by (simp add: renamed_from_filter) (metis distinct_sort mset_eq_imp_distinct_iff mset_map mset_sort)
  have "renamed_from s rs = renamed_from s ?ks"
  proof (rule map_sorted_distinct_set_unique [where f = rf_id])
    have "set rs = set ?ks" using assms by (metis set_mset_mset)
    then show "set (renamed_from s rs) = set (renamed_from s ?ks)" using d by (simp add: renamed_from_filter)
    show "inj_on rf_id (set (renamed_from s rs) \<union> set (renamed_from s ?ks))"
      using \<open>set rs = set ?ks\<close> d by (auto simp: renamed_from_filter inj_on_def dest: distinct_map [THEN iffD1])
  qed (use d f in \<open>simp_all add: renamed_from_filter\<close>)
  then show ?thesis using d f set_mset_mset [of rs] assms by (auto simp: renamed_from_filter dest: mset_eq_setD)
qed

text \<open>Naming services of \<open>devc ps\<close>: the rows of each, in the order named, or the first that has none.\<close>

lemma filter_rows_Inr:
  "filter_rows rows services = Inr out \<longleftrightarrow>
     (\<forall>n \<in> set services. n \<in> sr_service ` set rows)
     \<and> out = concat (map (\<lambda>n. filter (\<lambda>r. sr_service r = n) rows) services)"
proof (induction services arbitrary: out)
  case (Cons n services)
  have "filter (\<lambda>r. sr_service r = n) rows = [] \<longleftrightarrow> n \<notin> sr_service ` set rows"
    by (auto simp: filter_empty_conv)
  with Cons show ?case by (cases "filter (\<lambda>r. sr_service r = n) rows") auto
qed auto

section \<open>Instances\<close>

definition demo_renamed_machine :: machine where
  "demo_renamed_machine = demo_machine\<lparr>m_ids := [''old-1''],
     m_dirs := (\<lambda>i. if i = ''old-1'' then Some (StateFile (zero_state\<lparr>st_id := ''old-1'', st_local_folder := ''/w''\<rparr>)) else None)\<rparr>"

definition demo_known :: "workspace_ref list" where
  "demo_known = fst (known_workspaces (\<lambda>_. None) (cli_ops (\<lambda>_. None) (demo_proc (Some 0)) demo_cli) demo_renamed_machine)"

lemma demo_known: "demo_known = [\<lparr>rf_id = ''old-1'', rf_name = [], rf_local = ''/w'', rf_config = []\<rparr>]"
  by (simp add: demo_known_def known_workspaces_def list_workspaces_def list_workspaces_raw_def ps_by_label_def
      cli_ops_def cli_output_def cli_exec_def exec_call_def demo_proc_def demo_renamed_machine_def demo_machine_def
      state_list_def List.map_filter_def read_state_def zero_state_def state_ref_def map_put_def Let_def)

lemma renamed_from_known_witness:
  "''old-1'' \<in> rf_id ` set (renamed_from (demo_spec\<lparr>s_id := ''new-1'', s_local_folder := ''/w''\<rparr>) (rev demo_known))"
proof -
  have "mset (rev demo_known) = mset demo_known" by simp
  note * = this [unfolded demo_known_def]
  from renamed_from_known [OF *, of "demo_spec\<lparr>s_id := ''new-1'', s_local_folder := ''/w''\<rparr>"]
  show ?thesis by (auto simp: demo_known renamed_def image_iff simp flip: demo_known_def)
qed

end
