(* ===== verification/Provision.thy ===== *)
theory Provision
  imports Workspace
begin

text \<open>
  What \<open>devc up\<close> installs once a container runs: \<open>cmd/devc/provision.go\<close>, the copied git configuration of
  \<open>cmd/devc/gitconfig.go\<close>, and the commands of \<open>cmd/devc/keys.go\<close> that write the same files. Files are read
  when the code reads them; the processes of the container runtime do not touch the host's files.
\<close>

section \<open>Paths\<close>

definition ssh_alias :: "spec \<Rightarrow> string" where
  "ssh_alias s = ''devc.'' @ s_name s"

definition user_home :: "ctx \<Rightarrow> string" where
  "user_home x = (case ho_home (x_host x) of None \<Rightarrow> [] | Some h \<Rightarrow> h)"

definition control_dir :: "ctx \<Rightarrow> string \<Rightarrow> string" where
  "control_dir x i = path_join [''/tmp'', ''devc-'' @ itoa (x_uid x), i]"

definition ensure_control_dir :: "ctx \<Rightarrow> string \<Rightarrow> session \<Rightarrow> string option" where
  "ensure_control_dir x i m = (if mkdir_ok (control_dir x i) m then Some (control_dir x i) else None)"

definition remove_control_dir :: "ctx \<Rightarrow> string \<Rightarrow> session \<Rightarrow> bool \<times> session" where
  "remove_control_dir x i m =
     (if m_locked m (control_dir x i) then (False, m)
      else (True, m\<lparr>m_files := (\<lambda>p. if under (control_dir x i) p then None else m_files m p)\<rparr>))"

definition ssh_config_dir :: "ctx \<Rightarrow> string" where
  "ssh_config_dir x =
     (let e = ho_env (x_host x) ''XDG_CONFIG_HOME'';
          b = (if e = [] then path_join [user_home x, ''.config''] else e)
      in path_join [b, ''devc'', ''ssh.config.d''])"

definition ssh_config_path :: "ctx \<Rightarrow> string \<Rightarrow> string" where
  "ssh_config_path x i = path_join [ssh_config_dir x, i @ ''.config'']"

definition include_glob :: "ctx \<Rightarrow> string" where
  "include_glob x = path_join [ssh_config_dir x, ''*.config'']"

definition user_ssh_config_path :: "ctx \<Rightarrow> string" where
  "user_ssh_config_path x = path_join [user_home x, ''.ssh'', ''config'']"

section \<open>Git configuration\<close>

definition git_keys :: "string list" where
  "git_keys = [''user.name'', ''user.email'', ''user.signingkey'', ''commit.gpgsign'', ''tag.gpgsign'',
     ''gpg.format'', ''init.defaultbranch'']"

definition trim_line_end :: "string \<Rightarrow> string" where
  "trim_line_end s = rev (dropWhile (\<lambda>c. c = CR \<or> c = LF) (rev s))"

text \<open>One \<open>git config --get\<close> for each key, in order; a key that is unset or empty is skipped.\<close>

fun gather_git :: "proc \<Rightarrow> string \<Rightarrow> string list \<Rightarrow> session \<Rightarrow> (string \<times> string) list \<times> session" where
  "gather_git p git [] m = ([], m)"
| "gather_git p git (k # ks) m =
     (case exec_call p \<lparr>c_bin = git, c_args = [''config'', ''--get'', k], c_stdin = []\<rparr> m of
        (rs, m1) \<Rightarrow>
          (case gather_git p git ks m1 of (out, m2) \<Rightarrow>
             (if rs_fail rs = None \<and> trim_line_end (rs_out rs) \<noteq> []
              then ((k, trim_line_end (rs_out rs)) # out, m2) else (out, m2))))"

text \<open>The pairs grouped by section, the sections in the order they were first seen.\<close>

definition add_git :: "(string \<times> (string \<times> string) list) list \<Rightarrow> string \<times> string
    \<Rightarrow> (string \<times> (string \<times> string) list) list" where
  "add_git secs kv =
     (case cut (fst kv) (CHR ''.'') of (sec, n, ok) \<Rightarrow>
        if \<not> ok then secs
        else if sec \<in> fst ` set secs
          then map (\<lambda>(s, kvs). if s = sec then (s, kvs @ [(n, snd kv)]) else (s, kvs)) secs
          else secs @ [(sec, [(n, snd kv)])])"

definition git_line :: "string \<times> string \<Rightarrow> string" where
  "git_line kv = [TAB] @ fst kv @ '' = '' @ snd kv @ [LF]"

definition git_section :: "string \<times> (string \<times> string) list \<Rightarrow> string" where
  "git_section s = ''['' @ fst s @ '']'' @ [LF] @ concat (map git_line (snd s))"

definition render_git_config :: "(string \<times> string) list \<Rightarrow> string" where
  "render_git_config pairs =
     (if pairs = [] then []
      else ''# Managed by devc (credentials.syncGitConfig). Overwritten on `devc up`.'' @ [LF]
           @ concat (map git_section (foldl add_git [] pairs)))"

definition git_script :: string where
  "git_script = ''set -e; dir='' @ [DQ] @ ''${XDG_CONFIG_HOME:-$HOME/.config}/git'' @ [DQ] @ ''; mkdir -p '' @ [DQ]
     @ ''$dir'' @ [DQ] @ ''; cat > '' @ [DQ] @ ''$dir/config'' @ [DQ]"

text \<open>\<open>False\<close> is an error, which the caller only warns of.\<close>

definition sync_git :: "ctx \<Rightarrow> string \<Rightarrow> session \<Rightarrow> bool \<times> session" where
  "sync_git x ref m =
     (case ho_look (x_host x) ''git'' of
        None \<Rightarrow> (False, m)
      | Some git \<Rightarrow>
          (case gather_git (x_proc x) git git_keys m of (pairs, m1) \<Rightarrow>
             let content = render_git_config pairs in
             if content = [] then (True, m1)
             else (case ro_run (x_ops x)
                      (exec_args ref (s_remote_user (x_spec x)) (s_container_folder (x_spec x))
                         (effective_env (x_env x m1)) True False [''sh'', ''-c'', git_script]) content m1 of
                     (err, m2) \<Rightarrow> (err = None, m2))))"

section \<open>Provisioning\<close>

definition ssh_params_of :: "spec \<Rightarrow> string \<Rightarrow> string \<Rightarrow> key_set \<Rightarrow> string \<Rightarrow> ssh_params" where
  "ssh_params_of s self runtime_path ks ctl =
     \<lparr>sp_alias = ssh_alias s, sp_user = s_remote_user s, sp_devc_bin = self, sp_config_path = s_config_path s,
      sp_runtime_path = runtime_path, sp_workspace_name = s_name s, sp_identity_file = ks_client_private ks,
      sp_known_hosts_file = ks_known_hosts ks, sp_control_dir = ctl,
      sp_forwards = map (\<lambda>p. (host_port p, container_port p)) (s_ports s),
      sp_forward_agent = forward_agent (s_credentials s)\<rparr>"

definition ensure_user_include :: "ctx \<Rightarrow> session \<Rightarrow> provision_error option \<times> session" where
  "ensure_user_include x m =
     (case ensure_include (x_clock x) (user_ssh_config_path x) (include_glob x) m of
        (Inl e, m') \<Rightarrow> (Some (IncludeFailed e), m')
      | (Inr _, m') \<Rightarrow> (None, m'))"

definition write_ssh_config :: "ctx \<Rightarrow> key_set \<Rightarrow> string \<Rightarrow> session \<Rightarrow> provision_error option \<times> session" where
  "write_ssh_config x ks self m =
     (let s = x_spec x in
      case ensure_control_dir x (s_id s) m of
        None \<Rightarrow> (Some ControlDirFailed, m)
      | Some ctl \<Rightarrow>
          (case write_workspace_config (ssh_config_path x (s_id s))
                  (managed_file [render (ssh_params_of s self (runtime_bin_path x (x_cli x)) ks ctl)]) m of
             (False, m1) \<Rightarrow> (Some ConfigUnwritable, m1)
           | (True, m1) \<Rightarrow> if x_quiet x then (None, m1) else ensure_user_include x m1))"

definition file_text :: "string \<Rightarrow> 'z machine_scheme \<Rightarrow> string option" where
  "file_text p m = (case read_file p m of Inl _ \<Rightarrow> None | Inr s \<Rightarrow> Some s)"

definition inject_options_of :: "ctx \<Rightarrow> string \<Rightarrow> string \<Rightarrow> key_set \<Rightarrow> session \<Rightarrow> inject_options" where
  "inject_options_of x ref self ks m =
     \<lparr>io_container = ref, io_agent_source = self, io_source_exists = (ho_stat (x_host x) self \<noteq> None),
      io_host_arch = x_arch x, io_version = x_version x, io_host_key = file_text (ks_host_private ks) m,
      io_auth_key = file_text (ks_client_public ks) m, io_env = effective_env (x_env x m)\<rparr>"

definition provision :: "ctx \<Rightarrow> string \<Rightarrow> session \<Rightarrow> provision_error option \<times> session" where
  "provision x ref m =
     (let s = x_spec x in
      case state_for (s_id s) m of
        (False, m1) \<Rightarrow> (Some NoKeyDir, m1)
      | (True, m1) \<Rightarrow>
      (case ensure_keys (x_gen x) (x_canon x) (state_root (s_id s) m1) (ssh_alias s) m1 of
        (Inl e, m2) \<Rightarrow> (Some (KeysFailed e), m2)
      | (Inr ks, m2) \<Rightarrow>
      (case x_self x of
        None \<Rightarrow> (Some NoSelf, m2)
      | Some self \<Rightarrow>
      (case inject (x_ops x) (inject_options_of x ref self ks m2) m2 of
        (Some e, m3) \<Rightarrow> (Some (InjectFailed e), m3)
      | (None, m3) \<Rightarrow>
      (case write_ssh_config x ks self m3 of
        (Some e, m4) \<Rightarrow> (Some e, m4)
      | (None, m4) \<Rightarrow> (None, if sync_git_config (s_credentials s) then snd (sync_git x ref m4) else m4))))))"

section \<open>devc keys and devc ssh-config\<close>

text \<open>The public key printed.\<close>

definition keys_command :: "ctx \<Rightarrow> bool \<Rightarrow> session \<Rightarrow> (provision_error + string) \<times> session" where
  "keys_command x rot m =
     (let s = x_spec x in
      case state_for (s_id s) m of
        (False, m1) \<Rightarrow> (Inl NoKeyDir, m1)
      | (True, m1) \<Rightarrow>
      (case (if rot then rotate_keys else ensure_keys) (x_gen x) (x_canon x) (state_root (s_id s) m1) (ssh_alias s) m1 of
        (Inl e, m2) \<Rightarrow> (Inl (KeysFailed e), m2)
      | (Inr ks, m2) \<Rightarrow>
          (case read_file (ks_client_public ks) m2 of
             Inl _ \<Rightarrow> (Inl KeyFileUnreadable, m2)
           | Inr pub \<Rightarrow> (Inr pub, m2))))"

text \<open>\<open>runSSHConfig\<close>: the runtime path is left out when no runtime is found; \<open>prefer\<close> is \<open>--runtime\<close>.\<close>

definition ssh_config_command :: "ctx \<Rightarrow> string \<Rightarrow> bool \<Rightarrow> session \<Rightarrow> (provision_error + string) \<times> session" where
  "ssh_config_command x prefer print_only m =
     (let s = x_spec x in
      case state_for (s_id s) m of
        (False, m1) \<Rightarrow> (Inl NoKeyDir, m1)
      | (True, m1) \<Rightarrow>
      (case ensure_keys (x_gen x) (x_canon x) (state_root (s_id s) m1) (ssh_alias s) m1 of
        (Inl e, m2) \<Rightarrow> (Inl (KeysFailed e), m2)
      | (Inr ks, m2) \<Rightarrow>
      (case ensure_control_dir x (s_id s) m2 of
        None \<Rightarrow> (Inl ControlDirFailed, m2)
      | Some ctl \<Rightarrow>
          let self = (case x_self x of None \<Rightarrow> [] | Some b \<Rightarrow> b);
              rt = (case detect (x_host x) prefer of Inl _ \<Rightarrow> [] | Inr c \<Rightarrow> runtime_bin_path x c);
              content = managed_file [render (ssh_params_of s self rt ks ctl)]
          in if print_only then (Inr content, m2)
             else (case write_workspace_config (ssh_config_path x (s_id s)) content m2 of
                     (False, m3) \<Rightarrow> (Inl ConfigUnwritable, m3)
                   | (True, m3) \<Rightarrow>
                       (case ensure_user_include x m3 of
                          (Some e, m4) \<Rightarrow> (Inl e, m4)
                        | (None, m4) \<Rightarrow> (Inr content, m4))))))"

section \<open>Where files are\<close>

lemma zero_pad_no_slash: "SLASH \<notin> set (zero_pad k n)"
  using nat_digits_digits [of n] by (auto simp: zero_pad_def list_all_iff is_digit_def)

lemma compact_time_no_slash: "SLASH \<notin> set (compact_time t)"
  using zero_pad_no_slash by (auto simp: compact_time_def)

lemma under_append: "SLASH \<notin> set y \<Longrightarrow> under d (p @ y) \<longleftrightarrow> under d p"
proof
  assume y: "SLASH \<notin> set y" and "under d (p @ y)"
  then consider "prefix (d @ ''/'') p" | us where "d @ ''/'' = p @ us" "prefix us y"
    unfolding under_def prefix_append by blast
  then show "under d p"
  proof cases
    case (2 us)
    have "us = []"
    proof (rule ccontr)
      assume "us \<noteq> []"
      then have "SLASH \<in> set us" using 2(1) by (metis last_appendR last_in_set last_snoc)
      with 2(2) y show False by (auto dest: set_mono_prefix)
    qed
    with 2(1) show ?thesis by (simp add: under_def)
  qed (simp add: under_def)
qed (simp add: under_def)

lemma under_backup: "under d (backup_path t p) \<longleftrightarrow> under d p"
proof -
  have "SLASH \<notin> set (''.devc-backup-'' @ compact_time t)" using compact_time_no_slash by simp
  from under_append [OF this] show ?thesis by (simp only: backup_path_def)
qed

lemma key_paths_under:
  assumes "abs_parts ps" and "ps \<noteq> []"
  shows "\<forall>p \<in> {ks_client_private ks, ks_client_public ks, ks_host_private ks, ks_host_public ks, ks_known_hosts ks}.
    ks = paths_in (abs_of ps) \<longrightarrow> under (abs_of ps) p"
proof -
  have "under (abs_of ps) (path_join [abs_of ps, n])" if "plain_part n" "n \<noteq> ''..''" for n
    using path_join_below [OF assms(1), of "[n]"] that assms(2)
    by (simp add: abs_parts_def abs_of_snoc under_def)
  moreover have "plain_part ''id_ed25519''" "plain_part ''id_ed25519.pub''" "plain_part ''host_key''"
    "plain_part ''host_key.pub''" "plain_part ''known_hosts''" by code_simp+
  ultimately show ?thesis by (simp add: paths_in_def)
qed

text \<open>What writing the configuration leaves as it was.\<close>

lemma ensure_include_frame:
  "ensure_include clock u inc m = (r, m') \<Longrightarrow> p \<noteq> u \<Longrightarrow> (\<And>t. p \<noteq> backup_path t u) \<Longrightarrow> m_files m' p = m_files m p"
  by (auto simp: ensure_include_def add_include_def write_file_def Let_def split: if_splits)

lemma ensure_include_rest:
  "ensure_include clock u inc (m::session) = (r, m') \<Longrightarrow> w_calls m' = w_calls m \<and> ss_env m' = ss_env m"
  by (auto simp: ensure_include_def add_include_def write_file_def Let_def split: if_splits)

lemma gather_git_only [only_calls]: "gather_git p git ks m = (r, m') \<Longrightarrow> only_calls m m'"
proof (induction ks arbitrary: m r m')
  case (Cons k ks)
  then show ?case
    by (auto split: prod.splits if_splits dest!: exec_call_only intro: only_calls_trans)
qed simp

lemma sync_git_only [only_calls]: "sync_git x ref m = (r, m') \<Longrightarrow> only_calls m m'"
  by (auto simp: sync_git_def x_ops_def Let_def split: option.splits prod.splits if_splits
      dest!: gather_git_only cli_run_only intro: only_calls_trans)

text \<open>An injection that succeeded ended by writing the keys that were on the host.\<close>

lemma inject_wrote:
  assumes "inject (cli_ops d p c) o' m = (None, m')"
  shows "\<exists>hk ak. io_host_key o' = Some hk \<and> io_auth_key o' = Some ak
    \<and> \<lparr>c_bin = cli_bin c, c_args = cli_argv c (secrets_args o' hk ak), c_stdin = hk @ ak @ env_file (io_env o')\<rparr>
        \<in> set (w_calls m')"
proof -
  have "\<exists>m0. write_secrets (cli_ops d p c) o' m0 = (None, m')"
    using assms by (auto simp: inject_def Let_def split: prod.splits option.splits if_splits)
  then show ?thesis
    by (cases "io_host_key o'"; cases "io_auth_key o'")
      (auto simp: write_secrets_def cli_ops_def cli_run_def cli_exec_def exec_call_def)
qed

lemma write_ssh_config_ok:
  assumes run: "write_ssh_config x ks self m = (None, m')"
    and sep: "\<not> prefix (user_ssh_config_path x) (ssh_config_path x (s_id (x_spec x)))"
  shows "read_file (ssh_config_path x (s_id (x_spec x))) m' = Inr (managed_file
      [render (ssh_params_of (x_spec x) self (runtime_bin_path x (x_cli x)) ks (control_dir x (s_id (x_spec x))))])
    \<and> (p \<noteq> ssh_config_path x (s_id (x_spec x)) \<and> p \<noteq> user_ssh_config_path x
         \<and> (\<forall>t. p \<noteq> backup_path t (user_ssh_config_path x)) \<longrightarrow> m_files m' p = m_files m p)
    \<and> w_calls m' = w_calls m \<and> ss_env m' = ss_env m"
proof -
  let ?c = "ssh_config_path x (s_id (x_spec x))" and ?u = "user_ssh_config_path x"
  let ?t = "managed_file [render (ssh_params_of (x_spec x) self (runtime_bin_path x (x_cli x)) ks (control_dir x (s_id (x_spec x))))]"
  let ?m1 = "m\<lparr>m_files := (m_files m)(?c \<mapsto> Readable ?t)\<rparr>"
  have ne: "?c \<noteq> ?u" "\<And>t. ?c \<noteq> backup_path t ?u" using sep by (auto simp: backup_path_def)
  have "m' = ?m1 \<or> (\<exists>r. ensure_include (x_clock x) ?u (include_glob x) ?m1 = (r, m'))"
    using run
    by (auto simp: write_ssh_config_def ensure_control_dir_def write_workspace_config_def write_file_ok
        ensure_user_include_def Let_def split: if_splits prod.splits bool.splits sum.splits)
  then show ?thesis
  proof
    assume "\<exists>r. ensure_include (x_clock x) ?u (include_glob x) ?m1 = (r, m')"
    then obtain r where r: "ensure_include (x_clock x) ?u (include_glob x) ?m1 = (r, m')" by blast
    show ?thesis
      using ensure_include_frame [OF r, of ?c] ensure_include_frame [OF r, of p] ensure_include_rest [OF r] ne
      by (auto simp: read_file_def)
  qed (auto simp: read_file_def)
qed

definition key_files :: "key_set \<Rightarrow> string set" where
  "key_files ks = {ks_client_private ks, ks_client_public ks, ks_host_private ks, ks_host_public ks, ks_known_hosts ks}"

lemma write_ssh_config_keeps_keys:
  assumes "write_ssh_config x ks self m = (None, m')" and "abs_parts ps" "ps \<noteq> []"
    and "\<not> under (abs_of ps) (ssh_config_path x (s_id (x_spec x)))" "\<not> under (abs_of ps) (user_ssh_config_path x)"
      "\<not> prefix (user_ssh_config_path x) (ssh_config_path x (s_id (x_spec x)))"
    and p: "p \<in> key_files (paths_in (abs_of ps))"
  shows "m_files m' p = m_files m p"
proof -
  have "under (abs_of ps) p"
    using key_paths_under [OF assms(2,3), of "paths_in (abs_of ps)"] p by (auto simp: key_files_def)
  then show ?thesis using write_ssh_config_ok [OF assms(1,6), of p] assms(4,5) under_backup by (metis (no_types))
qed

lemma provision_steps:
  assumes "provision x ref m = (None, m')"
  obtains ks m1 m2 self m3 m4 where "state_for (s_id (x_spec x)) m = (True, m1)"
    "ensure_keys (x_gen x) (x_canon x) (state_root (s_id (x_spec x)) m1) (ssh_alias (x_spec x)) m1 = (Inr ks, m2)"
    "x_self x = Some self" "inject (x_ops x) (inject_options_of x ref self ks m2) m2 = (None, m3)"
    "write_ssh_config x ks self m3 = (None, m4)"
    "m' = m4 \<or> (\<exists>r. sync_git x ref m4 = (r, m'))"
  using assms
  by (auto simp: provision_def Let_def split: prod.splits bool.splits sum.splits option.splits if_splits)
    (metis prod.collapse)+

text \<open>
  After a provisioning that succeeded, \<open>ssh devc.<name>\<close> and the agent agree. The private host key
  handed to the container is the one on disk, its public half is what \<open>known_hosts\<close> pins for the
  alias; the key the agent accepts is the public half beside the identity file; and the workspace's
  configuration file holds exactly the Host block that names those files. It holds wherever the
  user's and devc's SSH configuration are not in the workspace's state directory, nor one
  named after the other.
\<close>

lemma provision_agrees:
  assumes run: "provision x ref m = (None, m')"
    and root: "state_root (s_id (x_spec x)) m = abs_of ps" "abs_parts ps" "ps \<noteq> []"
    and away: "\<not> under (abs_of ps) (ssh_config_path x (s_id (x_spec x)))" "\<not> under (abs_of ps) (user_ssh_config_path x)"
      "\<not> prefix (user_ssh_config_path x) (ssh_config_path x (s_id (x_spec x)))"
  shows "let s = x_spec x; ks = paths_in (abs_of ps) in \<exists>self hk ak t k. x_self x = Some self
    \<and> read_file (ks_host_private ks) m' = Inr hk \<and> read_file (ks_client_public ks) m' = Inr ak
    \<and> read_file (ks_host_public ks) m' = Inr t \<and> x_canon x t = Some k
    \<and> read_file (ks_known_hosts ks) m' = Inr (ssh_alias s @ '' '' @ k @ [LF])
    \<and> read_file (ssh_config_path x (s_id s)) m'
        = Inr (managed_file [render (ssh_params_of s self (runtime_bin_path x (x_cli x)) ks (control_dir x (s_id s)))])
    \<and> \<lparr>c_bin = cli_bin (x_cli x),
         c_args = cli_argv (x_cli x) (secrets_args (inject_options_of x ref self ks m') hk ak),
         c_stdin = hk @ ak @ env_file (effective_env (x_env x m'))\<rparr> \<in> set (w_calls m')"
proof -
  define ks where "ks = paths_in (abs_of ps)"
  obtain ks' m1 m2 self m3 m4 where sf: "state_for (s_id (x_spec x)) m = (True, m1)"
    and keys: "ensure_keys (x_gen x) (x_canon x) (state_root (s_id (x_spec x)) m1) (ssh_alias (x_spec x)) m1 = (Inr ks', m2)"
    and self: "x_self x = Some self" and inj: "inject (x_ops x) (inject_options_of x ref self ks' m2) m2 = (None, m3)"
    and conf: "write_ssh_config x ks' self m3 = (None, m4)" and git: "m' = m4 \<or> (\<exists>r. sync_git x ref m4 = (r, m'))"
    by (rule provision_steps [OF run])
  have "state_root (s_id (x_spec x)) m1 = abs_of ps"
    using sf root(1) by (auto simp: state_for_def state_root_def split: if_splits)
  note keys = keys [unfolded this]
  have ks: "ks' = ks" by (rule ensure_keys_steps [OF keys]) (simp add: ks_def)
  obtain t k where pin: "read_file (ks_host_public ks) m2 = Inr t" "x_canon x t = Some k"
      "read_file (ks_known_hosts ks) m2 = Inr (ssh_alias (x_spec x) @ '' '' @ k @ [LF])"
    using keys_pinned [OF keys root(2)] ks by blast
  obtain hk ak where sent: "read_file (ks_host_private ks) m2 = Inr hk" "read_file (ks_client_public ks) m2 = Inr ak"
      "\<lparr>c_bin = cli_bin (x_cli x),
         c_args = cli_argv (x_cli x) (secrets_args (inject_options_of x ref self ks m2) hk ak),
         c_stdin = hk @ ak @ env_file (effective_env (x_env x m2))\<rparr> \<in> set (w_calls m3)"
    using inject_wrote [OF inj [unfolded x_ops_def]]
    by (auto simp: ks inject_options_of_def file_text_def split: sum.splits)
  have o23: "only_calls m2 m3" using inj unfolding x_ops_def by (rule inject_only)
  have o45: "only_calls m4 m'" using git by (auto dest: sync_git_only)
  have read: "read_file p m' = read_file p m2" if "p \<in> key_files ks" for p
    using write_ssh_config_keeps_keys [OF conf root(2,3) away] only_calls_files [OF o23] only_calls_files [OF o45] that
    by (simp add: read_file_def ks_def)
  note conf = write_ssh_config_ok [OF conf away(3)]
  note read = read [unfolded key_files_def]
  have env: "x_env x m' = x_env x m2"
    using only_calls_env [OF o23] only_calls_env [OF o45] conf by (simp add: x_env_def)
  have opts: "inject_options_of x ref self ks m' = inject_options_of x ref self ks m2"
    using read env by (simp add: inject_options_of_def file_text_def)
  have "read_file (ssh_config_path x (s_id (x_spec x))) m' = read_file (ssh_config_path x (s_id (x_spec x))) m4"
    using only_calls_files [OF o45] by (simp add: read_file_def)
  with conf have block: "read_file (ssh_config_path x (s_id (x_spec x))) m' = Inr (managed_file
      [render (ssh_params_of (x_spec x) self (runtime_bin_path x (x_cli x)) ks (control_dir x (s_id (x_spec x))))])"
    by (simp only: ks)
  have "set (w_calls m3) \<subseteq> set (w_calls m')" using conf only_calls_files [OF o45] by metis
  with sent(3) have call: "\<lparr>c_bin = cli_bin (x_cli x),
         c_args = cli_argv (x_cli x) (secrets_args (inject_options_of x ref self ks m') hk ak),
         c_stdin = hk @ ak @ env_file (effective_env (x_env x m'))\<rparr> \<in> set (w_calls m')"
    unfolding opts env by blast
  show ?thesis
    unfolding Let_def ks_def [symmetric]
    by (rule exI [of _ self], rule exI [of _ hk], rule exI [of _ ak], rule exI [of _ t], rule exI [of _ k])
      (simp only: self pin sent read block call simp_thms insertI1 insertI2 insert_iff)
qed

section \<open>A sample\<close>

definition uname_proc :: proc where
  "uname_proc cs c = \<lparr>rs_out = ''x86_64'' @ [LF], rs_err = [], rs_fail = None\<rparr>"

definition demo_state_parts :: "string list" where
  "demo_state_parts = [''home'', ''u'', ''.local'', ''share'', ''devc'', ''app-1'']"

lemma demo_paths:
  "state_root (s_id demo_up_spec) demo_session = abs_of demo_state_parts" "abs_parts demo_state_parts"
  "\<not> under (abs_of demo_state_parts) (ssh_config_path (demo_ctx p) (s_id demo_up_spec))"
  "\<not> under (abs_of demo_state_parts) (user_ssh_config_path (demo_ctx p))"
  "\<not> prefix (user_ssh_config_path (demo_ctx p)) (ssh_config_path (demo_ctx p) (s_id demo_up_spec))"
proof -
  have u: "user_home (demo_ctx p) = ''/home/u''" by (simp add: user_home_def demo_ctx_def)
  have d: "ssh_config_dir (demo_ctx p) = path_join [path_join [''/home/u'', ''.config''], ''devc'', ''ssh.config.d'']"
    using u by (simp add: ssh_config_dir_def demo_ctx_def sample_host_def)
  note defs = ssh_config_path_def user_ssh_config_path_def d u
  show "state_root (s_id demo_up_spec) demo_session = abs_of demo_state_parts"
    by (simp add: state_root_def demo_session_def demo_machine_def demo_up_spec_def demo_state_parts_def) code_simp
  show "abs_parts demo_state_parts" by code_simp
  show "\<not> under (abs_of demo_state_parts) (ssh_config_path (demo_ctx p) (s_id demo_up_spec))"
    "\<not> under (abs_of demo_state_parts) (user_ssh_config_path (demo_ctx p))"
    "\<not> prefix (user_ssh_config_path (demo_ctx p)) (ssh_config_path (demo_ctx p) (s_id demo_up_spec))"
    by (unfold defs) code_simp+
qed

definition demo_provision :: "provision_error option \<times> session" where
  "demo_provision = provision (demo_ctx uname_proc) ''c'' demo_session"

lemma demo_provision_ok:
  "demo_provision = (None, snd demo_provision)" "ss_env (snd demo_provision) = None"
  "read_file (ks_host_private (paths_in (abs_of demo_state_parts))) (snd demo_provision) = Inr ''private''"
  "read_file (ks_client_public (paths_in (abs_of demo_state_parts))) (snd demo_provision) = Inr ''public''"
proof -
  let ?ks = "paths_in (abs_of demo_state_parts)"
  note dist = key_paths [OF demo_paths(2), simplified]
  obtain m2 where m2: "ensure_keys (\<lambda>_. Some (''private'', ''public'')) Some (abs_of demo_state_parts) (ssh_alias demo_up_spec)
      demo_session = (Inr ?ks, m2)" "file_text (ks_host_private ?ks) m2 = Some ''private''"
      "file_text (ks_client_public ?ks) m2 = Some ''public''" "m_locked m2 = (\<lambda>_. False)" "ss_env m2 = None"
    using dist
    by (auto simp: ensure_keys_def mkdir_ok_def demo_session_def ensure_pair_def has_file_def generate_key_pair_def
        write_file_def write_known_hosts_def read_file_def file_text_def Let_def)
  have uname: "cut (''x86_64'' @ [LF]) LF = (''x86_64'', [], True)" "trim_space ''x86_64'' = ''x86_64''" "trim_space [] = []"
    by code_simp+
  obtain m3 where m3: "inject (x_ops (demo_ctx uname_proc)) (inject_options_of (demo_ctx uname_proc) ''c'' ''/bin/devc'' ?ks m2) m2 = (None, m3)"
    using m2(2,3) uname
    by (simp add: inject_def cp_into_def write_secrets_def x_ops_def demo_ctx_def cli_ops_def cli_run_def cli_output_def
        cli_exec_def exec_call_def uname_proc_def inject_options_of_def sample_host_def arch_ok_def normalize_arch_def)
  note o23 = inject_only [OF m3 [unfolded x_ops_def]]
  have m3_locked: "m_locked m3 = (\<lambda>_. False)" using only_calls_files [OF o23] m2(4) by simp
  then obtain m4 where m4: "write_ssh_config (demo_ctx uname_proc) ?ks ''/bin/devc'' m3 = (None, m4)"
    by (simp add: write_ssh_config_def ensure_control_dir_def mkdir_ok_def write_workspace_config_def write_file_def
        demo_ctx_def Let_def)
  have "state_for (s_id demo_up_spec) demo_session = (True, demo_session)"
    by (simp add: state_for_def demo_session_def demo_machine_def demo_up_spec_def)
  then have d: "demo_provision = (None, m4)"
    using m2(1) m3 m4 demo_paths(1)
    by (simp add: demo_provision_def provision_def Let_def) (simp add: demo_ctx_def demo_up_spec_def demo_spec_def)
  have spec: "x_spec (demo_ctx uname_proc) = demo_up_spec" by (simp add: demo_ctx_def)
  have "demo_state_parts \<noteq> []" by (simp add: demo_state_parts_def)
  note keeps = write_ssh_config_keeps_keys [OF m4 demo_paths(2) this, unfolded spec, OF demo_paths(3-5)]
  have env: "ss_env m4 = ss_env m3" using write_ssh_config_ok [OF m4, unfolded spec, OF demo_paths(5)] by simp
  show "demo_provision = (None, snd demo_provision)" by (simp add: d)
  show "ss_env (snd demo_provision) = None"
    using only_calls_env [OF o23] env m2(5) by (simp add: d)
  show "read_file (ks_host_private ?ks) (snd demo_provision) = Inr ''private''"
    "read_file (ks_client_public ?ks) (snd demo_provision) = Inr ''public''"
    using m2(2,3) keeps only_calls_files [OF o23]
    by (auto simp: d read_file_def file_text_def key_files_def split: option.splits text_file.splits)
qed

end
