(* ===== verification/Up.thy ===== *)
theory Up
  imports Listing Provision
begin

text \<open>
  Bringing a workspace up: \<open>cmd/devc/up.go\<close>, with the removal of what a renamed workspace left behind
  (\<open>cmd/devc/rename.go\<close>) and the \<open>--start\<close> of \<open>cmd/devc/ssh.go\<close>. The commands start from the session
  \<open>setup\<close> made; \<open>None\<close> is success.
\<close>

section \<open>Bookkeeping\<close>

definition config_entry :: "ctx \<Rightarrow> state \<Rightarrow> state" where
  "config_entry x st =
     (let s = x_spec x in
      st\<lparr>st_id := s_id s, st_name := s_name s, st_local_folder := s_local_folder s,
         st_config_path := s_config_path s, st_config_hash := config_hash (x_json x) s\<rparr>)"

definition update_state :: "string \<Rightarrow> (state \<Rightarrow> state) \<Rightarrow> session \<Rightarrow> bool \<times> session" where
  "update_state i f m =
     (case state_for i m of
        (False, m1) \<Rightarrow> (False, m1)
      | (True, m1) \<Rightarrow> (case state_load i m1 of None \<Rightarrow> (False, m1) | Some st \<Rightarrow> state_save i (f st) m1))"

definition persist :: "ctx \<Rightarrow> session \<Rightarrow> bool \<times> session" where
  "persist x m = update_state (s_id (x_spec x)) (config_entry x) m"

definition persist_compose :: "ctx \<Rightarrow> string \<Rightarrow> session \<Rightarrow> bool \<times> session" where
  "persist_compose x project m =
     update_state (s_id (x_spec x)) (\<lambda>st. (config_entry x st)\<lparr>st_compose_project := project\<rparr>) m"

section \<open>After the container runs\<close>

record hook_flags =
  hf_skip :: bool
  hf_rerun :: bool

definition no_flags :: hook_flags where
  "no_flags = \<lparr>hf_skip = False, hf_rerun = False\<rparr>"

definition post_up :: "ctx \<Rightarrow> string \<Rightarrow> string \<Rightarrow> hook_flags \<Rightarrow> session \<Rightarrow> cmd_error option \<times> session" where
  "post_up x ref cid hf m =
     (case run_lifecycle_hooks (x_sched x) disk_store (\<lambda>m. rfc3339 (x_clock x m))
             (container_executor (x_env x m) ref) (x_spec x) cid (hf_skip hf) (hf_rerun hf) m of
        (Some e, m1) \<Rightarrow> (Some (Up e), m1)
      | (None, m1) \<Rightarrow>
          (case resolve_session_env disk_store (x_version x) (x_env x m1) ref cid m1 of
             (env, m2) \<Rightarrow>
               (case provision x ref (m2\<lparr>ss_env := Some env\<rparr>) of
                  (Some e, m3) \<Rightarrow> (Some (Provision e), m3)
                | (None, m3) \<Rightarrow>
                    (case run_post_attach (x_sched x) (container_executor (x_env x m3) ref) (x_spec x) (hf_skip hf) m3 of
                       (err, m4) \<Rightarrow> (map_option Up err, m4)))))"

section \<open>Single container\<close>

text \<open>\<open>createFresh\<close>; its \<open>rebuild\<close> only chooses a message.\<close>

definition create_fresh :: "ctx \<Rightarrow> session \<Rightarrow> cmd_error option \<times> session" where
  "create_fresh x m =
     (case (if s_kind (x_spec x) = KindBuild then build_image (x_ops x) (x_spec x) (x_platform x) m else (None, m)) of
        (Some e, m1) \<Rightarrow> (Some e, m1)
      | (None, m1) \<Rightarrow>
          (case create_container (x_json x) (x_ops x) (x_spec x) (x_create x) (x_platform x) m1 of
             (Inl e, m2) \<Rightarrow> (Some e, m2)
           | (Inr _, m2) \<Rightarrow> (None, m2)))"

definition up_action :: "ctx \<Rightarrow> info option \<Rightarrow> bool \<Rightarrow> action" where
  "up_action x existing recreate =
     (if recreate \<and> existing \<noteq> None then ActionRecreate else decide (x_json x) existing (x_spec x) recreate)"

fun perform :: "ctx \<Rightarrow> string \<Rightarrow> info option \<Rightarrow> action \<Rightarrow> session \<Rightarrow> cmd_error option \<times> session" where
  "perform x name existing ActionAttach m = (None, m)"
| "perform x name existing ActionStart m = start_container (x_ops x) name m"
| "perform x name existing ActionDrift m =
     (case existing of
        None \<Rightarrow> (None, m)
      | Some i \<Rightarrow> if running i then (None, m) else start_container (x_ops x) name m)"
| "perform x name existing ActionRecreate m =
     (case remove_container (x_ops x) name m of
        (Some e, m1) \<Rightarrow> (Some e, m1)
      | (None, m1) \<Rightarrow> create_fresh x m1)"
| "perform x name existing ActionCreate m = create_fresh x m"

text \<open>The first part of \<open>upSingle\<close>, until the container runs.\<close>

definition bring_up :: "ctx \<Rightarrow> bool \<Rightarrow> bool \<Rightarrow> session \<Rightarrow> cmd_error option \<times> session" where
  "bring_up x recreate rebuild m =
     (let name = container_name (x_spec x) in
      case find_container (x_ops x) name m of
        (Inl e, m1) \<Rightarrow> (Some (Query e), m1)
      | (Inr existing, m1) \<Rightarrow> perform x name existing (up_action x existing (recreate \<or> rebuild)) m1)"

definition container_key :: "ctx \<Rightarrow> session \<Rightarrow> string \<times> session" where
  "container_key x m =
     (let name = container_name (x_spec x) in
      case find_container (x_ops x) name m of
        (Inr (Some i), m1) \<Rightarrow> (in_id i, m1)
      | (_, m1) \<Rightarrow> (name, m1))"

definition up_single :: "ctx \<Rightarrow> bool \<Rightarrow> bool \<Rightarrow> hook_flags \<Rightarrow> session \<Rightarrow> cmd_error option \<times> session" where
  "up_single x recreate rebuild hf m =
     (case bring_up x recreate rebuild m of
        (Some e, m1) \<Rightarrow> (Some e, m1)
      | (None, m1) \<Rightarrow>
          (case container_key x (snd (persist x m1)) of
             (cid, m2) \<Rightarrow> post_up x (container_name (x_spec x)) cid hf m2))"

section \<open>Compose\<close>

text \<open>\<open>Inr\<close> tells whether the workspace's own service was part of the bring-up.\<close>

definition up_compose :: "ctx \<Rightarrow> bool \<Rightarrow> bool \<Rightarrow> string list \<Rightarrow> hook_flags \<Rightarrow> session
    \<Rightarrow> (cmd_error + bool) \<times> session" where
  "up_compose x recreate rebuild services hf m =
     (case compose_impl x m of
        (Inl e, m1) \<Rightarrow> (Inl e, m1)
      | (Inr c, m1) \<Rightarrow>
          (let s = x_spec x; project = project_of x; targets = compose_targets services (run_services s) in
           case compose_up x c project rebuild recreate targets m1 of
             (Some e, m2) \<Rightarrow> (Inl e, m2)
           | (None, m2) \<Rightarrow>
               if \<not> compose_covers targets (compose_service s) then (Inr False, m2)
               else (case find_compose_service (x_ops x) project (compose_service s) m2 of
                  (Inl e, m3) \<Rightarrow> (Inl (Query e), m3)
                | (Inr None, m3) \<Rightarrow> (Inl (NoServiceContainer (compose_service s)), m3)
                | (Inr (Some i), m3) \<Rightarrow>
                    (case post_up x (in_id i) (in_id i) hf (snd (persist_compose x project m3)) of
                       (Some e, m4) \<Rightarrow> (Inl e, m4)
                     | (None, m4) \<Rightarrow> (Inr True, m4)))))"

section \<open>Renamed workspaces\<close>

fun remove_members :: "ctx \<Rightarrow> info list \<Rightarrow> session \<Rightarrow> cmd_error option \<times> session" where
  "remove_members x [] m = (None, m)"
| "remove_members x (i # is) m =
     (case remove_container (x_ops x) (in_id i) m of
        (Some e, m1) \<Rightarrow> (Some e, m1)
      | (None, m1) \<Rightarrow> remove_members x is m1)"

text \<open>The single container: a failure counts when the container is (or may be) still there.\<close>

definition remove_single :: "ctx \<Rightarrow> string \<Rightarrow> session \<Rightarrow> cmd_error option \<times> session" where
  "remove_single x name m =
     (case remove_container (x_ops x) name m of
        (None, m1) \<Rightarrow> (None, m1)
      | (Some e, m1) \<Rightarrow>
          (case find_container (x_ops x) name m1 of
             (Inr None, m2) \<Rightarrow> (None, m2)
           | (_, m2) \<Rightarrow> (Some e, m2)))"

definition project_down :: "ctx \<Rightarrow> string \<Rightarrow> session \<Rightarrow> bool \<times> session" where
  "project_down x project m =
     (if s_kind (x_spec x) \<noteq> KindCompose then (False, m)
      else (case compose_impl x m of
              (Inl _, m1) \<Rightarrow> (False, m1)
            | (Inr c, m1) \<Rightarrow>
                (case compose_down x c project False m1 of (err, m2) \<Rightarrow> (err = None, m2))))"

definition remove_workspace_containers :: "ctx \<Rightarrow> string \<Rightarrow> session \<Rightarrow> cmd_error option \<times> session" where
  "remove_workspace_containers x i m =
     (case remove_single x (''devc-'' @ i) m of
        (Some e, m1) \<Rightarrow> (Some e, m1)
      | (None, m1) \<Rightarrow>
          (case list_compose_project (x_decode x) (x_ops x) (''devc-'' @ i) m1 of
             (Inl e, m2) \<Rightarrow> (Some (Query e), m2)
           | (Inr members, m2) \<Rightarrow>
               if members = [] then (None, m2)
               else (case project_down x (''devc-'' @ i) m2 of
                       (True, m3) \<Rightarrow> (None, m3)
                     | (False, m3) \<Rightarrow> remove_members x members m3)))"

text \<open>The host side of a workspace: state directory, control sockets, SSH configuration; failures are warned of.\<close>

definition forget_workspace :: "ctx \<Rightarrow> string \<Rightarrow> session \<Rightarrow> session" where
  "forget_workspace x i m =
     (let m1 = (case state_for i m of (True, m1) \<Rightarrow> snd (state_remove i m1) | (False, m1) \<Rightarrow> m1);
          m2 = snd (remove_control_dir x i m1)
      in snd (remove_workspace_config (ssh_config_path x i) m2))"

fun retire_refs :: "ctx \<Rightarrow> workspace_ref list \<Rightarrow> session \<Rightarrow> session" where
  "retire_refs x [] m = m"
| "retire_refs x (old # olds) m =
     (case remove_workspace_containers x (rf_id old) m of
        (Some _, m1) \<Rightarrow> retire_refs x olds m1
      | (None, m1) \<Rightarrow> retire_refs x olds (forget_workspace x (rf_id old) m1))"

definition retire_renamed :: "ctx \<Rightarrow> session \<Rightarrow> session" where
  "retire_renamed x m =
     (case known_workspaces (x_decode x) (x_ops x) m of
        (known, m1) \<Rightarrow> retire_refs x (renamed_from (x_spec x) known) m1)"

section \<open>devc up\<close>

text \<open>\<open>runUp\<close> after \<open>setup\<close>; the result tells whether the workspace's own container is up.\<close>

definition up :: "ctx \<Rightarrow> bool \<Rightarrow> bool \<Rightarrow> string list \<Rightarrow> hook_flags \<Rightarrow> session \<Rightarrow> (cmd_error + bool) \<times> session" where
  "up x recreate rebuild args hf m =
     (case compose_services x args of
        Inl e \<Rightarrow> (Inl e, m)
      | Inr services \<Rightarrow>
          (let m1 = retire_renamed x m in
           case (if hf_skip hf then (None, m1) else run_initialize (x_sched x) (x_proc x) (x_env x m1) m1) of
             (Some e, m2) \<Rightarrow> (Inl (InitializeFailed e), m2)
           | (None, m2) \<Rightarrow>
               if s_kind (x_spec x) = KindCompose then up_compose x recreate rebuild services hf m2
               else (case up_single x recreate rebuild hf m2 of
                       (Some e, m3) \<Rightarrow> (Inl e, m3)
                     | (None, m3) \<Rightarrow> (Inr True, m3))))"

section \<open>devc ssh --stdio --start\<close>

definition ensure_up :: "ctx \<Rightarrow> session \<Rightarrow> cmd_error option \<times> session" where
  "ensure_up x m =
     (if s_kind (x_spec x) = KindCompose
      then (case up_compose x False False [] no_flags m of
              (Inl e, m') \<Rightarrow> (Some e, m')
            | (Inr _, m') \<Rightarrow> (None, m'))
      else up_single x False False no_flags m)"

definition is_running :: "info option \<Rightarrow> bool" where
  "is_running i \<longleftrightarrow> (case i of None \<Rightarrow> False | Some c \<Rightarrow> running c)"

definition connect :: "ctx \<Rightarrow> string \<Rightarrow> session \<Rightarrow> cmd_error option \<times> session" where
  "connect x ref m =
     (case ro_run (x_ops x) (agent_serve_args ref (s_remote_user (x_spec x)) (s_container_folder (x_spec x))
              (forward_agent (s_credentials (x_spec x)))) [] m of
        (err, m') \<Rightarrow> (map_option Runtime err, m'))"

definition ssh_stdio :: "ctx \<Rightarrow> bool \<Rightarrow> session \<Rightarrow> cmd_error option \<times> session" where
  "ssh_stdio x start m =
     (case attach_ref x m of
        (Inl e, m1) \<Rightarrow> (Some e, m1)
      | (Inr (ref, i), m1) \<Rightarrow>
          if is_running i then connect x ref m1
          else if \<not> start then (Some (NotRunning (s_name (x_spec x))), m1)
          else (case ensure_up x m1 of
                  (Some e, m2) \<Rightarrow> (Some e, m2)
                | (None, m2) \<Rightarrow>
                    (case attach_ref x m2 of
                       (Inl e, m3) \<Rightarrow> (Some e, m3)
                     | (Inr (ref', i'), m3) \<Rightarrow>
                         if is_running i' then connect x ref' m3
                         else (Some (DidNotComeUp (s_name (x_spec x))), m3))))"

section \<open>The runtime as a daemon\<close>

text \<open>
  What is documented of the runtime for the container of a name: \<open>None\<close> when there is none, otherwise
  whether it runs and the configuration hash it was labelled with, after the calls made so far.
  \<open>inspect\<close> shows it and says \<open>no such object\<close> when it is missing; a \<open>start\<close>, \<open>rm --force\<close> or
  \<open>run --detach --name\<close> that succeeds does what it says; \<open>inspect\<close> and \<open>build\<close> change nothing. Nothing is
  said of a call that fails.
\<close>

type_synonym container = "(bool \<times> string) option"

fun label_values :: "string \<Rightarrow> string list \<Rightarrow> string list" where
  "label_values key (a # b # as) =
     (if a = ''--label'' \<and> prefix (key @ ''='') b then [drop (length key + 1) b] else []) @ label_values key (b # as)"
| "label_values key as = []"

definition call_of :: "ctx \<Rightarrow> string list \<Rightarrow> string \<Rightarrow> call" where
  "call_of x args stdin = \<lparr>c_bin = cli_bin (x_cli x), c_args = cli_argv (x_cli x) args, c_stdin = stdin\<rparr>"

definition displays :: "ctx \<Rightarrow> container \<Rightarrow> response \<Rightarrow> bool" where
  "displays x st rs \<longleftrightarrow>
     (case st of
        None \<Rightarrow> rs_fail rs \<noteq> None \<and> trim_space (rs_err rs) \<noteq> []
          \<and> (\<forall>t. says_no_such_object (t @ trim_space (rs_err rs)))
      | Some (r, h) \<Rightarrow> rs_fail rs = None \<and> trim_space (rs_out rs) \<notin> {[], ''null''}
          \<and> (case x_decode x (trim_space (rs_out rs)) of
               None \<Rightarrow> False | Some i \<Rightarrow> running i = r \<and> label_of i label_config_hash = h))"

definition daemon :: "ctx \<Rightarrow> (call list \<Rightarrow> container) \<Rightarrow> bool" where
  "daemon x st \<longleftrightarrow>
     (let name = container_name (x_spec x); p = x_proc x; inspect = call_of x (inspect_args name) [] in
      \<forall>cs. displays x (st cs) (p cs inspect) \<and> st (cs @ [inspect]) = st cs
        \<and> (let c = call_of x [''start'', name] [] in
             rs_fail (p cs c) = None \<longrightarrow> st (cs @ [c]) = map_option (\<lambda>(_, h). (True, h)) (st cs))
        \<and> (let c = call_of x [''rm'', ''--force'', name] [] in rs_fail (p cs c) = None \<longrightarrow> st (cs @ [c]) = None)
        \<and> (\<forall>as. let c = call_of x (''build'' # as) [] in st (cs @ [c]) = st cs)
        \<and> (\<forall>as h. let args = [''run'', ''--detach'', ''--name'', name] @ as; c = call_of x args [] in
             rs_fail (p cs c) = None \<longrightarrow> label_values label_config_hash args = [h] \<longrightarrow> st (cs @ [c]) = Some (True, h)))"

text \<open>What bringing up means: a container that runs, the old one unless a fresh one is asked for.\<close>

fun abs_up :: "bool \<Rightarrow> string \<Rightarrow> container \<Rightarrow> container" where
  "abs_up fresh hash None = Some (True, hash)"
| "abs_up fresh hash (Some (r, h)) = Some (True, if fresh then hash else h)"

lemma daemonD:
  assumes "daemon x st"
  shows "displays x (st cs) (x_proc x cs (call_of x (inspect_args (container_name (x_spec x))) []))"
    "st (cs @ [call_of x (inspect_args (container_name (x_spec x))) []]) = st cs"
    "rs_fail (x_proc x cs (call_of x [''start'', container_name (x_spec x)] [])) = None \<Longrightarrow>
       st (cs @ [call_of x [''start'', container_name (x_spec x)] []]) = map_option (\<lambda>(_, h). (True, h)) (st cs)"
    "rs_fail (x_proc x cs (call_of x [''rm'', ''--force'', container_name (x_spec x)] [])) = None \<Longrightarrow>
       st (cs @ [call_of x [''rm'', ''--force'', container_name (x_spec x)] []]) = None"
    "st (cs @ [call_of x (''build'' # as) []]) = st cs"
    "rs_fail (x_proc x cs (call_of x ([''run'', ''--detach'', ''--name'', container_name (x_spec x)] @ as) [])) = None \<Longrightarrow>
       label_values label_config_hash ([''run'', ''--detach'', ''--name'', container_name (x_spec x)] @ as) = [h] \<Longrightarrow>
       st (cs @ [call_of x ([''run'', ''--detach'', ''--name'', container_name (x_spec x)] @ as) []]) = Some (True, h)"
  using assms by (simp_all add: daemon_def Let_def)

section \<open>What the operations ask of it\<close>

lemma output_call:
  "ro_output (x_ops x) args m = ((out, err), m') \<Longrightarrow>
   w_calls m' = w_calls m @ [call_of x args []] \<and> (err = None \<longleftrightarrow> rs_fail (x_proc x (w_calls m) (call_of x args [])) = None)"
  by (auto simp: x_ops_def cli_ops_def cli_output_def cli_exec_def exec_call_def call_of_def Let_def split: option.splits)

lemma run_call:
  "ro_run (x_ops x) args stdin m = (err, m') \<Longrightarrow> w_calls m' = w_calls m @ [call_of x args stdin]"
  by (auto simp: x_ops_def cli_ops_def cli_run_def cli_exec_def exec_call_def call_of_def)

lemma verb_call:
  "verb args (x_ops x) name m = (err, m') \<Longrightarrow>
   w_calls m' = w_calls m @ [call_of x (args @ [name]) []]
   \<and> (err = None \<longleftrightarrow> rs_fail (x_proc x (w_calls m) (call_of x (args @ [name]) [])) = None)"
  by (auto simp: verb_def split: prod.splits dest: output_call)

lemma no_such_object_prefix: "\<forall>t. says_no_such_object (t @ s) \<Longrightarrow> is_no_such_object (RunnerFailed (t @ s))"
  by (simp add: is_no_such_object_def)

text \<open>\<open>find_container\<close> makes one call, whatever the runtime answers.\<close>

lemma find_container_call:
  assumes "find_container (x_ops x) name m = (r, m')"
  shows "w_calls m' = w_calls m @ [call_of x (inspect_args name) []]"
proof -
  obtain r' where "ro_inspect (x_ops x) name m = (r', m')"
    using assms by (auto simp: find_container_def split: prod.splits sum.splits runner_error.splits)
  then have "m' = snd (cli_output (x_proc x) (x_cli x) (inspect_args name) m)"
    using cli_inspect_world [of "x_decode x" "x_proc x" "x_cli x" name m] by (simp add: x_ops_def cli_ops_def)
  then show ?thesis by (simp add: cli_output_world cli_exec_def exec_call_def call_of_def)
qed

lemma find_container_daemon:
  assumes d: "daemon x st" and f: "find_container (x_ops x) (container_name (x_spec x)) m = (r, m')"
  shows "w_calls m' = w_calls m @ [call_of x (inspect_args (container_name (x_spec x))) []]
    \<and> st (w_calls m') = st (w_calls m)
    \<and> (\<exists>i. r = Inr i \<and> st (w_calls m) = map_option (\<lambda>i. (running i, label_of i label_config_hash)) i)"
proof -
  let ?n = "container_name (x_spec x)"
  let ?rs = "x_proc x (w_calls m) (call_of x (inspect_args ?n) [])"
  note sh = daemonD(1) [OF d, of "w_calls m"]
  note calls = find_container_call [OF f]
  moreover have "\<exists>i. r = Inr i \<and> st (w_calls m) = map_option (\<lambda>i. (running i, label_of i label_config_hash)) i"
  proof (cases "st (w_calls m)")
    case None
    then obtain e where e: "rs_fail ?rs = Some e" "trim_space (rs_err ?rs) \<noteq> []"
      "\<And>t. is_no_such_object (RunnerFailed (t @ trim_space (rs_err ?rs)))"
      using sh by (auto simp: displays_def intro: no_such_object_prefix)
    show ?thesis
      using f None e(1,2) e(3) [of "(cli_name (x_cli x) @ '' '' @ join '' '' (inspect_args ?n) @ '': '' @ e) @ '': ''"]
      by (simp add: find_container_def x_ops_def cli_ops_def cli_inspect_def cli_output_def cli_exec_def exec_call_def
          call_of_def Let_def)
  next
    case (Some s)
    then show ?thesis using f sh
      by (auto simp: displays_def find_container_def x_ops_def cli_ops_def cli_inspect_def cli_output_def cli_exec_def
          exec_call_def call_of_def Let_def split: option.splits)
  qed
  ultimately show ?thesis using calls daemonD(2) [OF d] by simp
qed

lemma label_values_append: "label_values key (b # bs) = vs \<Longrightarrow> \<exists>us. label_values key (as @ b # bs) = us @ vs"
proof (induction as)
  case (Cons a as)
  then obtain us where "label_values key (as @ b # bs) = us @ vs" by blast
  then show ?case by (cases as) (auto intro: exI [of _ "us"])
qed simp

lemma run_args_label:
  assumes "run_args js s opts pl = Inr args"
  shows "config_hash js s \<in> set (label_values label_config_hash args)"
    and "\<exists>as. args = [''run'', ''--detach'', ''--name'', container_name s] @ as"
proof -
  obtain img where img: "s_image s = Some img" using assms by (auto simp: run_args_def split: option.splits)
  let ?l = "label_config_hash @ ''='' @ config_hash js s"
  have "labels js s = butlast (labels js s) @ [(label_config_hash, config_hash js s)]" by (simp add: labels_def)
  then have "map (\<lambda>(k, v). k @ ''='' @ v) (labels js s)
      = map (\<lambda>(k, v). k @ ''='' @ v) (butlast (labels js s)) @ [?l]" by (metis (no_types, lifting) case_prod_conv list.map map_append)
  then obtain bs where bs: "label_args (labels js s) = bs @ [''--label'', ?l]"
    by (simp add: label_args_labels value_flags_def del: map_map)
  have "\<exists>cs. args = [''run'', ''--detach'', ''--name'', container_name s] @ label_args (labels js s) @ cs"
    using assms img by (simp add: run_args_def) blast
  then obtain cs where args: "args = ([''run'', ''--detach'', ''--name'', container_name s] @ bs) @ ''--label'' # ?l # cs"
    unfolding bs by auto
  have "label_values label_config_hash (''--label'' # ?l # cs) = config_hash js s # label_values label_config_hash (?l # cs)"
    by simp
  from label_values_append [OF this, of "[''run'', ''--detach'', ''--name'', container_name s] @ bs"] args
  show "config_hash js s \<in> set (label_values label_config_hash args)" by auto
  show "\<exists>as. args = [''run'', ''--detach'', ''--name'', container_name s] @ as" using args by simp
qed

lemma create_fresh_daemon:
  assumes d: "daemon x st" and run: "create_fresh x m = (None, m')"
    and label: "\<And>args. run_args (x_json x) (x_spec x) (x_create x) (x_platform x) = Inr args \<Longrightarrow>
      length (label_values label_config_hash args) = 1"
  shows "st (w_calls m') = Some (True, config_hash (x_json x) (x_spec x))"
proof -
  obtain m1 out where c: "create_container (x_json x) (x_ops x) (x_spec x) (x_create x) (x_platform x) m1 = (Inr out, m')"
    using run by (auto simp: create_fresh_def split: prod.splits option.splits sum.splits if_splits)
  then obtain args out' where args: "run_args (x_json x) (x_spec x) (x_create x) (x_platform x) = Inr args"
    and o': "ro_output (x_ops x) args m1 = ((out', None), m')"
    by (auto simp: create_container_def split: sum.splits prod.splits option.splits)
  from label [OF args] run_args_label(1) [OF args]
  have "label_values label_config_hash args = [config_hash (x_json x) (x_spec x)]"
    by (cases "label_values label_config_hash args") auto
  moreover obtain as where "args = [''run'', ''--detach'', ''--name'', container_name (x_spec x)] @ as"
    using run_args_label(2) [OF args] by blast
  ultimately show ?thesis using daemonD(6) [OF d, of "w_calls m1" as] output_call [OF o'] by simp
qed

lemma perform_daemon:
  assumes d: "daemon x st" and run: "perform x (container_name (x_spec x)) existing (up_action x existing fresh) m = (None, m')"
    and label: "\<And>args. run_args (x_json x) (x_spec x) (x_create x) (x_platform x) = Inr args \<Longrightarrow>
      length (label_values label_config_hash args) = 1"
    and st: "st (w_calls m) = map_option (\<lambda>i. (running i, label_of i label_config_hash)) existing"
  shows "st (w_calls m') = abs_up fresh (config_hash (x_json x) (x_spec x)) (st (w_calls m))"
proof (cases existing)
  case None
  then have "create_fresh x m = (None, m')" using run by (auto simp: up_action_def decide_def)
  from create_fresh_daemon [OF d this label] show ?thesis using None st by simp
next
  case (Some i)
  have start: "st (w_calls m') = Some (True, label_of i label_config_hash)"
    if "start_container (x_ops x) (container_name (x_spec x)) m = (None, m')"
    using verb_call [OF that [unfolded start_container_def]] daemonD(3) [OF d] st Some by simp
  show ?thesis
  proof (cases fresh)
    case True
    then obtain m1 where "create_fresh x m1 = (None, m')"
      using run Some by (auto simp: up_action_def split: prod.splits option.splits)
    from create_fresh_daemon [OF d this label] show ?thesis using Some st True by simp
  next
    case False
    then show ?thesis
      using run Some st start by (auto simp: up_action_def decide_def split: if_splits)
  qed
qed

lemma perform_keeps_calls:
  assumes "perform x name (Some i) (up_action x (Some i) False) m = (r, m')"
  shows "w_calls m' = w_calls m \<or> w_calls m' = w_calls m @ [call_of x [''start'', name] []] \<and> \<not> running i"
  using assms verb_call [of "[''start'']" x name m]
  by (auto simp: up_action_def decide_def start_container_def split: if_splits)


section \<open>A sample runtime\<close>

lemma to_lower_append:
  "s = c # s' \<Longrightarrow> byte c < 128 \<Longrightarrow> to_lower (t @ s) = to_lower t @ to_lower s"
proof (induction t rule: to_lower.induct)
  case (2 a b)
  have "c \<noteq> CHR 0xAA" using 2(2) by auto
  with 2 show ?case by (cases s') auto
next
  case (3 a)
  have "c \<noteq> CHR 0x84" "c \<noteq> CHR 0xB0" using 3(2) by auto
  with 3 show ?case by (cases s'; cases "tl s'") auto
qed auto

lemma recognised: "says_no_such_object (t @ ''no such object'')"
proof -
  have "to_lower (t @ ''no such object'') = to_lower t @ to_lower ''no such object''"
    by (rule to_lower_append [OF refl]) code_simp
  moreover have "to_lower ''no such object'' = ''no such object''" by code_simp
  ultimately show ?thesis by (auto simp: says_no_such_object_def contains_iff_sublist sublist_def Let_def)
qed

definition demo_name :: string where
  "demo_name = container_name demo_up_spec"

definition demo_step :: "container \<Rightarrow> call \<Rightarrow> container" where
  "demo_step s c =
     (if c_args c = [''start'', demo_name] then map_option (\<lambda>(_, h). (True, h)) s
      else if c_args c = [''rm'', ''--force'', demo_name] then None
      else if take 4 (c_args c) = [''run'', ''--detach'', ''--name'', demo_name]
        then (case label_values label_config_hash (c_args c) of [h] \<Rightarrow> Some (True, h) | _ \<Rightarrow> s)
      else s)"

definition demo_status :: "call list \<Rightarrow> container" where
  "demo_status cs = foldl demo_step (Some (False, ''old'')) cs"

definition runtime_proc :: proc where
  "runtime_proc cs c =
     (if c_args c \<noteq> inspect_args demo_name then \<lparr>rs_out = [], rs_err = [], rs_fail = None\<rparr>
      else (case demo_status cs of
              None \<Rightarrow> \<lparr>rs_out = [], rs_err = ''no such object'', rs_fail = Some ''exit status 1''\<rparr>
            | Some (r, h) \<Rightarrow> \<lparr>rs_out = (if r then ''r'' else ''s'') @ h @ ''.'', rs_err = [], rs_fail = None\<rparr>))"

definition runtime_ctx :: ctx where
  "runtime_ctx = (demo_ctx runtime_proc)\<lparr>x_decode := (\<lambda>s. case s of [] \<Rightarrow> None
     | c # t \<Rightarrow> Some \<lparr>in_id = ''1'', in_name = [], in_status = [], in_running = (c = CHR ''r''),
                     in_labels = [(label_config_hash, butlast t)], in_image = []\<rparr>)\<rparr>"

lemma runtime_displays: "displays runtime_ctx (demo_status cs) (runtime_proc cs (call_of runtime_ctx (inspect_args demo_name) []))"
proof -
  have c: "c_args (call_of runtime_ctx (inspect_args demo_name) []) = inspect_args demo_name"
    by (simp add: call_of_def runtime_ctx_def demo_ctx_def demo_cli_def cli_argv_def)
  have t: "trim_space (k # h @ ''.'') = k # h @ ''.''" if "k \<in> {CHR ''r'', CHR ''s''}" for k h
    using that by (intro trim_space_printable) auto
  have n: "trim_space ''no such object'' = ''no such object''" by code_simp
  show ?thesis
  proof (cases "demo_status cs")
    case None
    then show ?thesis using recognised n by (simp add: displays_def runtime_proc_def c)
  next
    case (Some s)
    obtain r h where s: "s = (r, h)" by fastforce
    have d: "x_decode runtime_ctx (k # h @ ''.'') = Some \<lparr>in_id = ''1'', in_name = [], in_status = [],
        in_running = (k = CHR ''r''), in_labels = [(label_config_hash, h)], in_image = []\<rparr>" for k
      by (simp add: runtime_ctx_def butlast_append)
    from s Some t [of "if r then CHR ''r'' else CHR ''s''" h] show ?thesis
      by (cases r) (auto simp: displays_def runtime_proc_def c d running_def label_of_def map_get_def)
  qed
qed

lemma runtime_daemon: "daemon runtime_ctx demo_status"
proof -
  have name: "container_name (x_spec runtime_ctx) = demo_name" and p: "x_proc runtime_ctx = runtime_proc"
    by (simp_all add: runtime_ctx_def demo_ctx_def demo_name_def)
  have args: "c_args (call_of runtime_ctx as stdin) = as" for as stdin
    by (simp add: call_of_def runtime_ctx_def demo_ctx_def demo_cli_def cli_argv_def)
  have snoc: "demo_status (cs @ [c]) = demo_step (demo_status cs) c" for cs c by (simp add: demo_status_def)
  show ?thesis
    unfolding daemon_def Let_def name p using runtime_displays
    by (auto simp: snoc demo_step_def args inspect_args_def)
qed

lemma demo_label:
  assumes "run_args (x_json runtime_ctx) (x_spec runtime_ctx) (x_create runtime_ctx) (x_platform runtime_ctx) = Inr args"
  shows "length (label_values label_config_hash args) = 1"
proof -
  have env: "sorted_keys [(''B'', ''2''), (''A'', ''1'')] = [''A'', ''B'']"
    "publish_spec \<lparr>host_ip = [], host_port = 80, container_port = 80\<rparr> = ''80:80''" by code_simp+
  have "label_values label_config_hash args = [config_hash (\<lambda>_. []) demo_up_spec]"
    using assms env
    by (auto simp: switch_def map_get_def keep_alive_entrypoint_def keep_alive_args_def run_args_def container_name_def runtime_ctx_def demo_ctx_def demo_up_spec_def demo_spec_def demo_image_def label_args_def
        labels_def label_id_def label_name_def label_local_def label_config_def label_config_hash_def opt_flag_def
        workspace_mount_args_def value_flags_def pair_flags_def sorted_pairs_def)
  then show ?thesis by simp
qed


end
