(* ===== verification/Setup.thy ===== *)
theory Setup
  imports Listing
begin

text \<open>
  From the arguments of a command to the context it runs in (\<open>cmd/devc/common.go\<close>): the flags shared by the
  commands, their values, and \<open>setup\<close>, which chooses the runtime, finds the workspace, loads its
  configuration and applies the overrides. The variables of the flag sets are named after the flags; \<open>--name\<close> and \<open>-n\<close> share
  one.
\<close>

section \<open>The shared flags\<close>

definition common_flag_set :: flag_set where
  "common_flag_set =
     [flag_string ''path'' ''.'' ''project directory or path to a devcontainer.json'',
      flag_string ''name'' [] ''target a workspace by its `devc list` name instead of --path'',
      (flag_string ''n'' [] ''shorthand for --name'')\<lparr>fl_var := ''name''\<rparr>,
      flag_string ''config'' [] ''explicit devcontainer.json to use'',
      flag_string ''runtime'' [] ''container runtime: podman or docker (default: autodetect)'',
      flag_string ''compose-cmd'' [] (''compose command, e.g. '' @ [DQ] @ ''podman compose'' @ [DQ] @ '' (default: autodetect)''),
      flag_string ''platform'' [] ''target platform for build/run, e.g. linux/amd64'',
      flag_string ''userns'' [] ''value for --userns (default: keep-id under rootless podman)'',
      flag_string ''selinux'' ''auto'' ''SELinux relabel of the workspace mount: auto|z|Z|none'',
      flag_bool ''q'' ''suppress warnings'',
      \<lparr>fl_name = ''forward-agent'', fl_kind = OptionalBoolFlag, fl_var = ''forward-agent'', fl_default = [],
        fl_usage = ''override credentials.forwardAgent (ssh-agent forwarding)''\<rparr>,
      \<lparr>fl_name = ''sync-git-config'', fl_kind = OptionalBoolFlag, fl_var = ''sync-git-config'', fl_default = [],
        fl_usage = ''override credentials.syncGitConfig''\<rparr>]"

text \<open>\<open>commonFlags\<close>.\<close>

record common_flags =
  cf_path :: string
  cf_name :: string
  cf_config :: string
  cf_runtime :: string
  cf_compose_cmd :: string
  cf_platform :: string
  cf_userns :: string
  cf_selinux :: string
  cf_quiet :: bool
  cf_forward_agent :: optional_bool
  cf_sync_git_config :: optional_bool

definition common_flags :: "flag_vars \<Rightarrow> common_flags" where
  "common_flags v =
     \<lparr>cf_path = map_get v ''path'', cf_name = map_get v ''name'', cf_config = map_get v ''config'',
      cf_runtime = map_get v ''runtime'', cf_compose_cmd = map_get v ''compose-cmd'',
      cf_platform = map_get v ''platform'', cf_userns = map_get v ''userns'', cf_selinux = map_get v ''selinux'',
      cf_quiet = flag_on v ''q'', cf_forward_agent = parse_bool (map_get v ''forward-agent''),
      cf_sync_git_config = parse_bool (map_get v ''sync-git-config'')\<rparr>"

section \<open>Setup\<close>

definition locate_workspace :: "system \<Rightarrow> common_flags \<Rightarrow> cli \<Rightarrow> session \<Rightarrow> (cmd_error + string) \<times> session" where
  "locate_workspace sys c rt m =
     (if cf_name c = [] then (Inr (cf_path c), m)
      else if cf_config c \<noteq> [] then (Inl ConfigWithName, m)
      else workspace_folder_by_name (x_decode sys) (cli_ops (x_decode sys) (x_proc sys) rt) (cf_name c) m)"

definition context_of :: "system \<Rightarrow> common_flags \<Rightarrow> cli \<Rightarrow> spec \<Rightarrow> string \<Rightarrow> ctx" where
  "context_of sys c rt s label =
     \<lparr>x_host = x_host sys, x_files = x_files sys, x_proc = x_proc sys, x_decode = x_decode sys, x_json = x_json sys,
      x_self = x_self sys, x_version = x_version sys, x_arch = x_arch sys, x_uid = x_uid sys, x_sched = x_sched sys,
      x_clock = x_clock sys, x_gen = x_gen sys, x_canon = x_canon sys, x_tty = x_tty sys,
      x_spec = apply_overrides (cf_forward_agent c) (cf_sync_git_config c) s, x_cli = rt,
      x_compose_cmd = cf_compose_cmd c, x_platform = cf_platform c, x_quiet = cf_quiet c,
      x_create = \<lparr>co_userns = cf_userns c, co_selinux_label = label\<rparr>\<rparr>"

text \<open>The context and the warnings of the configuration.\<close>

definition set_up :: "system \<Rightarrow> common_flags \<Rightarrow> session \<Rightarrow> (cmd_error + ctx \<times> string list) \<times> session" where
  "set_up sys c m =
     (case detect (x_host sys) (cf_runtime c) of
        Inl e \<Rightarrow> (Inl (Detection e), m)
      | Inr rt \<Rightarrow>
          (case locate_workspace sys c rt m of
             (Inl e, m1) \<Rightarrow> (Inl e, m1)
           | (Inr path, m1) \<Rightarrow>
               (case load_spec (x_files sys) path (cf_config c) of
                  Inl e \<Rightarrow> (Inl (Loading e), m1)
                | Inr (s, warns) \<Rightarrow>
                    (case resolve_selinux sys (cf_selinux c) m1 of
                       (label, m2) \<Rightarrow> (Inr (context_of sys c rt s label, warns), m2)))))"

text \<open>\<open>loadSpecOnly\<close>: the path and the file, never the name.\<close>

definition load_spec_only :: "system \<Rightarrow> common_flags \<Rightarrow> load_error + spec \<times> string list" where
  "load_spec_only sys c = load_spec (x_files sys) (cf_path c) (cf_config c)"

section \<open>What setup delivers\<close>

lemma apply_overrides_simps [simp]:
  "wf_spec (apply_overrides fa sg s) \<longleftrightarrow> wf_spec s"
  "s_local_folder (apply_overrides fa sg s) = s_local_folder s"
  "forward_agent (s_credentials (apply_overrides fa sg s)) =
     (case fa of None \<Rightarrow> forward_agent (s_credentials s) | Some b \<Rightarrow> b)"
  "sync_git_config (s_credentials (apply_overrides fa sg s)) =
     (case sg of None \<Rightarrow> sync_git_config (s_credentials s) | Some b \<Rightarrow> b)"
  by (simp_all add: apply_overrides_def wf_spec_def Let_def split: option.splits)

lemma resolve_selinux_only [only_calls]: "resolve_selinux sys flag m = (r, m') \<Longrightarrow> only_calls m m'"
  by (auto simp: resolve_selinux_def selinux_enabled_def split: if_splits option.splits prod.splits
      dest: exec_call_only)

section \<open>Commands that leave the host as it is\<close>

text \<open>
  Processes may have been run, and the compose implementation found and cached; the files, the state
  directories and everything else of the machine is what it was.
\<close>

definition host_kept :: "session \<Rightarrow> session \<Rightarrow> bool" where
  "host_kept m m' \<longleftrightarrow>
     (\<exists>cs ca c. m' = m\<lparr>w_calls := w_calls m @ cs, ss_cache := ca, ss_compose := c\<rparr>)"

named_theorems host_kept "operations that leave the host as it is"

lemma host_kept_refl [simp]: "host_kept m m"
  unfolding host_kept_def by (intro exI [of _ "[]"] exI [of _ "ss_cache m"] exI [of _ "ss_compose m"]) simp

lemma host_kept_trans: "host_kept m m1 \<Longrightarrow> host_kept m1 m2 \<Longrightarrow> host_kept m m2"
  by (auto simp: host_kept_def) metis

lemma only_calls_kept: "only_calls m m' \<Longrightarrow> host_kept m m'"
  unfolding only_calls_def host_kept_def
  by (elim exE) (rule exI, rule exI [of _ "ss_cache m"], rule exI [of _ "ss_compose m"], simp)

lemma host_kept_machine: "host_kept m m' \<Longrightarrow> m_files m' = m_files m \<and> m_dirs m' = m_dirs m \<and> m_ids m' = m_ids m
    \<and> m_locked m' = m_locked m \<and> ss_env m' = ss_env m"
  by (auto simp: host_kept_def)

section \<open>Looking\<close>

lemma ps_by_label_only [only_calls]: "ps_by_label (cli_ops d p c) l m = (r, m') \<Longrightarrow> only_calls m m'"
  by (auto simp: ps_by_label_def split: prod.splits option.splits dest: cli_output_only)

lemma inspect_all_only [only_calls]: "inspect_all d (cli_ops d p c) ids m = (r, m') \<Longrightarrow> only_calls m m'"
  by (auto simp: inspect_all_def simp del: append.simps split: prod.splits option.splits if_splits dest: cli_output_only)

lemma list_workspaces_raw_only [only_calls]: "list_workspaces_raw d (cli_ops d p c) m = (r, m') \<Longrightarrow> only_calls m m'"
  by (auto simp: list_workspaces_raw_def split: prod.splits sum.splits
      dest!: ps_by_label_only inspect_all_only intro: only_calls_trans)

lemma list_workspaces_only [only_calls]: "list_workspaces d (cli_ops d p c) m = (r, m') \<Longrightarrow> only_calls m m'"
  by (auto simp: list_workspaces_def split: prod.splits sum.splits dest: list_workspaces_raw_only)

lemma list_compose_project_only [only_calls]:
  "list_compose_project d (cli_ops d p c) project m = (r, m') \<Longrightarrow> only_calls m m'"
  by (auto simp: list_compose_project_def list_by_label_def split: prod.splits sum.splits
      dest!: ps_by_label_only inspect_all_only intro: only_calls_trans)

lemma find_compose_service_only [only_calls]:
  "find_compose_service (cli_ops d p c) project service m = (r, m') \<Longrightarrow> only_calls m m'"
  by (auto simp: find_compose_service_def split: prod.splits option.splits list.splits
      dest!: cli_output_only find_container_only intro: only_calls_trans)

lemma locate_workspace_only [only_calls]: "locate_workspace sys c rt m = (r, m') \<Longrightarrow> only_calls m m'"
  by (auto simp: locate_workspace_def workspace_folder_by_name_def split: if_splits prod.splits sum.splits
      dest: list_workspaces_only)

lemma attach_ref_only [only_calls]: "attach_ref x m = (r, m') \<Longrightarrow> only_calls m m'"
  by (auto simp: attach_ref_def service_container_def x_ops_def Let_def split: if_splits prod.splits sum.splits option.splits
      dest: find_compose_service_only find_container_only)

lemma service_ref_only [only_calls]: "service_ref x service m = (r, m') \<Longrightarrow> only_calls m m'"
  by (auto simp: service_ref_def service_container_def x_ops_def split: if_splits prod.splits sum.splits option.splits
      dest: find_compose_service_only attach_ref_only)

lemma set_up_only [only_calls]: "set_up sys c m = (r, m') \<Longrightarrow> only_calls m m'"
  by (auto simp: set_up_def split: prod.splits sum.splits
      dest!: locate_workspace_only resolve_selinux_only intro: only_calls_trans)

lemma probe_candidates_only [only_calls]: "probe_candidates h p cs tried m = (r, m') \<Longrightarrow> only_calls m m'"
proof (induction cs arbitrary: tried m)
  case (Cons k cs)
  obtain bin args label where k: "k = (bin, args, label)" by (cases k)
  show ?case
  proof (cases "ho_look h bin")
    case None
    with Cons k show ?thesis by auto
  next
    case (Some path)
    obtain ok m1 where ok: "probe_compose p \<lparr>cp_cli = \<lparr>cli_bin = path, cli_base = args\<rparr>, cp_label = label\<rparr> m = (ok, m1)"
      by fastforce
    then have "only_calls m m1"
      using cli_output_only [of undefined p "\<lparr>cli_bin = path, cli_base = args\<rparr>" "[''version'']" m]
      by (auto simp: probe_compose_def cli_ops_def split: prod.splits)
    with Cons k Some ok show ?thesis by (auto simp: Let_def split: if_splits intro: only_calls_trans)
  qed
qed simp

lemma detect_compose_only: "detect_compose h p rt ov (m, ca) = (r, (m', ca')) \<Longrightarrow> only_calls m m'"
  by (auto simp: detect_compose_def Let_def split: if_splits list.splits option.splits prod.splits sum.splits
      dest: probe_candidates_only)

lemma host_kept_found: "only_calls m m' \<Longrightarrow> host_kept m (m'\<lparr>ss_cache := ca, ss_compose := c\<rparr>)"
  by (auto simp: host_kept_def only_calls_def)

lemma host_kept_cached: "only_calls m m' \<Longrightarrow> host_kept m (m'\<lparr>ss_cache := ca\<rparr>)"
  using host_kept_found [of m m' "ss_compose m'" ca] by simp

lemma compose_impl_kept [host_kept]: "compose_impl x m = (r, m') \<Longrightarrow> host_kept m m'"
  by (auto simp: compose_impl_def split: option.splits prod.splits sum.splits
      dest!: detect_compose_only intro: host_kept_found host_kept_cached)

lemma compose_run_only [only_calls]: "compose_run x c args m = (r, m') \<Longrightarrow> only_calls m m'"
  using cli_run_only [of undefined "x_proc x" "cp_cli c" args "[]" m]
  by (auto simp: compose_run_def cli_ops_def split: prod.splits)

lemma compose_verb_kept [host_kept]: "compose_verb x args m = (r, m') \<Longrightarrow> host_kept m m'"
  by (auto simp: compose_verb_def split: prod.splits sum.splits
      dest!: compose_impl_kept compose_run_only only_calls_kept intro: host_kept_trans)

lemma compose_service_names_only [only_calls]: "compose_service_names x c m = (r, m') \<Longrightarrow> only_calls m m'"
  using cli_output_only [of undefined "x_proc x" "cp_cli c" "compose_config_args (x_spec x) (project_of x)" m]
  by (auto simp: compose_service_names_def cli_ops_def split: prod.splits option.splits)

lemma declared_services_kept [host_kept]: "declared_services x m = (r, m') \<Longrightarrow> host_kept m m'"
  by (auto simp: declared_services_def split: prod.splits sum.splits
      dest!: compose_impl_kept compose_service_names_only only_calls_kept intro: host_kept_trans)

lemma ps_rows_kept [host_kept]: "ps_rows x services m = (r, m') \<Longrightarrow> host_kept m m'"
  by (auto simp: ps_rows_def service_rows_def x_ops_def Let_def split: if_splits prod.splits sum.splits
      dest!: declared_services_kept list_compose_project_only attach_ref_only only_calls_kept intro: host_kept_trans)

lemma status_only [only_calls]: "status x m = (r, m') \<Longrightarrow> only_calls m m'"
  by (auto simp: status_def split: prod.splits sum.splits dest: attach_ref_only)

section \<open>A sample\<close>

text \<open>A host with \<open>podman\<close>, on which one container records the folder of the sample configuration.\<close>

definition demo_proc_named :: proc where
  "demo_proc_named h c = \<lparr>rs_out = ''c1'' @ [LF], rs_err = [], rs_fail = None\<rparr>"

definition demo_system :: system where
  "demo_system = \<lparr>x_host = sample_host, x_files = sample_env, x_proc = demo_proc_named,
     x_decode = (\<lambda>_. Some \<lparr>in_id = ''c1'', in_name = ''devc-app'', in_status = ''running'', in_running = True,
       in_labels = [(label_id, ''app-1''), (label_name, ''app''), (label_local, ''/src/app'')], in_image = []\<rparr>),
     x_json = (\<lambda>_. []), x_self = Some ''/bin/devc'', x_version = ''1.0'', x_arch = ''amd64'', x_uid = 1000,
     x_sched = (\<lambda>ns. ns),
     x_clock = (\<lambda>_. \<lparr>cv_year = 2024, cv_month = 5, cv_day = 1, cv_hour = 12, cv_minute = 0, cv_second = 0\<rparr>),
     x_gen = (\<lambda>_. Some (''private'', ''public'')), x_canon = Some, x_tty = False\<rparr>"

definition demo_flags :: "string list \<Rightarrow> common_flags" where
  "demo_flags args = (case flag_parse common_flag_set (flag_defaults common_flag_set) args of (_, v, _) \<Rightarrow> common_flags v)"

section \<open>The context of a command\<close>

lemma load_spec_local_folder:
  assumes "load_spec e path override = Inr (s, ws)"
  obtains c where "discover e path override = Inr (c, s_local_folder s)"
proof -
  obtain l r where l: "load e path override = Inr l" "resolve (env_home e) (l\<lparr>l_raw := r\<rparr>) = Inr s"
    using load_spec_Inr [OF assms] by metis
  then have "s_local_folder s = l_local_folder l"
    by (auto simp: resolve_def resolve_source_def Let_def resolve_image_def resolve_compose_def
        split: sum.splits option.splits if_splits kind.splits)
  then show thesis using that load_Inr(1) [OF l(1)] by metis
qed

lemma discover_folder:
  assumes "discover e f [] = Inr (c, d)" and "is_abs f" and "env_stat e (clean f) = Some IsDir"
  shows "d = clean f"
  using assms by (auto simp: discover_def abs_path_def split: option.splits list.splits)

lemma demo_set_up:
  assumes "cf_name c \<in> {[], ''app''}" and "cf_config c = []" and "cf_path c = ''app''"
    and "cf_runtime c = []" and "cf_selinux c = ''auto''"
  shows "\<exists>x m'. set_up demo_system c demo_session = (Inr (x, []), m')"
proof -
  let ?cl = "\<lparr>cli_bin = ''/bin/podman'', cli_base = []\<rparr>"
  have "fst (workspace_folder_by_name (x_decode demo_system) (cli_ops (x_decode demo_system) (x_proc demo_system) ?cl)
      ''app'' demo_session) = Inr ''/src/app''"
    by code_simp
  then have "\<exists>m1. locate_workspace demo_system c ?cl demo_session = (Inr ''/src/app'', m1)" if "cf_name c = ''app''"
    using that assms(2) by (simp add: locate_workspace_def prod_eq_iff)
  moreover have "locate_workspace demo_system c ?cl demo_session = (Inr ''app'', demo_session)" if "cf_name c = []"
    using that assms(3) by (simp add: locate_workspace_def)
  ultimately obtain path m1 where loc: "locate_workspace demo_system c ?cl demo_session = (Inr path, m1)"
    and p: "path \<in> {''app'', ''/src/app''}"
    using assms(1) by blast
  obtain s where "load_spec sample_env path [] = Inr (s, [])" using sample_load_spec [OF p] by blast
  moreover have "detect (x_host demo_system) [] = Inr ?cl" "x_files demo_system = sample_env"
    by (simp_all add: detect_def demo_system_def sample_host_def)
  ultimately show ?thesis using loc assms(2,4) by (auto simp: set_up_def split: prod.splits)
qed

text \<open>
  C21: what every command starts from. When \<open>setup\<close> succeeds, the spec of the context is well formed, and
  the credentials the command line overrides have the value given there while the others stay as
  configured; nothing on the host has changed.
\<close>

theorem set_up_wf:
  assumes "set_up sys c m = (Inr (x, ws), m')" and "env_ok (x_files sys)"
  shows "wf_spec (x_spec x) \<and> sorted ws \<and> host_kept m m'
    \<and> (\<exists>path s. load_spec (x_files sys) path (cf_config c) = Inr (s, ws)
         \<and> x_spec x = s\<lparr>s_credentials := s_credentials (x_spec x)\<rparr>
         \<and> forward_agent (s_credentials (x_spec x)) =
             (case cf_forward_agent c of None \<Rightarrow> forward_agent (s_credentials s) | Some b \<Rightarrow> b)
         \<and> sync_git_config (s_credentials (x_spec x)) =
             (case cf_sync_git_config c of None \<Rightarrow> sync_git_config (s_credentials s) | Some b \<Rightarrow> b))"
proof -
  obtain rt path s label where l: "load_spec (x_files sys) path (cf_config c) = Inr (s, ws)"
    and x: "x = context_of sys c rt s label"
    using assms(1) by (auto simp: set_up_def split: prod.splits sum.splits)
  have spec: "x_spec x = apply_overrides (cf_forward_agent c) (cf_sync_git_config c) s"
    by (simp add: x context_of_def)
  moreover have "apply_overrides fa sg s = s\<lparr>s_credentials := s_credentials (apply_overrides fa sg s)\<rparr>" for fa sg
    by (simp add: apply_overrides_def Let_def)
  ultimately show ?thesis
    using l load_spec_wf [OF l assms(2)] only_calls_kept [OF set_up_only [OF assms(1)]] by auto
qed

lemma set_up_wf_witness:
  "\<exists>x m'. set_up demo_system (demo_flags [''--path=app'', ''--forward-agent'']) demo_session = (Inr (x, []), m')
     \<and> wf_spec (x_spec x) \<and> forward_agent (s_credentials (x_spec x))"
proof -
  let ?c = "demo_flags [''--path=app'', ''--forward-agent'']"
  have c: "cf_name ?c = []" "cf_config ?c = []" "cf_path ?c = ''app''" "cf_runtime ?c = []" "cf_selinux ?c = ''auto''"
    "cf_forward_agent ?c = Some True" by code_simp+
  then obtain x m' where s: "set_up demo_system ?c demo_session = (Inr (x, []), m')"
    using demo_set_up [of ?c] by auto
  moreover have "env_ok (x_files demo_system)" using sample_env_ok by (simp add: demo_system_def)
  ultimately show ?thesis using set_up_wf [OF s] c(6) by auto
qed



end
