(* ===== verification/Teardown.thy ===== *)
theory Teardown
  imports Up Setup
begin

text \<open>
  The other commands of \<open>cmd/devc/lifecycle.go\<close> (\<open>down\<close>, \<open>stop\<close>, \<open>restart\<close>, \<open>logs\<close>; \<open>status\<close> is in Listing) and
  \<open>devc exec\<close> (\<open>cmd/devc/exec.go\<close>), from the session \<open>setup\<close> made.
\<close>

section \<open>Stopping and removing\<close>

definition stop_workspace :: "ctx \<Rightarrow> string list \<Rightarrow> session \<Rightarrow> cmd_error option \<times> session" where
  "stop_workspace x services m =
     (if s_kind (x_spec x) = KindCompose
      then compose_verb x (compose_stop_args (x_spec x) (project_of x) services) m
      else
        let name = container_name (x_spec x) in
        (case find_container (x_ops x) name m of
           (Inl e, m1) \<Rightarrow> (Some (Query e), m1)
         | (Inr i, m1) \<Rightarrow> if is_running i then stop_container (x_ops x) name m1 else (None, m1)))"

definition stop :: "ctx \<Rightarrow> string list \<Rightarrow> session \<Rightarrow> cmd_error option \<times> session" where
  "stop x args m =
     (case compose_services x args of Inl e \<Rightarrow> (Some e, m) | Inr services \<Rightarrow> stop_workspace x services m)"

text \<open>The removal of \<open>runDown\<close>; whether the purge is reached is part of the result.\<close>

definition tear_down :: "ctx \<Rightarrow> bool \<Rightarrow> string list \<Rightarrow> session \<Rightarrow> (cmd_error option \<times> bool) \<times> session" where
  "tear_down x volumes services m =
     (if s_kind (x_spec x) = KindCompose then
        (if services \<noteq> [] then
           (case compose_verb x (compose_remove_args (x_spec x) (project_of x) services) m of
              (err, m1) \<Rightarrow> ((err, False), m1))
         else
           (case compose_verb x (compose_down_args (x_spec x) (project_of x) volumes) m of
              (err, m1) \<Rightarrow> ((err, err = None), m1)))
      else
        let name = container_name (x_spec x) in
        (case find_container (x_ops x) name m of
           (Inl e, m1) \<Rightarrow> ((Some (Query e), False), m1)
         | (Inr None, m1) \<Rightarrow> ((None, True), m1)
         | (Inr (Some _), m1) \<Rightarrow>
             (case remove_container (x_ops x) name m1 of (err, m2) \<Rightarrow> ((err, err = None), m2))))"

definition down :: "ctx \<Rightarrow> bool \<Rightarrow> bool \<Rightarrow> bool \<Rightarrow> string list \<Rightarrow> session \<Rightarrow> cmd_error option \<times> session" where
  "down x auto volumes purge args m =
     (case compose_services x args of
        Inl e \<Rightarrow> (Some e, m)
      | Inr services \<Rightarrow>
          if services \<noteq> [] \<and> volumes then (Some VolumesWithServices, m)
          else if services \<noteq> [] \<and> purge then (Some PurgeWithServices, m)
          else if auto then
            (if s_shutdown_action (x_spec x) = ShutdownNone then (None, m) else stop_workspace x services m)
          else
            (case tear_down x volumes services m of
               ((err, go_on), m1) \<Rightarrow>
                 (err, if go_on \<and> purge then forget_workspace x (s_id (x_spec x)) m1 else m1)))"

section \<open>Restarting and logs\<close>

definition restart :: "ctx \<Rightarrow> bool \<Rightarrow> string list \<Rightarrow> session \<Rightarrow> cmd_error option \<times> session" where
  "restart x everything args m =
     (case compose_services x args of
        Inl e \<Rightarrow> (Some e, m)
      | Inr services \<Rightarrow>
          if services \<noteq> [] \<and> everything then (Some AllWithServices, m)
          else if s_kind (x_spec x) = KindCompose then
            compose_verb x (compose_restart_args (x_spec x) (project_of x)
              (compose_targets services
                 (if everything then run_services (x_spec x) else [compose_service (x_spec x)]))) m
          else
            let name = container_name (x_spec x) in
            (case find_container (x_ops x) name m of
               (Inl e, m1) \<Rightarrow> (Some (Query e), m1)
             | (Inr None, m1) \<Rightarrow> (Some (NotCreated (s_name (x_spec x))), m1)
             | (Inr (Some _), m1) \<Rightarrow> restart_container (x_ops x) name m1))"

definition logs :: "ctx \<Rightarrow> bool \<Rightarrow> string list \<Rightarrow> session \<Rightarrow> cmd_error option \<times> session" where
  "logs x follow args m =
     (case compose_services x args of
        Inl e \<Rightarrow> (Some e, m)
      | Inr services \<Rightarrow>
          if s_kind (x_spec x) = KindCompose
          then compose_verb x (compose_logs_args (x_spec x) (project_of x) follow services) m
          else (case attach_ref x m of
                  (Inl e, m1) \<Rightarrow> (Some e, m1)
                | (Inr (_, None), m1) \<Rightarrow> (Some (NotCreated (s_name (x_spec x))), m1)
                | (Inr (ref, Some _), m1) \<Rightarrow>
                    (case ro_run (x_ops x) ([''logs''] @ switch ''--follow'' follow @ [ref]) [] m1 of
                       (err, m2) \<Rightarrow> (map_option Runtime err, m2))))"

section \<open>devc exec\<close>

text \<open>
  \<open>tty\<close> is whether standard input is a terminal. The error for a service that is not running names it;
  for a single container \<open>--service\<close> has failed before.
\<close>

definition exec_command :: "ctx \<Rightarrow> bool \<Rightarrow> bool \<Rightarrow> string \<Rightarrow> string list \<Rightarrow> session \<Rightarrow> cmd_error option \<times> session" where
  "exec_command x no_tty tty service argv m =
     (if argv = [] then (Some Usage, m)
      else (case service_ref x service m of
              (Inl e, m1) \<Rightarrow> (Some e, m1)
            | (Inr (ref, i), m1) \<Rightarrow>
                let s = x_spec x; other = (service \<noteq> [] \<and> service \<noteq> compose_service s) in
                if \<not> is_running i then (Some (NotRunning (if other then service else s_name s)), m1)
                else
                  (case ro_run (x_ops x)
                     (exec_args ref (if other then [] else s_remote_user s) (if other then [] else s_container_folder s)
                        (if other then [] else s_remote_env s) True (\<not> no_tty \<and> tty) argv) [] m1 of
                     (err, m2) \<Rightarrow> (map_option Runtime err, m2))))"

section \<open>What is asked of the runtime\<close>

definition compose_call :: "compose \<Rightarrow> string list \<Rightarrow> call" where
  "compose_call c args = \<lparr>c_bin = cli_bin (cp_cli c), c_args = cli_argv (cp_cli c) args, c_stdin = []\<rparr>"

lemma compose_verb_known:
  "ss_compose m = Some c \<Longrightarrow> compose_verb x args m = (r, m') \<Longrightarrow> w_calls m' = w_calls m @ [compose_call c args]"
  by (auto simp: compose_verb_def compose_impl_def compose_run_def cli_run_def cli_exec_def exec_call_def
      compose_call_def split: prod.splits)

lemma find_container_kept [host_kept]: "find_container (x_ops x) name m = (r, m') \<Longrightarrow> host_kept m m'"
  unfolding x_ops_def by (rule only_calls_kept) (rule find_container_only)

lemma verb_kept [host_kept]: "verb as (x_ops x) name m = (r, m') \<Longrightarrow> host_kept m m'"
  unfolding x_ops_def by (rule only_calls_kept) (rule verb_only)

lemma run_kept [host_kept]: "ro_run (x_ops x) as stdin m = (r, m') \<Longrightarrow> host_kept m m'"
  unfolding x_ops_def by (rule only_calls_kept) (rule cli_run_only)

lemma stop_workspace_kept [host_kept]: "stop_workspace x services m = (r, m') \<Longrightarrow> host_kept m m'"
  by (auto simp: stop_workspace_def stop_container_def Let_def split: if_splits prod.splits sum.splits
      dest!: host_kept intro: host_kept_trans)

lemma stop_kept [host_kept]: "stop x args m = (r, m') \<Longrightarrow> host_kept m m'"
  by (auto simp: stop_def split: sum.splits dest: stop_workspace_kept)

lemma restart_kept [host_kept]: "restart x everything args m = (r, m') \<Longrightarrow> host_kept m m'"
  by (auto simp: restart_def restart_container_def Let_def split: if_splits prod.splits sum.splits option.splits
      dest!: host_kept intro: host_kept_trans)

lemma logs_kept [host_kept]: "logs x follow args m = (r, m') \<Longrightarrow> host_kept m m'"
  by (auto simp: logs_def split: if_splits prod.splits sum.splits option.splits
      dest!: compose_verb_kept attach_ref_only only_calls_kept run_kept intro: host_kept_trans)

lemma exec_command_kept [host_kept]: "exec_command x no_tty tty service argv m = (r, m') \<Longrightarrow> host_kept m m'"
  by (auto simp: exec_command_def Let_def split: if_splits prod.splits sum.splits option.splits
      dest!: service_ref_only only_calls_kept run_kept intro: host_kept_trans)

lemma stop_single_calls:
  assumes "stop_workspace x services m = (r, m')" and "s_kind (x_spec x) \<noteq> KindCompose"
  shows "w_calls m' \<in> (\<lambda>cs. w_calls m @ map (\<lambda>args. call_of x args []) cs)
     ` {[inspect_args (container_name (x_spec x))],
        [inspect_args (container_name (x_spec x)), [''stop'', container_name (x_spec x)]]}"
  using assms find_container_call [of x "container_name (x_spec x)" m]
  by (auto simp: stop_workspace_def stop_container_def Let_def split: prod.splits sum.splits if_splits dest!: verb_call)

text \<open>
  C25: \<open>devc down --auto\<close>, what an editor runs when it disconnects, never destroys. It changes no file or
  state on the host, even with \<open>--purge\<close>; under \<open>shutdownAction none\<close> it does nothing at all; otherwise a
  single container is looked at and at most stopped, and a compose project is stopped by
  one call (once the implementation is known): no container or volume is removed.
\<close>

theorem down_auto_keeps:
  assumes "down x True volumes purge args m = (r, m')"
  shows "m_files m' = m_files m \<and> m_dirs m' = m_dirs m
    \<and> (s_shutdown_action (x_spec x) = ShutdownNone \<longrightarrow> m' = m)
    \<and> (s_kind (x_spec x) \<noteq> KindCompose \<longrightarrow>
         w_calls m' \<in> (\<lambda>cs. w_calls m @ map (\<lambda>as. call_of x as []) cs)
           ` {[], [inspect_args (container_name (x_spec x))],
              [inspect_args (container_name (x_spec x)), [''stop'', container_name (x_spec x)]]})
    \<and> (s_kind (x_spec x) = KindCompose \<and> ss_compose m = Some c \<longrightarrow>
         w_calls m' \<in> (\<lambda>cs. w_calls m @ map (compose_call c) cs)
           ` {[], [compose_stop_args (x_spec x) (project_of x) args]})"
proof -
  consider "m' = m" | "stop_workspace x args m = (r, m')" "s_shutdown_action (x_spec x) \<noteq> ShutdownNone"
    using assms by (auto simp: down_def compose_services_def split: if_splits)
  then show ?thesis
  proof cases
    case 2
    have "w_calls m' = w_calls m @ [compose_call c (compose_stop_args (x_spec x) (project_of x) args)]"
      if "s_kind (x_spec x) = KindCompose" "ss_compose m = Some c"
      using 2(1) that compose_verb_known [OF that(2)] by (auto simp: stop_workspace_def)
    with 2 host_kept_machine [OF stop_workspace_kept [OF 2(1)]] stop_single_calls [OF 2(1)] show ?thesis by auto
  qed auto
qed

lemma down_auto_keeps_witness:
  "let m' = snd (down (demo_ctx (demo_proc None)) True True True [] demo_session) in
   m_dirs m' = m_dirs demo_session \<and> set (w_calls m') \<subseteq> range (\<lambda>a. call_of (demo_ctx (demo_proc None)) a [])"
proof -
  obtain r m' where d: "down (demo_ctx (demo_proc None)) True True True [] demo_session = (r, m')" by fastforce
  have "s_kind (x_spec (demo_ctx (demo_proc None))) \<noteq> KindCompose" "w_calls demo_session = []"
    by (simp_all add: demo_ctx_def demo_up_spec_def demo_spec_def demo_session_def)
  with down_auto_keeps [OF d] d show ?thesis by auto
qed

text \<open>Without \<open>--auto\<close>, a purge happens only after a removal that succeeded (or had nothing to remove).\<close>

lemma tear_down_kept: "tear_down x volumes services m = (q, m') \<Longrightarrow> m_dirs m' = m_dirs m"
  by (auto simp: tear_down_def remove_container_def Let_def split: if_splits prod.splits sum.splits option.splits
      dest!: host_kept host_kept_machine)

lemma tear_down_reached: "tear_down x volumes services m = ((err, True), m') \<Longrightarrow> err = None"
  by (auto simp: tear_down_def Let_def split: if_splits prod.splits sum.splits option.splits)

lemma down_purges:
  assumes "down x False volumes purge args m = (r, m')" and "m_dirs m' \<noteq> m_dirs m"
  shows "purge \<and> r = None \<and> args = []"
proof -
  obtain err go m1 where t: "tear_down x volumes args m = ((err, go), m1)" by (metis prod.collapse)
  with tear_down_kept [OF t] tear_down_reached [of x volumes args m err m1] assms show ?thesis
    by (auto simp: down_def compose_services_def split: if_splits)
qed

end
