(* ===== verification/Doctor.thy ===== *)
theory Doctor
  imports Setup
begin

text \<open>
  \<open>devc doctor\<close> (\<open>cmd/devc/doctor.go\<close>): a list of checks, each with a status and a detail. The detail of a
  check that failed with an error is that error, of which \<open>print_checks\<close> is given the text.
\<close>

section \<open>Checks\<close>

datatype check_status = StatusOk | StatusWarn | StatusFail

text \<open>Statuses are ordered from good to bad.\<close>

fun severity :: "check_status \<Rightarrow> nat" where
  "severity StatusOk = 0"
| "severity StatusWarn = 1"
| "severity StatusFail = 2"

lemma severity_inject: "severity a = severity b \<longleftrightarrow> a = b"
  by (cases a; cases b) simp_all

instantiation check_status :: linorder
begin

definition less_eq_check_status :: "check_status \<Rightarrow> check_status \<Rightarrow> bool" where
  "less_eq_check_status a b \<longleftrightarrow> severity a \<le> severity b"

definition less_check_status :: "check_status \<Rightarrow> check_status \<Rightarrow> bool" where
  "less_check_status a b \<longleftrightarrow> severity a < severity b"

instance
  by standard (auto simp: less_eq_check_status_def less_check_status_def severity_inject)

end

fun status_text :: "check_status \<Rightarrow> string" where
  "status_text StatusOk = ''ok''"
| "status_text StatusWarn = ''warn''"
| "status_text StatusFail = ''fail''"

datatype detail = Detail string | DetailError cmd_error

record check =
  ck_name :: string
  ck_status :: check_status
  ck_detail :: detail

definition check_of :: "string \<Rightarrow> check_status \<Rightarrow> string \<Rightarrow> check" where
  "check_of name st text = \<lparr>ck_name = name, ck_status = st, ck_detail = Detail text\<rparr>"

definition worst :: "check list \<Rightarrow> check_status" where
  "worst cs = foldr (\<lambda>c st. max (ck_status c) st) cs StatusOk"

section \<open>Probes of the container\<close>

definition probe :: "ctx \<Rightarrow> string \<Rightarrow> string \<Rightarrow> session \<Rightarrow> string option \<times> session" where
  "probe x ref script m =
     (case ro_output (x_ops x)
        (exec_args ref (s_remote_user (x_spec x)) [] [] False False [''sh'', ''-c'', script]) m of
        ((_, Some _), m') \<Rightarrow> (None, m')
      | ((out, None), m') \<Rightarrow> (Some (trim_space out), m'))"

definition first_line :: "string \<Rightarrow> string" where
  "first_line s = (case cut s LF of (l, _, _) \<Rightarrow> l)"

text \<open>Go's division truncates towards zero.\<close>

definition go_div :: "int \<Rightarrow> int \<Rightarrow> int" where
  "go_div a b = sgn a * sgn b * (\<bar>a\<bar> div \<bar>b\<bar>)"

definition tool_check :: "string \<Rightarrow> string \<Rightarrow> string option \<Rightarrow> check list" where
  "tool_check name cmd r =
     (case r of
        Some out \<Rightarrow>
          if out \<noteq> [] then [check_of name StatusOk out]
          else [check_of name StatusFail (cmd @ '' not found (the editor server installer needs it)'')]
      | None \<Rightarrow> [check_of name StatusFail (cmd @ '' not found (the editor server installer needs it)'')])"

definition client_check :: "string option \<Rightarrow> check list" where
  "client_check r =
     (case r of
        Some (c # out) \<Rightarrow> [check_of ''http-client'' StatusOk (c # out)]
      | _ \<Rightarrow> [check_of ''http-client'' StatusFail
               ''neither curl nor wget found (needed to download the editor server)''])"

definition libc_check :: "string option \<Rightarrow> check list" where
  "libc_check r =
     (case r of
        None \<Rightarrow> []
      | Some out \<Rightarrow>
          if contains (to_lower out) ''musl''
          then [check_of ''libc'' StatusWarn
                  ''musl detected - the editor needs its musl server build; some extensions may not load'']
          else [check_of ''libc'' StatusOk (first_line out)])"

definition home_check :: "string option \<Rightarrow> check list" where
  "home_check r =
     (case r of
        Some (c # out) \<Rightarrow> [check_of ''home'' StatusOk ((c # out) @ '' (writable)'')]
      | _ \<Rightarrow> [check_of ''home'' StatusFail ''$HOME is missing or not writable for the session user''])"

definition disk_check :: "string option \<Rightarrow> check list" where
  "disk_check r =
     (case r of
        None \<Rightarrow> []
      | Some out \<Rightarrow>
          (case atoi (trim_space out) of
             None \<Rightarrow> []
           | Some kb \<Rightarrow>
               let text = itoa (go_div kb 1024) @ '' MB free in $HOME'' in
               if kb < 200 * 1024 then [check_of ''disk'' StatusWarn (text @ '' (the editor server is ~150 MB)'')]
               else [check_of ''disk'' StatusOk text]))"

definition agent_check :: "string \<Rightarrow> string option \<Rightarrow> check list" where
  "agent_check version r =
     (case r of
        Some (c # cs) \<Rightarrow>
          (let out = c # cs in
           if trim_space out = version then [check_of ''agent'' StatusOk (''version '' @ out)]
           else [check_of ''agent'' StatusWarn
                   (''version '' @ out @ '', expected '' @ version @ '' - run `devc up` to refresh'')])
      | _ \<Rightarrow> [check_of ''agent'' StatusFail ''not installed - run `devc up`''])"

text \<open>The scripts run in the container, in order, and what is made of their results.\<close>

definition container_probes :: "ctx \<Rightarrow> (string \<times> (string option \<Rightarrow> check list)) list" where
  "container_probes x =
     [(''command -v sh'', tool_check ''shell'' ''sh''),
      (''command -v tar'', tool_check ''tar'' ''tar''),
      (''command -v curl || command -v wget'', client_check),
      (''ldd --version 2>&1 | head -1'', libc_check),
      (''test -w '' @ [DQ] @ ''$HOME'' @ [DQ] @ '' && printf %s '' @ [DQ] @ ''$HOME'' @ [DQ], home_check),
      (''df -Pk '' @ [DQ] @ ''$HOME'' @ [DQ] @ '' 2>/dev/null | awk '' @ [SQ] @ ''NR==2{print $4}'' @ [SQ], disk_check),
      (agent_binary @ '' version 2>/dev/null'', agent_check (x_version x))]"

fun run_probes :: "ctx \<Rightarrow> string \<Rightarrow> (string \<times> (string option \<Rightarrow> check list)) list \<Rightarrow> session \<Rightarrow> check list \<times> session" where
  "run_probes x ref [] m = ([], m)"
| "run_probes x ref ((script, f) # ps) m =
     (case probe x ref script m of (r, m1) \<Rightarrow>
      (case run_probes x ref ps m1 of (cs, m2) \<Rightarrow> (f r @ cs, m2)))"

section \<open>The checks of devc doctor\<close>

definition runtime_check :: "ctx \<Rightarrow> session \<Rightarrow> check list \<times> session" where
  "runtime_check x m =
     (case runtime_version (x_ops x) m of
        (Inr v, m') \<Rightarrow> ([check_of ''runtime'' StatusOk v], m')
      | (Inl _, m') \<Rightarrow> ([check_of ''runtime'' StatusWarn (cli_name (x_cli x) @ '' (version unavailable)'')], m'))"

definition compose_check :: "ctx \<Rightarrow> session \<Rightarrow> check list \<times> session" where
  "compose_check x m =
     (if s_kind (x_spec x) = KindCompose then
        (case compose_impl x m of
           (Inr c, m') \<Rightarrow> ([check_of ''compose'' StatusOk (cp_label c)], m')
         | (Inl e, m') \<Rightarrow> ([\<lparr>ck_name = ''compose'', ck_status = StatusFail, ck_detail = DetailError e\<rparr>], m'))
      else ([], m))"

definition container_checks :: "ctx \<Rightarrow> session \<Rightarrow> check list \<times> session" where
  "container_checks x m =
     (case attach_ref x m of
        (Inl e, m1) \<Rightarrow> ([\<lparr>ck_name = ''container'', ck_status = StatusFail, ck_detail = DetailError e\<rparr>], m1)
      | (Inr (_, None), m1) \<Rightarrow> ([check_of ''container'' StatusFail ''not running - run `devc up`''], m1)
      | (Inr (ref, Some i), m1) \<Rightarrow>
          if \<not> running i then ([check_of ''container'' StatusFail ''not running - run `devc up`''], m1)
          else
            (case run_probes x ref (container_probes x) m1 of
               (cs, m2) \<Rightarrow> (check_of ''container'' StatusOk (''running ('' @ short (in_id i) @ '')'') # cs, m2)))"

definition run_checks :: "ctx \<Rightarrow> session \<Rightarrow> check list \<times> session" where
  "run_checks x m =
     (case runtime_check x m of (c1, m1) \<Rightarrow>
      (case compose_check x m1 of (c2, m2) \<Rightarrow>
       (case container_checks x m2 of (c3, m3) \<Rightarrow> (c1 @ c2 @ c3, m3))))"

text \<open>The error of \<open>runDoctor\<close>; with \<open>--json\<close> there is none.\<close>

definition doctor :: "ctx \<Rightarrow> bool \<Rightarrow> session \<Rightarrow> cmd_error option \<times> session" where
  "doctor x json m =
     (case run_checks x m of
        (cs, m') \<Rightarrow> (if \<not> json \<and> list_ex (\<lambda>c. ck_status c = StatusFail) cs then Some Problems else None, m'))"

text \<open>The marks are the UTF-8 of a check mark and a cross.\<close>

fun status_mark :: "check_status \<Rightarrow> string" where
  "status_mark StatusOk = [CHR 0xE2, CHR 0x9C, CHR 0x93]"
| "status_mark StatusWarn = ''!''"
| "status_mark StatusFail = [CHR 0xE2, CHR 0x9C, CHR 0x97]"

definition detail_text :: "(cmd_error \<Rightarrow> string) \<Rightarrow> detail \<Rightarrow> string" where
  "detail_text err d = (case d of Detail t \<Rightarrow> t | DetailError e \<Rightarrow> err e)"

definition print_checks :: "(cmd_error \<Rightarrow> string) \<Rightarrow> check list \<Rightarrow> string" where
  "print_checks err cs =
     (let w = column_width [] (map ck_name cs)
      in concat (map (\<lambda>c. status_mark (ck_status c) @ '' '' @ pad_right w (ck_name c) @ ''  ''
           @ detail_text err (ck_detail c) @ [LF]) cs))"

section \<open>The verdict\<close>

lemma worst_simps [simp]: "worst [] = StatusOk" "worst (c # cs) = max (ck_status c) (worst cs)"
  by (simp_all add: worst_def)

lemma status_top [simp]: "st \<le> StatusFail" "StatusFail \<le> st \<longleftrightarrow> st = StatusFail"
  by (cases st; simp add: less_eq_check_status_def)+

lemma max_status_fail [simp]: "max a b = StatusFail \<longleftrightarrow> a = StatusFail \<or> b = StatusFail"
  by (auto simp: max_def)

lemma worst_fail: "worst cs = StatusFail \<longleftrightarrow> (\<exists>c \<in> set cs. ck_status c = StatusFail)"
  by (induction cs) (auto simp: less_eq_check_status_def)

lemma worst_passes: "worst cs < StatusFail \<longleftrightarrow> (\<forall>c \<in> set cs. ck_status c \<noteq> StatusFail)"
  using worst_fail [of cs] by (auto simp: less_le)

lemma worst_ok: "worst cs = StatusOk \<Longrightarrow> c \<in> set cs \<Longrightarrow> ck_status c = StatusOk"
proof (induction cs)
  case (Cons d cs)
  have "max a b = StatusOk \<longleftrightarrow> a = StatusOk \<and> b = StatusOk" for a b
    by (cases a; cases b; simp add: max_def less_eq_check_status_def)
  with Cons show ?case by auto
qed simp

lemma probe_only [only_calls]: "probe x ref script m = (r, m') \<Longrightarrow> only_calls m m'"
  by (auto simp: probe_def x_ops_def split: prod.splits option.splits dest: cli_output_only)

lemma run_probes_only [only_calls]: "run_probes x ref ps m = (cs, m') \<Longrightarrow> only_calls m m'"
  by (induction x ref ps m arbitrary: cs rule: run_probes.induct)
    (fastforce split: prod.splits dest: probe_only intro: only_calls_trans)+

lemma run_probes_each:
  "run_probes x ref ps m = (cs, m') \<Longrightarrow> (script, f) \<in> set ps
     \<Longrightarrow> \<exists>r m1 m2. probe x ref script m1 = (r, m2) \<and> set (f r) \<subseteq> set cs"
  by (induction ps arbitrary: cs m) (fastforce split: prod.splits)+

lemma runtime_version_only: "runtime_version (x_ops x) m = (r, m') \<Longrightarrow> only_calls m m'"
  by (cases "ro_output (x_ops x) [''--version''] m")
    (auto simp: runtime_version_def x_ops_def split: option.splits if_splits dest!: cli_output_only)

lemma run_checks_kept [host_kept]: "run_checks x m = (cs, m') \<Longrightarrow> host_kept m m'"
proof -
  have "host_kept m m'" if "runtime_check x m = (cs, m')" for cs m m'
    using that by (auto simp: runtime_check_def split: prod.splits sum.splits dest: runtime_version_only only_calls_kept)
  moreover have "host_kept m m'" if "compose_check x m = (cs, m')" for cs m m'
    using that by (auto simp: compose_check_def split: if_splits prod.splits sum.splits dest: compose_impl_kept)
  moreover have "host_kept m m'" if "container_checks x m = (cs, m')" for cs m m'
    using that by (auto simp: container_checks_def split: if_splits prod.splits sum.splits option.splits
        dest!: attach_ref_only run_probes_only intro: only_calls_kept only_calls_trans)
  moreover assume "run_checks x m = (cs, m')"
  ultimately show ?thesis by (auto simp: run_checks_def split: prod.splits intro: host_kept_trans) (meson host_kept_trans)
qed

text \<open>The scripts without whose output the editor cannot connect.\<close>

definition required_scripts :: "string list" where
  "required_scripts =
     [''command -v sh'', ''command -v tar'', ''command -v curl || command -v wget'',
      ''test -w '' @ [DQ] @ ''$HOME'' @ [DQ] @ '' && printf %s '' @ [DQ] @ ''$HOME'' @ [DQ],
      agent_binary @ '' version 2>/dev/null'']"

definition needs_output :: "(string option \<Rightarrow> check list) \<Rightarrow> bool" where
  "needs_output f \<longleftrightarrow> (\<forall>r. (\<forall>c \<in> set (f r). ck_status c \<noteq> StatusFail) \<longrightarrow> (\<exists>out. r = Some out \<and> out \<noteq> []))"

lemma checks_need_output:
  "needs_output (tool_check name cmd)" "needs_output client_check" "needs_output home_check" "needs_output (agent_check v)"
  by (auto simp: needs_output_def tool_check_def client_check_def home_check_def agent_check_def check_of_def
      split: option.splits list.splits)

lemma required_probes:
  assumes "script \<in> set required_scripts"
  shows "\<exists>f. (script, f) \<in> set (container_probes x) \<and> needs_output f"
proof -
  have "list_all (\<lambda>s. s \<in> set (map fst (filter (\<lambda>(s, f). needs_output f) (container_probes x)))) required_scripts"
    by (simp add: required_scripts_def container_probes_def checks_need_output)
  then have "script \<in> fst ` {p \<in> set (container_probes x). needs_output (snd p)}"
    using assms by (auto simp: list_all_iff split_beta)
  then show ?thesis by force
qed

text \<open>
  C35: the verdict of \<open>devc doctor\<close> can be relied on. It changes nothing on the host; without \<open>--json\<close> it fails
  exactly when the worst check is a failure; and when no check failed, the workspace's container is running and
  every tool the editor needs answered there with some output. When all checks are good, the agent in the container
  is of the version of this program.
\<close>

theorem doctor_verdict:
  assumes "run_checks x m = (cs, m')"
  shows "host_kept m m'
    \<and> doctor x json m = (if \<not> json \<and> worst cs = StatusFail then Some Problems else None, m')
    \<and> (worst cs < StatusFail \<longrightarrow>
         (\<exists>ref i m1 m2. attach_ref x m1 = (Inr (ref, Some i), m2) \<and> running i
            \<and> (\<forall>script \<in> set required_scripts. \<exists>m3 m4 out. probe x ref script m3 = (Some out, m4) \<and> out \<noteq> [])))
    \<and> (worst cs = StatusOk \<longrightarrow>
         (\<exists>ref m3 m4 out. probe x ref (agent_binary @ '' version 2>/dev/null'') m3 = (Some out, m4)
            \<and> trim_space out = x_version x))"
proof -
  obtain c1 c2 c3 m1 m2 where c3: "container_checks x m2 = (c3, m')" and cs: "cs = c1 @ c2 @ c3"
    using assms by (auto simp: run_checks_def split: prod.splits)
  have found: "\<exists>ref i m3 ps. attach_ref x m2 = (Inr (ref, Some i), m3) \<and> running i
      \<and> run_probes x ref (container_probes x) m3 = (ps, m') \<and> set ps \<subseteq> set cs" if "worst cs < StatusFail"
    using c3 that unfolding worst_passes
    by (auto simp: container_checks_def cs check_of_def split: prod.splits sum.splits option.splits if_splits)
  have answered: "\<exists>m3 m4 out. probe x ref script m3 = (Some out, m4) \<and> out \<noteq> []"
    if ps: "run_probes x ref (container_probes x) m3 = (ps, m')" "set ps \<subseteq> set cs" "worst cs < StatusFail"
      and script: "script \<in> set required_scripts" for ref m3 ps script
  proof -
    obtain f where f: "(script, f) \<in> set (container_probes x)" "needs_output f" using required_probes [OF script] by blast
    obtain r m5 m6 where "probe x ref script m5 = (r, m6)" "set (f r) \<subseteq> set ps"
      using run_probes_each [OF ps(1) f(1)] by blast
    then show ?thesis using f(2) ps(2,3) unfolding worst_passes needs_output_def by blast
  qed
  have version: "\<exists>ref m3 m4 out. probe x ref (agent_binary @ '' version 2>/dev/null'') m3 = (Some out, m4)
      \<and> trim_space out = x_version x" if ok: "worst cs = StatusOk"
  proof -
    from ok have "worst cs < StatusFail" by (simp add: less_check_status_def)
    then obtain ref m3 ps where ps: "run_probes x ref (container_probes x) m3 = (ps, m')" "set ps \<subseteq> set cs"
      using found by blast
    have "(agent_binary @ '' version 2>/dev/null'', agent_check (x_version x)) \<in> set (container_probes x)"
      by (simp add: container_probes_def)
    then obtain r m5 m6 where r: "probe x ref (agent_binary @ '' version 2>/dev/null'') m5 = (r, m6)"
      and "set (agent_check (x_version x) r) \<subseteq> set cs"
      using run_probes_each [OF ps(1)] ps(2) by blast
    then have "\<forall>c \<in> set (agent_check (x_version x) r). ck_status c = StatusOk" using worst_ok [OF ok] by blast
    then have "\<exists>out. r = Some out \<and> trim_space out = x_version x"
      by (auto simp: agent_check_def check_of_def Let_def split: option.splits list.splits if_splits)
    with r show ?thesis by blast
  qed
  show ?thesis
    using run_checks_kept [OF assms] found answered version assms
    by (simp add: doctor_def worst_fail list_ex_iff) blast
qed

text \<open>A container in which everything answers.\<close>

definition healthy_ctx :: ctx where
  "healthy_ctx = (demo_ctx (\<lambda>h c. \<lparr>rs_out = ''1.0'' @ [LF], rs_err = [], rs_fail = None\<rparr>))\<lparr>x_decode :=
     (\<lambda>_. Some \<lparr>in_id = ''c1'', in_name = [], in_status = ''running'', in_running = True, in_labels = [], in_image = []\<rparr>)\<rparr>"

lemma doctor_verdict_witness:
  "fst (doctor healthy_ctx False demo_session) = None
   \<and> (\<exists>ref m3 m4 out. probe healthy_ctx ref (agent_binary @ '' version 2>/dev/null'') m3 = (Some out, m4)
       \<and> trim_space out = ''1.0'')"
proof -
  obtain cs m' where r: "run_checks healthy_ctx demo_session = (cs, m')" by fastforce
  have "worst (fst (run_checks healthy_ctx demo_session)) = StatusOk" by code_simp
  then have "worst cs = StatusOk" by (simp only: r fst_conv)
  moreover have "x_version healthy_ctx = ''1.0''" by code_simp
  ultimately show ?thesis using doctor_verdict [OF r, of False] by auto
qed

end
