(* ===== verification/Commands.thy ===== *)
theory Commands
  imports Teardown Doctor
begin

text \<open>
  The commands from their arguments on: the flag set each declares, and the \<open>run...\<close> functions of \<open>cmd/devc\<close>,
  which parse the arguments, run \<open>setup\<close> and then the part of the command modelled in Listing, Up, Teardown, Provision
  or Doctor. The result is the error, if any, and the session. Also the editor launch (\<open>code.go\<close>) and
  \<open>devc config\<close> (\<open>config.go\<close>).
\<close>

section \<open>Flag sets\<close>

text \<open>In the order of declaration.\<close>

definition json_flag :: "string \<Rightarrow> flag_decl" where
  "json_flag what = flag_bool ''json'' (''emit the '' @ what @ '' as JSON'')"

definition up_flag_set :: "host \<Rightarrow> flag_set" where
  "up_flag_set h = common_flag_set @
     [flag_bool ''recreate'' ''remove and recreate the container even if it exists'',
      flag_bool ''rebuild'' ''rebuild the image and recreate the container (implies --recreate)'',
      flag_bool ''code'' ''open the workspace in VSCodium/VS Code once it is up'',
      flag_string ''editor'' (ho_env h ''DEVC_EDITOR'') ''editor launcher for --code (default: codium, else code)'',
      flag_bool ''skip-hooks'' ''do not run lifecycle hooks'',
      flag_bool ''rerun-hooks'' ''re-run create hooks even if already run for this container'']"

definition down_flag_set :: flag_set where
  "down_flag_set = common_flag_set @
     [flag_bool ''volumes'' ''also remove named volumes (compose: down --volumes)'',
      flag_bool ''purge'' (''also delete the workspace'' @ [SQ] @ ''s host-side state (keys, hooks)''),
      flag_bool ''auto'' (''honor the config'' @ [SQ] @ ''s shutdownAction (no-op when it is '' @ [SQ] @ ''none'' @ [SQ] @ '')'')]"

definition restart_flag_set :: flag_set where
  "restart_flag_set = common_flag_set @
     [flag_bool ''all'' (''compose: restart all of the workspace'' @ [SQ] @ ''s services, not just the main one'')]"

definition status_flag_set :: flag_set where
  "status_flag_set = common_flag_set @ [json_flag ''status'']"

definition ps_flag_set :: flag_set where
  "ps_flag_set = common_flag_set @ [json_flag ''rows'']"

definition list_flag_set :: flag_set where
  "list_flag_set =
     [flag_string ''runtime'' [] ''container runtime: podman or docker (default: autodetect)'', json_flag ''list'']"

definition logs_flag_set :: flag_set where
  "logs_flag_set = common_flag_set @ [flag_bool ''follow'' ''stream new log output'']"

definition exec_flag_set :: flag_set where
  "exec_flag_set = common_flag_set @
     [flag_bool ''T'' ''disable TTY allocation even when stdin is a terminal'',
      flag_string ''service'' [] (''compose: run in this service'' @ [SQ] @ ''s container instead of the workspace'' @ [SQ] @ ''s'')]"

definition ssh_flag_set :: flag_set where
  "ssh_flag_set = common_flag_set @
     [flag_bool ''stdio'' ''ProxyCommand mode: bridge stdin/stdout to the agent'',
      flag_bool ''start'' ''ensure the workspace is up before connecting'']"

definition code_flag_set :: "host \<Rightarrow> flag_set" where
  "code_flag_set h =
     flag_string ''editor'' (ho_env h ''DEVC_EDITOR'') ''editor launcher to use (default: codium, else code)'' # common_flag_set"

definition ssh_config_flag_set :: flag_set where
  "ssh_config_flag_set = common_flag_set @ [flag_bool ''print'' ''print the config instead of writing it'']"

definition keys_flag_set :: flag_set where
  "keys_flag_set = common_flag_set @ [flag_bool ''rotate'' ''generate fresh keys, discarding the old identity'']"

definition doctor_flag_set :: flag_set where
  "doctor_flag_set = json_flag ''checks'' # common_flag_set"

definition config_flag_set :: flag_set where
  "config_flag_set =
     [flag_string ''path'' ''.'' ''project directory or path to a devcontainer.json'',
      flag_string ''config'' [] ''explicit devcontainer.json to use (overrides --path discovery)'',
      flag_bool ''raw'' ''print the decoded Raw config after substitution instead of the resolved Spec'',
      flag_bool ''q'' ''suppress warnings on stderr'']"

section \<open>The editor\<close>

definition editor_candidates :: "string list" where
  "editor_candidates = [''codium'', ''code'', ''code-insiders'']"

fun first_found :: "host \<Rightarrow> string list \<Rightarrow> string option" where
  "first_found h [] = None"
| "first_found h (c # cs) = (case ho_look h c of Some bin \<Rightarrow> Some bin | None \<Rightarrow> first_found h cs)"

definition resolve_editor :: "host \<Rightarrow> string \<Rightarrow> cmd_error + string" where
  "resolve_editor h explicit =
     (if explicit \<noteq> [] then
        (case ho_look h explicit of None \<Rightarrow> Inl (EditorMissing explicit) | Some bin \<Rightarrow> Inr bin)
      else (case first_found h editor_candidates of None \<Rightarrow> Inl NoEditor | Some bin \<Rightarrow> Inr bin))"

definition folder_uri :: "spec \<Rightarrow> string" where
  "folder_uri s = ''vscode-remote://ssh-remote+'' @ ssh_alias s @ s_container_folder s"

definition launch_editor :: "ctx \<Rightarrow> string \<Rightarrow> session \<Rightarrow> cmd_error option \<times> session" where
  "launch_editor x editor m =
     (case resolve_editor (x_host x) editor of
        Inl e \<Rightarrow> (Some e, m)
      | Inr bin \<Rightarrow>
          (case exec_call (x_proc x) \<lparr>c_bin = bin, c_args = [''--folder-uri'', folder_uri (x_spec x)], c_stdin = []\<rparr> m of
             (r, m') \<Rightarrow> (if rs_fail r = None then None else Some EditorFailed, m')))"

section \<open>Running a command\<close>

definition with_context :: "system \<Rightarrow> flag_set \<Rightarrow> string list
    \<Rightarrow> (flag_vars \<Rightarrow> string list \<Rightarrow> ctx \<Rightarrow> session \<Rightarrow> cmd_error option \<times> session)
    \<Rightarrow> session \<Rightarrow> cmd_error option \<times> session" where
  "with_context sys fs args body m =
     (case parse_args fs args of
        Inl e \<Rightarrow> (Some (BadFlags e), m)
      | Inr (v, rest) \<Rightarrow>
          (case set_up sys (common_flags v) m of
             (Inl e, m1) \<Rightarrow> (Some e, m1)
           | (Inr (x, _), m1) \<Rightarrow> body v rest x m1))"

definition outcome :: "(cmd_error + 'a) \<times> session \<Rightarrow> cmd_error option \<times> session" where
  "outcome r = (case r of (Inl e, m) \<Rightarrow> (Some e, m) | (Inr _, m) \<Rightarrow> (None, m))"

definition run_up :: "system \<Rightarrow> string list \<Rightarrow> session \<Rightarrow> cmd_error option \<times> session" where
  "run_up sys args = with_context sys (up_flag_set (x_host sys)) args
     (\<lambda>v rest x m.
        case up x (flag_on v ''recreate'') (flag_on v ''rebuild'') rest
               \<lparr>hf_skip = flag_on v ''skip-hooks'', hf_rerun = flag_on v ''rerun-hooks''\<rparr> m of
          (Inl e, m1) \<Rightarrow> (Some e, m1)
        | (Inr attached, m1) \<Rightarrow>
            if flag_on v ''code'' \<and> attached then launch_editor x (map_get v ''editor'') m1 else (None, m1))"

definition run_down :: "system \<Rightarrow> string list \<Rightarrow> session \<Rightarrow> cmd_error option \<times> session" where
  "run_down sys args = with_context sys down_flag_set args
     (\<lambda>v rest x. down x (flag_on v ''auto'') (flag_on v ''volumes'') (flag_on v ''purge'') rest)"

definition run_stop :: "system \<Rightarrow> string list \<Rightarrow> session \<Rightarrow> cmd_error option \<times> session" where
  "run_stop sys args = with_context sys common_flag_set args (\<lambda>v rest x. stop x rest)"

definition run_restart :: "system \<Rightarrow> string list \<Rightarrow> session \<Rightarrow> cmd_error option \<times> session" where
  "run_restart sys args = with_context sys restart_flag_set args (\<lambda>v rest x. restart x (flag_on v ''all'') rest)"

definition run_status :: "system \<Rightarrow> string list \<Rightarrow> session \<Rightarrow> cmd_error option \<times> session" where
  "run_status sys args = with_context sys status_flag_set args (\<lambda>v rest x m. outcome (status x m))"

definition run_ps :: "system \<Rightarrow> string list \<Rightarrow> session \<Rightarrow> cmd_error option \<times> session" where
  "run_ps sys args = with_context sys ps_flag_set args
     (\<lambda>v rest x m.
        case compose_services x rest of
          Inl e \<Rightarrow> (Some e, m)
        | Inr services \<Rightarrow> outcome (ps_rows x services m))"

definition run_list :: "system \<Rightarrow> string list \<Rightarrow> session \<Rightarrow> cmd_error option \<times> session" where
  "run_list sys args m =
     (case parse_args list_flag_set args of
        Inl e \<Rightarrow> (Some (BadFlags e), m)
      | Inr (v, _) \<Rightarrow>
          (case detect (x_host sys) (map_get v ''runtime'') of
             Inl e \<Rightarrow> (Some (Detection e), m)
           | Inr cl \<Rightarrow>
               (case workspace_rows (x_decode sys) (cli_ops (x_decode sys) (x_proc sys) cl) m of
                  (Inl e, m1) \<Rightarrow> (Some (Query e), m1)
                | (Inr _, m1) \<Rightarrow> (None, m1))))"

definition run_logs :: "system \<Rightarrow> string list \<Rightarrow> session \<Rightarrow> cmd_error option \<times> session" where
  "run_logs sys args = with_context sys logs_flag_set args (\<lambda>v rest x. logs x (flag_on v ''follow'') rest)"

text \<open>The usage error of \<open>devc exec\<close> comes before \<open>setup\<close>.\<close>

definition run_exec :: "system \<Rightarrow> string list \<Rightarrow> session \<Rightarrow> cmd_error option \<times> session" where
  "run_exec sys args m =
     (case parse_args exec_flag_set args of
        Inr (_, []) \<Rightarrow> (Some Usage, m)
      | _ \<Rightarrow> with_context sys exec_flag_set args
               (\<lambda>v rest x. exec_command x (flag_on v ''T'') (x_tty x) (map_get v ''service'') rest) m)"

definition ssh_spawn :: "ctx \<Rightarrow> session \<Rightarrow> cmd_error option \<times> session" where
  "ssh_spawn x m =
     (case ho_look (x_host x) ''ssh'' of
        None \<Rightarrow> (Some NoSsh, m)
      | Some bin \<Rightarrow>
          (case exec_call (x_proc x) \<lparr>c_bin = bin, c_args = [ssh_alias (x_spec x)], c_stdin = []\<rparr> m of
             (r, m') \<Rightarrow> (if rs_fail r = None then None else Some SshFailed, m')))"

definition run_ssh :: "system \<Rightarrow> string list \<Rightarrow> session \<Rightarrow> cmd_error option \<times> session" where
  "run_ssh sys args = with_context sys ssh_flag_set args
     (\<lambda>v rest x. if flag_on v ''stdio'' then ssh_stdio x (flag_on v ''start'') else ssh_spawn x)"

definition run_code :: "system \<Rightarrow> string list \<Rightarrow> session \<Rightarrow> cmd_error option \<times> session" where
  "run_code sys args = with_context sys (code_flag_set (x_host sys)) args
     (\<lambda>v rest x. launch_editor x (map_get v ''editor''))"

definition run_doctor :: "system \<Rightarrow> string list \<Rightarrow> session \<Rightarrow> cmd_error option \<times> session" where
  "run_doctor sys args = with_context sys doctor_flag_set args (\<lambda>v rest x. doctor x (flag_on v ''json''))"

section \<open>Commands without a runtime\<close>

text \<open>The context of \<open>loadSpecOnly\<close>: no runtime has been chosen.\<close>

definition spec_context :: "system \<Rightarrow> common_flags \<Rightarrow> spec \<Rightarrow> ctx" where
  "spec_context sys c s = context_of sys (c\<lparr>cf_sync_git_config := None\<rparr>) \<lparr>cli_bin = [], cli_base = []\<rparr> s []"

definition with_spec :: "system \<Rightarrow> flag_set \<Rightarrow> string list
    \<Rightarrow> (flag_vars \<Rightarrow> common_flags \<Rightarrow> spec \<Rightarrow> session \<Rightarrow> (provision_error + string) \<times> session)
    \<Rightarrow> session \<Rightarrow> cmd_error option \<times> session" where
  "with_spec sys fs args body m =
     (case parse_args fs args of
        Inl e \<Rightarrow> (Some (BadFlags e), m)
      | Inr (v, _) \<Rightarrow>
          let c = common_flags v in
          (case load_spec_only sys c of
             Inl e \<Rightarrow> (Some (Loading e), m)
           | Inr (s, _) \<Rightarrow>
               (case body v c s m of
                  (Inl e, m1) \<Rightarrow> (Some (Provision e), m1)
                | (Inr _, m1) \<Rightarrow> (None, m1))))"

definition run_keys :: "system \<Rightarrow> string list \<Rightarrow> session \<Rightarrow> cmd_error option \<times> session" where
  "run_keys sys args = with_spec sys keys_flag_set args
     (\<lambda>v c s. keys_command (spec_context sys (c\<lparr>cf_forward_agent := None\<rparr>) s) (flag_on v ''rotate''))"

definition run_ssh_config :: "system \<Rightarrow> string list \<Rightarrow> session \<Rightarrow> cmd_error option \<times> session" where
  "run_ssh_config sys args = with_spec sys ssh_config_flag_set args
     (\<lambda>v c s. ssh_config_command (spec_context sys c s) (cf_runtime c) (flag_on v ''print''))"

text \<open>\<open>loadSpecOnly\<close> does not look at the name: \<open>-n\<close> is accepted by these two commands and has no effect.\<close>

lemma spec_commands_ignore_name:
  assumes "parse_args fs args = Inr (v, rest)" and "parse_args fs args' = Inr (v', rest')"
    and "common_flags v' = (common_flags v)\<lparr>cf_name := n\<rparr>" and "flag_on v' b = flag_on v b"
  shows "with_spec sys fs args' (\<lambda>v c s. ssh_config_command (spec_context sys c s) (cf_runtime c) (flag_on v b)) m
       = with_spec sys fs args (\<lambda>v c s. ssh_config_command (spec_context sys c s) (cf_runtime c) (flag_on v b)) m"
    and "with_spec sys fs args' (\<lambda>v c s. keys_command (spec_context sys (c\<lparr>cf_forward_agent := None\<rparr>) s) (flag_on v b)) m
       = with_spec sys fs args (\<lambda>v c s. keys_command (spec_context sys (c\<lparr>cf_forward_agent := None\<rparr>) s) (flag_on v b)) m"
  using assms by (simp_all add: with_spec_def load_spec_only_def spec_context_def context_of_def Let_def
      split: sum.split prod.split)

text \<open>\<open>devc config\<close>: what is printed, the spec or the substituted document, with the warnings.\<close>

definition default_name :: "string \<Rightarrow> string" where
  "default_name folder = after_last_slash folder"

definition config_raw :: "env \<Rightarrow> string \<Rightarrow> string \<Rightarrow> load_error + raw \<times> string list" where
  "config_raw e path override =
     (case load e path override of
        Inl x \<Rightarrow> Inl x
      | Inr l \<Rightarrow>
          let name = (if r_name (l_raw l) = [] then default_name (l_local_folder l) else r_name (l_raw l));
              wid = workspace_id name (l_local_folder l)
          in (case substitute (l_local_folder l) (env_lookup e) wid (l_raw l) of
                Inl x \<Rightarrow> Inl (SubstFailed x)
              | Inr r \<Rightarrow> Inr (r, l_warnings l)))"

definition run_config :: "system \<Rightarrow> string list \<Rightarrow> session \<Rightarrow> cmd_error option \<times> session" where
  "run_config sys args m =
     (case parse_args config_flag_set args of
        Inl e \<Rightarrow> (Some (BadFlags e), m)
      | Inr (v, _) \<Rightarrow>
          let p = map_get v ''path''; c = map_get v ''config''
          in if flag_on v ''raw''
             then (case config_raw (x_files sys) p c of Inl e \<Rightarrow> (Some (Loading e), m) | Inr _ \<Rightarrow> (None, m))
             else (case load_spec (x_files sys) p c of Inl e \<Rightarrow> (Some (Loading e), m) | Inr _ \<Rightarrow> (None, m)))"

end
