(* ===== verification/Completion.thy ===== *)
theory Completion
  imports Commands
begin

text \<open>
  Shell completion (\<open>cmd/devc/completion.go\<close>): \<open>devc __complete\<close> prints a candidate per line, the value and,
  after a tab, a description. The code learns a command's flag set by running the command with \<open>-h\<close>,
  which ends in \<open>flag.ErrHelp\<close> once the flags are declared; here the declared sets are a table, and the
  parse of \<open>-h\<close> decides as in the code.
\<close>

section \<open>Commands and their flags\<close>

definition completion_commands :: "host \<Rightarrow> (string \<times> flag_set option) list" where
  "completion_commands h =
     [(''up'', Some (up_flag_set h)), (''down'', Some down_flag_set), (''stop'', Some common_flag_set),
      (''restart'', Some restart_flag_set), (''status'', Some status_flag_set), (''ps'', Some ps_flag_set),
      (''list'', Some list_flag_set), (''logs'', Some logs_flag_set), (''exec'', Some exec_flag_set),
      (''ssh'', Some ssh_flag_set), (''code'', Some (code_flag_set h)), (''ssh-config'', Some ssh_config_flag_set),
      (''keys'', Some keys_flag_set), (''doctor'', Some doctor_flag_set), (''config'', Some config_flag_set),
      (''completion'', None), (''version'', None), (''help'', None)]"

definition service_commands :: "string list" where
  "service_commands = [''up'', ''down'', ''stop'', ''restart'', ''logs'', ''ps'']"

definition completion_shells :: "string list" where
  "completion_shells = [''bash'', ''zsh'', ''fish'']"

definition command_flags :: "host \<Rightarrow> string \<Rightarrow> flag_set option" where
  "command_flags h name =
     (case map_of (completion_commands h) name of
        Some (Some fs) \<Rightarrow> if parse_args fs [''-h''] = Inl HelpRequested then Some fs else None
      | _ \<Rightarrow> None)"

definition directive_files :: string where
  "directive_files = '':files''"

definition candidate_value :: "string \<Rightarrow> string" where
  "candidate_value c = (case cut c TAB of (v, _, _) \<Rightarrow> v)"

definition filter_prefix :: "string list \<Rightarrow> string \<Rightarrow> string list" where
  "filter_prefix cands p = filter (\<lambda>c. prefix p (candidate_value c)) cands"

text \<open>\<open>VisitAll\<close> goes by name.\<close>

definition flag_candidate :: "flag_decl \<Rightarrow> string" where
  "flag_candidate f = (if length (fl_name f) = 1 then ''-'' else ''--'') @ fl_name f @ [TAB] @ fl_usage f"

definition flag_candidates :: "flag_set \<Rightarrow> string list" where
  "flag_candidates fs = map flag_candidate (sort_key fl_name fs)"

section \<open>Values\<close>

text \<open>What the words already typed select; the flags without a completion keep their zero values.\<close>

definition typed_value :: "flag_set \<Rightarrow> flag_vars \<Rightarrow> string \<Rightarrow> string" where
  "typed_value fs v name = (case flag_lookup fs name of None \<Rightarrow> [] | Some f \<Rightarrow> map_get v (fl_var f))"

definition parsed_flags :: "flag_set \<Rightarrow> string list \<Rightarrow> common_flags" where
  "parsed_flags fs args =
     (case flag_parse fs (flag_defaults fs) args of
        (_, v, _) \<Rightarrow>
          let p = typed_value fs v ''path''
          in \<lparr>cf_path = (if p = [] then ''.'' else p), cf_name = typed_value fs v ''name'',
              cf_config = typed_value fs v ''config'', cf_runtime = typed_value fs v ''runtime'',
              cf_compose_cmd = typed_value fs v ''compose-cmd'', cf_platform = [], cf_userns = [], cf_selinux = [],
              cf_quiet = True, cf_forward_agent = None, cf_sync_git_config = None\<rparr>)"

definition workspace_names :: "system \<Rightarrow> flag_set \<Rightarrow> string list \<Rightarrow> session \<Rightarrow> string list \<times> session" where
  "workspace_names sys fs args m =
     (case detect (x_host sys) (cf_runtime (parsed_flags fs args)) of
        Inl _ \<Rightarrow> ([], m)
      | Inr cl \<Rightarrow>
          (case list_workspaces (x_decode sys) (cli_ops (x_decode sys) (x_proc sys) cl) m of
             (Inl _, m') \<Rightarrow> ([], m')
           | (Inr is, m') \<Rightarrow>
               (sort (map (\<lambda>i. label_of i label_name @ [TAB] @ label_of i label_local)
                  (filter (\<lambda>i. label_of i label_name \<noteq> []) is)), m')))"

definition offered_services :: "system \<Rightarrow> flag_set \<Rightarrow> string list \<Rightarrow> session \<Rightarrow> string list \<times> session" where
  "offered_services sys fs args m =
     (case set_up sys (parsed_flags fs args) m of
        (Inl _, m1) \<Rightarrow> ([], m1)
      | (Inr (x, _), m1) \<Rightarrow>
          if s_kind (x_spec x) \<noteq> KindCompose then ([], m1)
          else (case compose_impl x m1 of
                  (Inl _, m2) \<Rightarrow> ([], m2)
                | (Inr c, m2) \<Rightarrow>
                    (case compose_service_names x c m2 of
                       (Inl _, m3) \<Rightarrow> ([], m3)
                     | (Inr names, m3) \<Rightarrow> (names, m3))))"

definition flag_values :: "system \<Rightarrow> flag_set \<Rightarrow> string list \<Rightarrow> flag_decl \<Rightarrow> session \<Rightarrow> string list \<times> session" where
  "flag_values sys fs args f m =
     (let n = fl_name f in
      if n = ''runtime'' then ([''podman'', ''docker''], m)
      else if n = ''selinux'' then ([''auto'', ''z'', ''Z'', ''none''], m)
      else if n = ''editor'' then ([''codium'', ''code''], m)
      else if n = ''name'' \<or> n = ''n'' then workspace_names sys fs args m
      else if n = ''service'' then offered_services sys fs args m
      else if is_bool_flag f then ([''true'', ''false''], m)
      else ([], m))"

definition complete_flag_value :: "system \<Rightarrow> flag_set \<Rightarrow> string list \<Rightarrow> flag_decl \<Rightarrow> string \<Rightarrow> string \<Rightarrow> session
    \<Rightarrow> string list \<times> session" where
  "complete_flag_value sys fs args f pre val m =
     (if fl_name f = ''path'' \<or> fl_name f = ''config'' then ([directive_files], m)
      else (case flag_values sys fs args f m of
              (out, m') \<Rightarrow> (map (\<lambda>c. pre @ c) (filter_prefix out val), m')))"

section \<open>The word being completed\<close>

datatype spot = AtValue flag_decl | AtOperand | AtFlag

definition trim_hyphen :: "string \<Rightarrow> string" where
  "trim_hyphen s = dropWhile (\<lambda>c. c = CHR ''-'') s"

text \<open>The walk over the words before it, with the flag that waits for its value.\<close>

fun walk :: "flag_set \<Rightarrow> flag_decl option \<Rightarrow> string list \<Rightarrow> spot" where
  "walk fs pending [] = (case pending of Some f \<Rightarrow> AtValue f | None \<Rightarrow> AtFlag)"
| "walk fs (Some f) (w # ws) = walk fs None ws"
| "walk fs None (w # ws) =
     (if w = ''--'' \<or> \<not> prefix ''-'' w \<or> w = ''-'' then AtOperand
      else
        (let name = trim_hyphen w in
         if CHR ''='' \<in> set name then walk fs None ws
         else (case flag_lookup fs name of
                 Some f \<Rightarrow> walk fs (if is_bool_flag f then None else Some f) ws
               | None \<Rightarrow> walk fs None ws)))"

definition complete_operand :: "system \<Rightarrow> flag_set \<Rightarrow> string \<Rightarrow> string list \<Rightarrow> string \<Rightarrow> session \<Rightarrow> string list \<times> session" where
  "complete_operand sys fs cmd args cur m =
     (if cmd \<in> set service_commands then
        (case offered_services sys fs args m of (out, m') \<Rightarrow> (filter_prefix out cur, m'))
      else if cmd = ''exec'' then ([directive_files], m)
      else ([], m))"

definition complete_word :: "system \<Rightarrow> flag_set \<Rightarrow> string \<Rightarrow> string list \<Rightarrow> string \<Rightarrow> session \<Rightarrow> string list \<times> session" where
  "complete_word sys fs cmd args cur m =
     (case walk fs None args of
        AtValue f \<Rightarrow> complete_flag_value sys fs args f [] cur m
      | spot \<Rightarrow>
          if spot = AtFlag \<and> prefix ''-'' cur then
            (case cut (trim_hyphen cur) (CHR ''='') of
               (name, val, True) \<Rightarrow>
                 (case flag_lookup fs name of
                    None \<Rightarrow> ([], m)
                  | Some f \<Rightarrow> complete_flag_value sys fs args f (take (length cur - length val) cur) val m)
             | (_, _, False) \<Rightarrow> (filter_prefix (flag_candidates fs) cur, m))
          else complete_operand sys fs cmd args cur m)"

definition complete :: "system \<Rightarrow> string list \<Rightarrow> session \<Rightarrow> string list \<times> session" where
  "complete sys words m =
     (let words = (if words = [] then [[]] else words); cur = last words in
      if length words = 1 then (filter_prefix (map fst (completion_commands (x_host sys))) cur, m)
      else
        (let cmd = hd words; args = butlast (tl words) in
         if cmd = ''completion'' then (if args = [] then filter_prefix completion_shells cur else [], m)
         else (case command_flags (x_host sys) cmd of
                 None \<Rightarrow> ([], m)
               | Some fs \<Rightarrow> complete_word sys fs cmd args cur m)))"

definition run_complete :: "system \<Rightarrow> string list \<Rightarrow> session \<Rightarrow> cmd_error option \<times> session" where
  "run_complete sys words m = (case complete sys words m of (_, m') \<Rightarrow> (None, m'))"

text \<open>\<open>runCompletion\<close>: the error for a wrong shell; the scripts are fixed texts.\<close>

definition run_completion :: "string list \<Rightarrow> session \<Rightarrow> cmd_error option \<times> session" where
  "run_completion args m =
     (case args of
        [shell] \<Rightarrow> (if shell \<in> set completion_shells then None else Some (UnsupportedShell shell), m)
      | _ \<Rightarrow> (Some ShellUsage, m))"

section \<open>The walk reads the words as the parser does\<close>

text \<open>How the parser goes on from each spot, whatever word comes next.\<close>

fun reads_on :: "flag_set \<Rightarrow> flag_vars \<Rightarrow> string list \<Rightarrow> flag_error option \<Rightarrow> flag_vars \<Rightarrow> string list \<Rightarrow> spot \<Rightarrow> bool" where
  "reads_on fs m ws err m1 rest (AtValue f) \<longleftrightarrow>
     flag_lookup fs (fl_name f) = Some f \<and> err = Some (NeedsArgument (fl_name f))
     \<and> (\<forall>cur. flag_parse fs m (ws @ [cur]) = (None, map_put (fl_var f) cur m1, []))"
| "reads_on fs m ws err m1 rest AtOperand \<longleftrightarrow>
     err = None \<and> (\<forall>cur. flag_parse fs m (ws @ [cur]) = (None, m1, rest @ [cur]))"
| "reads_on fs m ws err m1 rest AtFlag \<longleftrightarrow>
     err = None \<and> rest = [] \<and> (\<forall>cur. flag_parse fs m (ws @ [cur]) = flag_parse fs m1 [cur])"

lemma trim_hyphen_body: "body \<noteq> [] \<Longrightarrow> hd body \<noteq> CHR ''-'' \<Longrightarrow> w = CHR ''-'' # body \<or> w = ''--'' @ body \<Longrightarrow> trim_hyphen w = body"
  by (cases body) (auto simp: trim_hyphen_def)

lemma flag_lookup_name: "flag_lookup fs n = Some f \<Longrightarrow> fl_name f = n \<and> f \<in> set fs"
  by (auto simp: flag_lookup_def find_Some_iff)

lemma set_string: "\<not> is_bool_flag f \<Longrightarrow> set_flag (fl_kind f) (fl_var f) v m = (True, map_put (fl_var f) v m)"
  by (simp add: is_bool_flag_def)

lemma reads_on_step:
  assumes "\<And>rest'. flag_parse fs m (pre @ rest') = flag_parse fs m' rest'"
  shows "reads_on fs m (pre @ ws) err m1 rest s = reads_on fs m' ws err m1 rest s"
  using assms by (cases s) simp_all

text \<open>A flag sends the walk to its value, unless the word has it or none is needed.\<close>

lemma walk_flag:
  assumes "flag_word w = Flag k v" and "flag_lookup fs k = Some f"
  shows "walk fs None (w # ws) = (if v \<noteq> None \<or> is_bool_flag f then walk fs None ws else walk fs (Some f) ws)"
proof (cases w rule: flag_word_cases)
  case (flag body)
  have kv: "k = (if CHR ''='' \<in> set body then takeWhile (\<lambda>x. x \<noteq> CHR ''='') body else body)"
    "v = (if CHR ''='' \<in> set body then Some (tl (dropWhile (\<lambda>x. x \<noteq> CHR ''='') body)) else None)"
    using assms(1) flag(5) by (auto simp: cut_def split: if_splits)
  show ?thesis
    using flag(4) trim_hyphen_body [OF flag(1,2,4)] assms(2) flag(1-3)
    by (cases body) (auto simp: kv Let_def)
qed (use assms in auto)

lemma walk_reads_on:
  assumes "flag_parse fs m ws = (err, m1, rest)" and "err = None \<or> (\<exists>n. err = Some (NeedsArgument n))"
  shows "reads_on fs m ws err m1 rest (walk fs None ws)"
  using assms
proof (induction ws arbitrary: m rule: length_induct)
  case (1 ws)
  show ?case
  proof (cases ws)
    case Nil
    with 1 show ?thesis by simp
  next
    case (Cons w ws')
    show ?thesis
    proof (cases w rule: flag_word_cases)
      case operand
      then show ?thesis using 1(2) by (cases w) (auto simp: Cons)
    next
      case terminator
      then show ?thesis using 1(2) by (auto simp: Cons)
    next
      case malformed
      then show ?thesis using 1(2,3) by (auto simp: Cons)
    next
      case (flag body)
      then obtain k v where word: "flag_word w = Flag k v" by (auto split: prod.splits)
      obtain f where f: "flag_lookup fs k = Some f"
        using 1(2,3) word by (cases "flag_lookup fs k") (auto simp: Cons split: if_splits)
      note step = walk_flag [OF word f, of ws', folded Cons]
      show ?thesis
      proof (cases "flag_value f v ws'")
        case None
        then have "v = None" "\<not> is_bool_flag f" "ws' = []"
          by (auto simp: flag_value_def split: option.splits if_splits list.splits)
        then show ?thesis using 1(2) word f step flag_lookup_name [OF f]
          by (auto simp: Cons flag_value_def set_string)
      next
        case (Some r)
        then obtain s ws'' where r: "flag_value f v ws' = Some (s, ws'')" by (cases r) auto
        obtain m' where m': "set_flag (fl_kind f) (fl_var f) s m = (True, m')"
          using 1(2,3) word f r by (cases "set_flag (fl_kind f) (fl_var f) s m"; cases "fst (set_flag (fl_kind f) (fl_var f) s m)") (auto simp: Cons)
        obtain pre where pre: "ws' = pre @ ws''" "\<And>rest'. flag_value f v (pre @ rest') = Some (s, rest')"
          using r by (auto simp: flag_value_def split: option.splits if_splits list.splits)
        have jump: "flag_parse fs m ((w # pre) @ rest') = flag_parse fs m' rest'" for rest'
          using word f m' pre(2) by simp
        have onward: "walk fs None ws = walk fs None ws''"
          using r step by (auto simp: flag_value_def split: option.splits if_splits list.splits)
        have "reads_on fs m' ws'' err m1 rest (walk fs None ws'')"
          using 1(1,3) 1(2) jump [of ws''] pre(1) by (simp add: Cons)
        then show ?thesis using reads_on_step [of fs m "w # pre" m', OF jump] onward pre(1) by (simp add: Cons)
      qed
    qed
  qed
qed

text \<open>
  C15: the walk over the words before the one being completed says what \<open>flag.Parse\<close> will make of that word,
  whatever it turns out to be, as long as the words before it are no error of their own. At a value, the parser has
  stopped for want of the value of just this flag and gives it the next word; at an operand, the flags have ended and
  the next word is left as an operand; otherwise the parser has used up all words and reads the next one afresh.
\<close>

theorem walk_agrees:
  assumes "flag_parse fs m ws = (err, m1, rest)" and "err = None \<or> (\<exists>n. err = Some (NeedsArgument n))"
  shows "case walk fs None ws of
      AtValue f \<Rightarrow> flag_lookup fs (fl_name f) = Some f \<and> err = Some (NeedsArgument (fl_name f))
        \<and> flag_parse fs m (ws @ [cur]) = (None, map_put (fl_var f) cur m1, [])
    | AtOperand \<Rightarrow> err = None \<and> flag_parse fs m (ws @ [cur]) = (None, m1, rest @ [cur])
    | AtFlag \<Rightarrow> err = None \<and> rest = [] \<and> flag_parse fs m (ws @ [cur]) = flag_parse fs m1 [cur]"
  using walk_reads_on [OF assms] by (cases "walk fs None ws") simp_all

lemma walk_agrees_witness:
  "walk common_flag_set None [''-q'', ''--runtime=docker'', ''--name''] = AtValue (flag_string ''name'' []
       ''target a workspace by its `devc list` name instead of --path'')
   \<and> map_get (fst (snd (flag_parse common_flag_set [] [''-q'', ''--runtime=docker'', ''--name'', ''app'']))) ''name'' = ''app''"
proof -
  let ?ws = "[''-q'', ''--runtime=docker'', ''--name'']"
  obtain err m1 rest where p: "flag_parse common_flag_set [] ?ws = (err, m1, rest)" by (metis prod.collapse)
  have "fst (flag_parse common_flag_set [] ?ws) = Some (NeedsArgument ''name'')" by code_simp
  then have err: "err = None \<or> (\<exists>n. err = Some (NeedsArgument n))" unfolding p by simp
  have w: "walk common_flag_set None ?ws = AtValue (flag_string ''name'' []
       ''target a workspace by its `devc list` name instead of --path'')" by code_simp
  have "?ws @ [''app''] = [''-q'', ''--runtime=docker'', ''--name'', ''app'']" by simp
  with walk_agrees [OF p err, of "''app''"] w show ?thesis
    by (simp add: flag_string_def del: flag_parse.simps walk.simps)
qed

section \<open>What is offered\<close>

definition extends :: "string \<Rightarrow> session \<Rightarrow> string list \<times> session \<Rightarrow> bool" where
  "extends cur m r \<longleftrightarrow> host_kept m (snd r) \<and> list_all (\<lambda>c. c = directive_files \<or> prefix cur c) (fst r)"

lemma prefix_filter_prefix: "list_all (prefix p) (filter_prefix cands p)"
  by (auto simp: list_all_iff filter_prefix_def candidate_value_def cut_def split: if_splits
      dest!: prefix_order.trans [OF _ takeWhile_is_prefix])

lemma extends_simps [simp]:
  "extends cur m ([], m') \<longleftrightarrow> host_kept m m'"
  "extends cur m ([directive_files], m') \<longleftrightarrow> host_kept m m'"
  "extends cur m (filter_prefix cands cur, m') \<longleftrightarrow> host_kept m m'"
  "extends (pre @ v) m (map ((@) pre) (filter_prefix cands v), m') \<longleftrightarrow> host_kept m m'"
  using prefix_filter_prefix [of cur cands] prefix_filter_prefix [of v cands]
  by (auto simp: extends_def list_all_iff)

lemma offered_services_kept [host_kept]: "offered_services sys fs args m = (r, m') \<Longrightarrow> host_kept m m'"
  by (auto simp: offered_services_def split: if_splits prod.splits sum.splits
      dest!: set_up_only compose_impl_kept compose_service_names_only only_calls_kept intro: host_kept_trans)

lemma workspace_names_kept [host_kept]: "workspace_names sys fs args m = (r, m') \<Longrightarrow> host_kept m m'"
  by (auto simp: workspace_names_def split: prod.splits sum.splits dest: list_workspaces_only only_calls_kept)

lemma flag_values_kept [host_kept]: "flag_values sys fs args f m = (r, m') \<Longrightarrow> host_kept m m'"
  by (auto simp: flag_values_def Let_def split: if_splits dest: offered_services_kept workspace_names_kept)

lemma complete_flag_value_extends: "extends (pre @ v) m (complete_flag_value sys fs args f pre v m)"
  by (auto simp: complete_flag_value_def split: prod.splits dest: flag_values_kept)

lemma complete_operand_extends: "extends cur m (complete_operand sys fs cmd args cur m)"
  by (auto simp: complete_operand_def split: prod.splits dest: offered_services_kept)

lemma cut_suffix: "cut s c = (k, v, True) \<Longrightarrow> suffix v s"
  by (auto simp: suffix_def dest!: cut_found_eq) 

lemma trim_hyphen_suffix: "suffix (trim_hyphen s) s"
  by (simp add: trim_hyphen_def suffix_dropWhile)

lemma take_before_suffix: "suffix v s \<Longrightarrow> take (length s - length v) s @ v = s"
  by (auto simp: suffix_def)

lemma complete_sound: "extends (if words = [] then [] else last words) m (complete sys words m)"
proof -
  have word: "extends cur m (complete_word sys fs cmd args cur m)" for fs cmd args cur
  proof (cases "walk fs None args = AtFlag \<and> prefix ''-'' cur")
    case True
    obtain name v b where c: "cut (trim_hyphen cur) (CHR ''='') = (name, v, b)" by (cases "cut (trim_hyphen cur) (CHR ''='')")
    show ?thesis
    proof (cases b)
      case b: True
      then have "take (length cur - length v) cur @ v = cur"
        using c suffix_order.trans [OF cut_suffix trim_hyphen_suffix] take_before_suffix by fastforce
      then have "extends cur m (complete_flag_value sys fs args f (take (length cur - length v) cur) v m)" for f
        using complete_flag_value_extends by metis
      then show ?thesis using True b c by (simp add: complete_word_def split: option.split)
    qed (use True c in \<open>simp add: complete_word_def\<close>)
  next
    case False
    then show ?thesis using complete_operand_extends complete_flag_value_extends [where pre = "[]"]
      by (cases "walk fs None args") (auto simp: complete_word_def)
  qed
  show ?thesis
    using word by (auto simp: complete_def Let_def split: option.split)
qed

lemma complete_kept: "host_kept m (snd (complete sys words m))"
  using complete_sound by (simp add: extends_def)

text \<open>
  C38: completion only ever extends the word that is being typed, in whatever position, and leaves the host as it is. Every
  line offered begins with that word, unless it hands the word over to the file completion of the shell.
\<close>

theorem complete_extends:
  "host_kept m (snd (complete sys words m))
   \<and> list_all (\<lambda>c. c = directive_files \<or> prefix (if words = [] then [] else last words) c) (fst (complete sys words m))"
  using complete_sound by (simp add: extends_def)

end
