(* ===== verification/Wire.thy ===== *)
theory Wire
  imports GoStrings "HOL-Library.Word"
begin

text \<open>
  The SSH payload parsers of the agent (\<open>agent/session.go\<close>, \<open>agent/forward.go\<close>) on bytes and 32-bit words,
  and the RFC 4254 encodings they read. A slice out of range panics in Go: \<open>Panics\<close> below.
\<close>

section \<open>Words\<close>

text \<open>\<open>binary.BigEndian.Uint32\<close> and \<open>PutUint32\<close>.\<close>

definition be32 :: "string \<Rightarrow> 32 word" where
  "be32 b = word_of_nat (foldl (\<lambda>n c. n * 256 + byte c) 0 (take 4 b))"

definition put32 :: "32 word \<Rightarrow> string" where
  "put32 w = map (\<lambda>k. char_of (unat w div 256 ^ k mod 256)) [3, 2, 1, 0]"

lemma length_put32 [simp]: "length (put32 w) = 4"
  by (simp add: put32_def)

lemma be32_put32 [simp]: "be32 (put32 w @ s) = w"
proof -
  define n where "n = unat w"
  have "n < 4294967296" using unsigned_less [of w] by (simp add: n_def)
  then have "n div 256 div 256 div 256 < 256" by (simp add: less_mult_imp_div_less)
  then have digits: "(((n div 256 div 256 div 256 mod 256) * 256 + n div 256 div 256 mod 256) * 256 + n div 256 mod 256) * 256
      + n mod 256 = n"
    by (simp add: div_mult_mod_eq)
  have "n div 16777216 = n div 256 div 256 div 256" "n div 65536 = n div 256 div 256"
    by (simp_all flip: div_mult2_eq)
  with digits have "word_of_nat ((((n div 16777216 mod 256) * 256 + n div 65536 mod 256) * 256 + n div 256 mod 256) * 256
      + n mod 256) = w"
    by (simp add: n_def)
  then show ?thesis by (simp add: be32_def put32_def n_def numeral_3_eq_3)
qed

section \<open>Strings\<close>

datatype 'a sliced = Panics | Short | Got 'a

text \<open>\<open>b[4 : 4+n]\<close> and \<open>b[4+n:]\<close>, the bound computed on 32 bits.\<close>

definition read_string_rest :: "string \<Rightarrow> (string \<times> string) sliced" where
  "read_string_rest b =
     (if length b < 4 then Short
      else
        let n = be32 b; hi = unat (4 + n) in
        if word_of_nat (length b - 4) < n then Short
        else if hi < 4 \<or> length b < hi then Panics
        else Got (take (hi - 4) (drop 4 b), drop hi b))"

definition read_string :: "string \<Rightarrow> string sliced" where
  "read_string b = (case read_string_rest b of Panics \<Rightarrow> Panics | Short \<Rightarrow> Short | Got (s, _) \<Rightarrow> Got s)"

definition put_string :: "string \<Rightarrow> string" where
  "put_string s = put32 (word_of_nat (length s)) @ s"

section \<open>Requests\<close>

record pty_request =
  pq_term :: string
  pq_cols :: "32 word"
  pq_rows :: "32 word"
  pq_width :: "32 word"
  pq_height :: "32 word"

definition parse_pty_req :: "string \<Rightarrow> pty_request sliced" where
  "parse_pty_req payload =
     (case read_string_rest payload of
        Panics \<Rightarrow> Panics
      | Short \<Rightarrow> Short
      | Got (term, rest) \<Rightarrow>
          if length rest < 16 then Short
          else Got \<lparr>pq_term = term, pq_cols = be32 rest, pq_rows = be32 (drop 4 rest),
                    pq_width = be32 (drop 8 rest), pq_height = be32 (drop 12 rest)\<rparr>)"

definition parse_window_change :: "string \<Rightarrow> (32 word \<times> 32 word) option" where
  "parse_window_change payload =
     (if length payload < 16 then None else Some (be32 payload, be32 (drop 4 payload)))"

definition parse_env :: "string \<Rightarrow> (string \<times> string) sliced" where
  "parse_env payload =
     (case read_string_rest payload of
        Panics \<Rightarrow> Panics
      | Short \<Rightarrow> Short
      | Got (name, rest) \<Rightarrow>
          (case read_string rest of Panics \<Rightarrow> Panics | Short \<Rightarrow> Short | Got v \<Rightarrow> Got (name, v)))"

text \<open>\<open>subsystemName\<close> and \<open>execPayload\<close> read the empty string from a payload that is too short.\<close>

definition string_or_empty :: "string \<Rightarrow> string sliced" where
  "string_or_empty payload = (case read_string payload of Short \<Rightarrow> Got [] | r \<Rightarrow> r)"

record direct_tcpip =
  dt_host :: string
  dt_port :: "32 word"
  dt_origin_host :: string
  dt_origin_port :: "32 word"

definition parse_direct_tcpip :: "string \<Rightarrow> direct_tcpip sliced" where
  "parse_direct_tcpip data =
     (case read_string_rest data of
        Panics \<Rightarrow> Panics
      | Short \<Rightarrow> Short
      | Got (host, rest) \<Rightarrow>
          if length rest < 4 then Short
          else (case read_string_rest (drop 4 rest) of
                  Panics \<Rightarrow> Panics
                | Short \<Rightarrow> Short
                | Got (origin, rest') \<Rightarrow>
                    if length rest' < 4 then Short
                    else Got \<lparr>dt_host = host, dt_port = be32 rest, dt_origin_host = origin,
                              dt_origin_port = be32 rest'\<rparr>))"

section \<open>No payload makes the agent panic\<close>

lemma read_string_rest_cases:
  assumes "length b < 2 ^ 32"
  shows "read_string_rest b =
    (if 4 \<le> length b \<and> unat (be32 b) \<le> length b - 4
     then Got (take (unat (be32 b)) (drop 4 b), drop (4 + unat (be32 b)) b) else Short)"
proof (cases "4 \<le> length b")
  case True
  define n where "n = be32 b"
  have l: "unat (word_of_nat (length b - 4) :: 32 word) = length b - 4"
    using assms by (simp add: unsigned_of_nat take_bit_nat_eq_self)
  then have lt: "word_of_nat (length b - 4) < n \<longleftrightarrow> length b - 4 < unat n"
    by (simp add: word_less_nat_alt)
  have "unat (4 + n) = 4 + unat n" if "unat n \<le> length b - 4"
    using that assms True by (simp add: unat_word_ariths)
  with True lt show ?thesis
    by (auto simp: read_string_rest_def Let_def simp flip: n_def)
qed (simp add: read_string_rest_def)

lemma read_string_rest_shorter: "read_string_rest b = Got (s, rest) \<Longrightarrow> length rest \<le> length b"
  by (auto simp: read_string_rest_def Let_def split: if_splits)

lemma length_put_string [simp]: "length (put_string s) = 4 + length s"
  by (simp add: put_string_def)

lemma read_string_rest_put:
  assumes "length (put_string s @ rest) < 2 ^ 32"
  shows "read_string_rest (put_string s @ rest) = Got (s, rest)"
proof -
  have "unat (word_of_nat (length s) :: 32 word) = length s"
    using assms by (simp add: unsigned_of_nat take_bit_nat_eq_self)
  with assms show ?thesis by (simp add: read_string_rest_cases put_string_def)
qed

lemma read_string_rest_no_panic: "length b < 2 ^ 32 \<Longrightarrow> read_string_rest b \<noteq> Panics"
  by (simp add: read_string_rest_cases)

lemma no_panics:
  assumes "length payload < 2 ^ 32"
  shows "parse_pty_req payload \<noteq> Panics \<and> parse_env payload \<noteq> Panics \<and> parse_direct_tcpip payload \<noteq> Panics
    \<and> string_or_empty payload \<noteq> Panics"
proof -
  have step: "read_string_rest (drop k rest) \<noteq> Panics" if "read_string_rest payload = Got (s, rest)" for s rest k
    using read_string_rest_shorter [OF that] assms by (intro read_string_rest_no_panic) simp
  from step [where k = 0] step [where k = 4] read_string_rest_no_panic [OF assms] show ?thesis
    by (auto simp: parse_pty_req_def parse_env_def parse_direct_tcpip_def string_or_empty_def read_string_def
        split: sliced.splits)
qed

text \<open>
  C40: what a client sends is what the agent reads, and nothing it sends makes the agent panic. For any
  payload below 4 GiB no parser slices out of range, whatever length field it carries, though the bound
  is computed on 32 bits and could wrap; and a payload that is the RFC 4254 encoding of a pty request, a
  window change, an environment variable, a command or a direct connection is read back as its fields.
\<close>

theorem payloads_decoded:
  assumes "length payload < 2 ^ 32"
  shows "parse_pty_req payload \<noteq> Panics \<and> parse_env payload \<noteq> Panics \<and> parse_direct_tcpip payload \<noteq> Panics
      \<and> string_or_empty payload \<noteq> Panics
    \<and> (payload = put_string a @ put32 c @ put32 r @ put32 w @ put32 h @ modes \<longrightarrow>
      parse_pty_req payload = Got \<lparr>pq_term = a, pq_cols = c, pq_rows = r, pq_width = w, pq_height = h\<rparr>)
    \<and> (payload = put32 c @ put32 r @ put32 w @ put32 h \<longrightarrow> parse_window_change payload = Some (c, r))
    \<and> (payload = put_string a @ put_string b \<longrightarrow> parse_env payload = Got (a, b))
    \<and> (payload = put_string a \<longrightarrow> string_or_empty payload = Got a)
    \<and> (payload = put_string a @ put32 c @ put_string b @ put32 r \<longrightarrow> parse_direct_tcpip payload =
      Got \<lparr>dt_host = a, dt_port = c, dt_origin_host = b, dt_origin_port = r\<rparr>)"
proof -
  note put = read_string_rest_put read_string_rest_put [of _ "[]", simplified]
  have "parse_pty_req payload = Got \<lparr>pq_term = a, pq_cols = c, pq_rows = r, pq_width = w, pq_height = h\<rparr>"
    if "payload = put_string a @ put32 c @ put32 r @ put32 w @ put32 h @ modes"
    using put(1) [of a "put32 c @ put32 r @ put32 w @ put32 h @ modes"] assms that by (simp add: parse_pty_req_def)
  moreover have "parse_window_change payload = Some (c, r)" if "payload = put32 c @ put32 r @ put32 w @ put32 h"
    using that by (simp add: parse_window_change_def)
  moreover have "parse_env payload = Got (a, b)" if "payload = put_string a @ put_string b"
    using put(1) [of a "put_string b"] put(2) [of b] assms that by (simp add: parse_env_def read_string_def)
  moreover have "string_or_empty payload = Got a" if "payload = put_string a"
    using put(2) [of a] assms that by (simp add: string_or_empty_def read_string_def)
  moreover have "parse_direct_tcpip payload = Got \<lparr>dt_host = a, dt_port = c, dt_origin_host = b, dt_origin_port = r\<rparr>"
    if "payload = put_string a @ put32 c @ put_string b @ put32 r"
    using put(1) [of a "put32 c @ put_string b @ put32 r"] put(1) [of b "put32 r"] be32_put32 [of r "[]"] assms that
    by (simp add: parse_direct_tcpip_def)
  ultimately show ?thesis using no_panics [OF assms] by blast
qed

lemma payloads_decoded_witness:
  "parse_pty_req (put_string ''xterm'' @ put32 80 @ put32 24 @ put32 0 @ put32 0 @ put_string []) =
     Got \<lparr>pq_term = ''xterm'', pq_cols = 80, pq_rows = 24, pq_width = 0, pq_height = 0\<rparr>"
  by (rule payloads_decoded [THEN conjunct2, THEN conjunct2, THEN conjunct2, THEN conjunct2, THEN conjunct1, THEN mp, OF _ refl]) simp

end
