(* ===== verification/Agent.thy ===== *)
theory Agent
  imports Prelude Wire GoPath
begin

unbundle bit_operations_syntax

text \<open>
  The agent in the container (\<open>agent/user.go\<close>, \<open>agent/server.go\<close>, \<open>agent/session.go\<close>): who a session runs as,
  which key may connect, the environment, directory and command line of what a session starts, and the
  exit status it reports. The record \<open>box\<close> is what the code asks the container's operating system.
\<close>

section \<open>Users\<close>

record account =
  au_name :: string
  au_uid :: string
  au_gid :: string
  au_home :: string

record box =
  bx_current :: "account option"
  bx_lookup :: "string \<Rightarrow> account option"
  bx_exists :: "string \<Rightarrow> bool"
  bx_is_dir :: "string \<Rightarrow> bool"
  bx_passwd :: "string option"

record user_info =
  ui_name :: string
  ui_uid :: "32 word"
  ui_gid :: "32 word"
  ui_home :: string
  ui_shell :: string
  ui_set_cred :: bool

text \<open>\<open>parseID\<close> reads an id that is not a 32-bit number as 0.\<close>

definition parse_id :: "string \<Rightarrow> 32 word" where
  "parse_id s = (if s \<noteq> [] \<and> list_all is_digit s \<and> digits_val s < 2 ^ 32 then word_of_nat (digits_val s) else 0)"

definition passwd_shell :: "box \<Rightarrow> string \<Rightarrow> string" where
  "passwd_shell b name =
     (case bx_passwd b of
        None \<Rightarrow> []
      | Some t \<Rightarrow>
          (case find (\<lambda>fs. 7 \<le> length fs \<and> fs ! 0 = name) (map (split_on (CHR '':'')) (split_on LF t)) of
             None \<Rightarrow> [] | Some fs \<Rightarrow> fs ! 6))"

definition resolve_shell :: "box \<Rightarrow> string \<Rightarrow> string" where
  "resolve_shell b name =
     (let sh = passwd_shell b name in
      if sh \<noteq> [] \<and> bx_exists b sh then sh
      else (case find (bx_exists b) [''/bin/bash'', ''/bin/sh''] of None \<Rightarrow> ''/bin/sh'' | Some s \<Rightarrow> s))"

definition from_user :: "box \<Rightarrow> account option \<Rightarrow> bool \<Rightarrow> user_info" where
  "from_user b u cred =
     (let name = (case u of None \<Rightarrow> ''root'' | Some a \<Rightarrow> au_name a);
          home = (case u of None \<Rightarrow> ''/'' | Some a \<Rightarrow> au_home a)
      in \<lparr>ui_name = name,
          ui_uid = (case u of None \<Rightarrow> 0 | Some a \<Rightarrow> parse_id (au_uid a)),
          ui_gid = (case u of None \<Rightarrow> 0 | Some a \<Rightarrow> parse_id (au_gid a)),
          ui_home = (if home = [] then ''/'' else home), ui_shell = resolve_shell b name, ui_set_cred = cred\<rparr>)"

definition resolve_user :: "box \<Rightarrow> string \<Rightarrow> user_info" where
  "resolve_user b name =
     (let cur = bx_current b;
          same = (case cur of None \<Rightarrow> False | Some c \<Rightarrow> name = au_name c \<or> name = au_uid c)
      in if name = [] \<or> same then from_user b cur False
         else (case bx_lookup b name of
                 None \<Rightarrow> from_user b cur False
               | Some u \<Rightarrow>
                   from_user b (Some u) (case cur of None \<Rightarrow> True | Some c \<Rightarrow> au_uid u \<noteq> au_uid c)))"

section \<open>Who may connect\<close>

record agent_config =
  ac_authorized :: "string list"
  ac_user :: string
  ac_cwd :: string
  ac_env :: "string gomap"
  ac_forwarding :: bool

definition byte_word :: "char \<Rightarrow> 8 word" where
  "byte_word c = word_of_nat (byte c)"

definition key_equal :: "string \<Rightarrow> string \<Rightarrow> bool" where
  "key_equal a b \<longleftrightarrow>
     length a = length b
     \<and> foldl (\<lambda>diff (x, y). diff OR (byte_word x XOR byte_word y)) 0 (zip a b) = 0"

text \<open>On the marshalled keys; the extension it returns is the base64 text of the key.\<close>

definition authenticate :: "agent_config \<Rightarrow> string \<Rightarrow> bool" where
  "authenticate cfg key \<longleftrightarrow> list_ex (\<lambda>ak. key_equal ak key) (ac_authorized cfg)"

section \<open>The command of a session\<close>

datatype command_kind = Shell | Exec string | Sftp

record params =
  pa_pty :: bool
  pa_term :: string
  pa_env :: "string gomap"

definition base_env :: "user_info \<Rightarrow> string gomap" where
  "base_env u =
     [(''HOME'', ui_home u), (''USER'', ui_name u), (''LOGNAME'', ui_name u), (''SHELL'', ui_shell u),
      (''PATH'', ''/usr/local/sbin:/usr/local/bin:/usr/sbin:/usr/bin:/sbin:/bin'')]"

text \<open>\<open>buildEnv\<close>; \<open>sock\<close> is the connection's forwarding socket, empty when there is none.\<close>

definition build_env :: "agent_config \<Rightarrow> string \<Rightarrow> user_info \<Rightarrow> params \<Rightarrow> string gomap" where
  "build_env cfg sock u p =
     (let e = map_copy (map_copy (base_env u) (ac_env cfg)) (pa_env p);
          e1 = (if sock \<noteq> [] then map_put ''SSH_AUTH_SOCK'' sock e else e)
      in if pa_pty p \<and> pa_term p \<noteq> [] then map_put ''TERM'' (pa_term p) e1 else e1)"

definition session_cwd :: "box \<Rightarrow> agent_config \<Rightarrow> user_info \<Rightarrow> string" where
  "session_cwd b cfg u = (if ac_cwd cfg \<noteq> [] \<and> bx_is_dir b (ac_cwd cfg) then ac_cwd cfg else ui_home u)"

record launch =
  la_argv :: "string list"
  la_dir :: string
  la_env :: "string gomap"
  la_cred :: "(32 word \<times> 32 word) option"
  la_pty :: bool

text \<open>\<open>buildCommand\<close> and \<open>startSFTP\<close> with \<open>userCommand\<close>; \<open>self\<close> is \<open>os.Executable\<close>.\<close>

definition user_command :: "box \<Rightarrow> agent_config \<Rightarrow> string \<Rightarrow> params \<Rightarrow> bool \<Rightarrow> string list \<Rightarrow> launch" where
  "user_command b cfg sock p pty argv =
     (let u = resolve_user b (ac_user cfg) in
      \<lparr>la_argv = argv, la_dir = session_cwd b cfg u, la_env = build_env cfg sock u p,
       la_cred = (if ui_set_cred u then Some (ui_uid u, ui_gid u) else None), la_pty = pty\<rparr>)"

fun build_command :: "box \<Rightarrow> agent_config \<Rightarrow> string \<Rightarrow> string \<Rightarrow> params \<Rightarrow> command_kind \<Rightarrow> launch" where
  "build_command b cfg self sock p Shell =
     user_command b cfg sock p (pa_pty p) [ui_shell (resolve_user b (ac_user cfg)), ''-l'']"
| "build_command b cfg self sock p (Exec c) =
     user_command b cfg sock p (pa_pty p) [ui_shell (resolve_user b (ac_user cfg)), ''-c'', c]"
| "build_command b cfg self sock p Sftp = user_command b cfg sock p False [self, ''__sftp'']"

section \<open>Exit status\<close>

datatype wait_result = Exited | ExitError int | WaitFailed

fun exit_code :: "wait_result \<Rightarrow> int" where
  "exit_code Exited = 0"
| "exit_code (ExitError c) = (if 0 \<le> c then c else 1)"
| "exit_code WaitFailed = 1"

text \<open>How running the command ended.\<close>

datatype run_result = PtyFailed | PipeFailed | StartFailed | Ended wait_result

fun status_of :: "run_result \<Rightarrow> int" where
  "status_of PtyFailed = 1"
| "status_of PipeFailed = 1"
| "status_of StartFailed = 127"
| "status_of (Ended w) = exit_code w"

definition exit_payload :: "int \<Rightarrow> string" where
  "exit_payload code = put32 (word_of_int code)"

section \<open>Only an authorized key connects\<close>

lemma or_zero_iff: "(a :: 8 word) OR b = 0 \<longleftrightarrow> a = 0 \<and> b = 0"
  by (auto simp: bit_eq_iff bit_or_iff)

lemma xor_zero_iff: "(a :: 8 word) XOR b = 0 \<longleftrightarrow> a = b"
  by (auto simp: bit_eq_iff bit_xor_iff)

lemma diff_zero_iff:
  "foldl (\<lambda>diff (x, y). diff OR (byte_word x XOR byte_word y)) d ps = 0 \<longleftrightarrow>
   d = 0 \<and> (\<forall>(x, y) \<in> set ps. byte_word x = byte_word y)"
proof (induction ps arbitrary: d)
  case (Cons p ps)
  then show ?case by (cases p) (auto simp: or_zero_iff xor_zero_iff)
qed simp

lemma byte_word_inj: "byte_word x = byte_word y \<longleftrightarrow> x = y"
proof
  assume "byte_word x = byte_word y"
  then have "unat (byte_word x) = unat (byte_word y)" by simp
  then have "byte x = byte y" using byte_less_256 by (simp add: byte_word_def unsigned_of_nat take_bit_nat_eq_self)
  then show "x = y" by simp
qed simp

lemma key_equal_iff: "key_equal a b \<longleftrightarrow> a = b"
  unfolding key_equal_def diff_zero_iff
  by (auto simp: byte_word_inj list_eq_iff_zip_eq in_set_zip intro!: nth_equalityI)

text \<open>
  The agent lets in exactly the authorized keys: the comparison that accumulates the differences of the
  bytes is equality.
\<close>

lemma authenticate_authorized: "authenticate cfg key \<longleftrightarrow> key \<in> set (ac_authorized cfg)"
  by (auto simp: authenticate_def list_ex_iff key_equal_iff)

text \<open>
  What a command finds in its environment. The later sources win: the forwarding socket of the
  connection over everything, then what the client sent, then the configured environment, then the
  user's own values; and a terminal's type is set over all of these only when the client asked for a terminal.
\<close>

lemma build_env_precedence:
  "map_of (build_env cfg sock u p) k =
     (if k = ''TERM'' \<and> pa_pty p \<and> pa_term p \<noteq> [] then Some (pa_term p)
      else if k = ''SSH_AUTH_SOCK'' \<and> sock \<noteq> [] then Some sock
      else (case map_of (pa_env p) k of
              Some v \<Rightarrow> Some v
            | None \<Rightarrow> (case map_of (ac_env cfg) k of Some v \<Rightarrow> Some v | None \<Rightarrow> map_of (base_env u) k)))"
  by (simp add: build_env_def Let_def map_add_def split: option.split)

end
