(* ===== verification/AgentSession.thy ===== *)
theory AgentSession
  imports Agent
begin

text \<open>
  A session channel of the agent (\<open>handleSession\<close> and what it calls in \<open>agent/session.go\<close>, \<open>agent/sftp.go\<close>,
  \<open>agent/agentfwd.go\<close>) as a state machine. Three goroutines run: the request loop, the command
  claimed by \<open>spawn\<close>, and the applier of window sizes; \<open>step\<close> interleaves them, with the two \<open>select\<close>
  statements of \<open>resize\<close> as separate steps. The operating system's part (whether the forwarding
  socket can be opened, how the command starts and ends) is the choice of the step.
\<close>

section \<open>State\<close>

record request =
  rq_type :: string
  rq_want :: bool
  rq_payload :: string

type_synonym win = "32 word \<times> 32 word"

text \<open>
  \<open>winCh\<close> has room for one size. \<open>Discarding\<close> and \<open>Sending\<close> are the two halves of \<open>resize\<close>, with the
  request that published the size and the reply it will get.
\<close>

datatype loop = Ready | Discarding nat win bool bool | Sending nat win bool bool

text \<open>The command: none yet, claimed for a request, started, running, ended.\<close>

datatype phase = Idle | Claimed command_kind nat bool | Starting launch | Running launch | Over

datatype out = Reply nat bool | ExitStatus string

record conn =
  cn_loop :: loop
  cn_seen :: "request list"
  cn_started :: bool
  cn_pty :: bool
  cn_term :: string
  cn_env :: "string gomap"
  cn_sock :: string
  cn_slot :: "win option"
  cn_phase :: phase
  cn_out :: "out list"
  cn_wanted :: "win list"
  cn_applied :: "(16 word \<times> 16 word) list"
  cn_panicked :: bool

definition new_conn :: "string \<Rightarrow> conn" where
  "new_conn sock =
     \<lparr>cn_loop = Ready, cn_seen = [], cn_started = False, cn_pty = False, cn_term = [], cn_env = [], cn_sock = sock,
      cn_slot = None, cn_phase = Idle, cn_out = [], cn_wanted = [], cn_applied = [], cn_panicked = False\<rparr>"

text \<open>What is set on the pty: the sizes cut to 16 bits.\<close>

definition set_size :: "win \<Rightarrow> 16 word \<times> 16 word" where
  "set_size w = (ucast (fst w), ucast (snd w))"

section \<open>The request loop\<close>

definition reply :: "nat \<Rightarrow> bool \<Rightarrow> bool \<Rightarrow> conn \<Rightarrow> conn" where
  "reply n want ok s = (if want then s\<lparr>cn_out := cn_out s @ [Reply n ok]\<rparr> else s)"

definition spawn :: "request \<Rightarrow> nat \<Rightarrow> command_kind \<Rightarrow> conn \<Rightarrow> conn" where
  "spawn r n c s =
     (if cn_started s then reply n (rq_want r) False s
      else s\<lparr>cn_started := True, cn_phase := Claimed c n (rq_want r)\<rparr>)"

definition handle_pty_req :: "request \<Rightarrow> nat \<Rightarrow> conn \<Rightarrow> conn" where
  "handle_pty_req r n s =
     (case parse_pty_req (rq_payload r) of
        Panics \<Rightarrow> s\<lparr>cn_panicked := True\<rparr>
      | Short \<Rightarrow> reply n (rq_want r) False s
      | Got q \<Rightarrow> s\<lparr>cn_pty := True, cn_term := pq_term q,
                  cn_loop := Discarding n (pq_cols q, pq_rows q) (rq_want r) True,
                  cn_wanted := cn_wanted s @ [(pq_cols q, pq_rows q)]\<rparr>)"

definition handle_env :: "request \<Rightarrow> nat \<Rightarrow> conn \<Rightarrow> conn" where
  "handle_env r n s =
     (case parse_env (rq_payload r) of
        Panics \<Rightarrow> s\<lparr>cn_panicked := True\<rparr>
      | Short \<Rightarrow> reply n (rq_want r) True s
      | Got (k, v) \<Rightarrow> reply n (rq_want r) True (s\<lparr>cn_env := map_put k v (cn_env s)\<rparr>))"

definition handle_window_change :: "request \<Rightarrow> nat \<Rightarrow> conn \<Rightarrow> conn" where
  "handle_window_change r n s =
     (case parse_window_change (rq_payload r) of
        None \<Rightarrow> reply n (rq_want r) False s
      | Some w \<Rightarrow> s\<lparr>cn_loop := Discarding n w (rq_want r) False, cn_wanted := cn_wanted s @ [w]\<rparr>)"

text \<open>
  \<open>sock\<close> is the answer of \<open>ensureAgentForward\<close>: the connection's socket, the existing one when there is
  one, or nothing.
\<close>

definition handle_agent_req :: "agent_config \<Rightarrow> string option \<Rightarrow> request \<Rightarrow> nat \<Rightarrow> conn \<Rightarrow> conn" where
  "handle_agent_req cfg sock r n s =
     (if \<not> ac_forwarding cfg then reply n (rq_want r) False s
      else if cn_sock s \<noteq> [] then reply n (rq_want r) True s
      else (case sock of
              None \<Rightarrow> reply n (rq_want r) False s
            | Some p \<Rightarrow> reply n (rq_want r) True (s\<lparr>cn_sock := p\<rparr>)))"

definition with_string :: "(string \<Rightarrow> conn \<Rightarrow> conn) \<Rightarrow> request \<Rightarrow> conn \<Rightarrow> conn" where
  "with_string f r s =
     (case string_or_empty (rq_payload r) of Got t \<Rightarrow> f t s | _ \<Rightarrow> s\<lparr>cn_panicked := True\<rparr>)"

definition handle :: "agent_config \<Rightarrow> string option \<Rightarrow> request \<Rightarrow> conn \<Rightarrow> conn" where
  "handle cfg sock r s0 =
     (let n = length (cn_seen s0); s = s0\<lparr>cn_seen := cn_seen s0 @ [r]\<rparr>; t = rq_type r in
      if t = ''pty-req'' then handle_pty_req r n s
      else if t = ''env'' then handle_env r n s
      else if t = ''window-change'' then handle_window_change r n s
      else if t = ''auth-agent-req@openssh.com'' then handle_agent_req cfg sock r n s
      else if t = ''shell'' then spawn r n Shell s
      else if t = ''exec'' then with_string (\<lambda>c. spawn r n (Exec c)) r s
      else if t = ''signal'' then reply n (rq_want r) True s
      else if t = ''subsystem'' then
        with_string (\<lambda>name s. if name = ''sftp'' then spawn r n Sftp s else reply n (rq_want r) False s) r s
      else reply n (rq_want r) False s)"

section \<open>Steps\<close>

definition snapshot :: "conn \<Rightarrow> params" where
  "snapshot s = \<lparr>pa_pty = cn_pty s, pa_term = cn_term s, pa_env = cn_env s\<rparr>"

definition finish :: "run_result \<Rightarrow> conn \<Rightarrow> conn" where
  "finish res s = s\<lparr>cn_phase := Over, cn_out := cn_out s @ [ExitStatus (exit_payload (status_of res))]\<rparr>"

inductive step :: "box \<Rightarrow> agent_config \<Rightarrow> string \<Rightarrow> conn \<Rightarrow> conn \<Rightarrow> bool"
  for b :: box and cfg :: agent_config and self :: string where
  receive: "cn_loop s = Ready \<Longrightarrow> \<not> cn_panicked s \<Longrightarrow> length (rq_payload r) < 2 ^ 32 \<Longrightarrow>
    step b cfg self s (handle cfg sock r s)"
| discard: "cn_loop s = Discarding n w want ok \<Longrightarrow> \<not> cn_panicked s \<Longrightarrow>
    step b cfg self s (s\<lparr>cn_loop := Sending n w want ok, cn_slot := None\<rparr>)"
| send: "cn_loop s = Sending n w want ok \<Longrightarrow> \<not> cn_panicked s \<Longrightarrow>
    step b cfg self s (reply n want ok
      (s\<lparr>cn_loop := Ready, cn_slot := (case cn_slot s of None \<Rightarrow> Some w | Some w' \<Rightarrow> Some w')\<rparr>))"
| begin_command: "cn_phase s = Claimed c n want \<Longrightarrow> c \<noteq> Sftp \<Longrightarrow> \<not> cn_panicked s \<Longrightarrow>
    step b cfg self s (reply n want True
      (s\<lparr>cn_phase := Starting (build_command b cfg self (cn_sock s) (snapshot s) c)\<rparr>))"
| begin_sftp: "cn_phase s = Claimed Sftp n want \<Longrightarrow> \<not> cn_panicked s \<Longrightarrow>
    step b cfg self s (reply n want True
      (s\<lparr>cn_phase := Running (build_command b cfg self (cn_sock s) (snapshot s) Sftp)\<rparr>))"
| refuse_sftp: "cn_phase s = Claimed Sftp n want \<Longrightarrow> res \<in> {PipeFailed, StartFailed} \<Longrightarrow> \<not> cn_panicked s \<Longrightarrow>
    step b cfg self s (finish res (reply n want False s))"
| started: "cn_phase s = Starting l \<Longrightarrow> \<not> cn_panicked s \<Longrightarrow> step b cfg self s (s\<lparr>cn_phase := Running l\<rparr>)"
| not_started: "cn_phase s = Starting l \<Longrightarrow> \<not> cn_panicked s \<Longrightarrow>
    res \<in> (if la_pty l then {PtyFailed} else {PipeFailed, StartFailed}) \<Longrightarrow> step b cfg self s (finish res s)"
| apply_size: "cn_phase s = Running l \<Longrightarrow> la_pty l \<Longrightarrow> cn_slot s = Some w \<Longrightarrow> \<not> cn_panicked s \<Longrightarrow>
    step b cfg self s (s\<lparr>cn_slot := None, cn_applied := cn_applied s @ [set_size w]\<rparr>)"
| other_session: "cn_sock s = [] \<Longrightarrow> \<not> cn_panicked s \<Longrightarrow> step b cfg self s (s\<lparr>cn_sock := p\<rparr>)"
| forward_closed: "\<not> cn_panicked s \<Longrightarrow> step b cfg self s (s\<lparr>cn_sock := []\<rparr>)"
| ended: "cn_phase s = Running l \<Longrightarrow> \<not> cn_panicked s \<Longrightarrow> step b cfg self s (finish (Ended wr) s)"

inductive_cases stepE: "step b cfg self s s'"

abbreviation reachable :: "box \<Rightarrow> agent_config \<Rightarrow> string \<Rightarrow> string \<Rightarrow> conn \<Rightarrow> bool" where
  "reachable b cfg self sock s \<equiv> (step b cfg self)\<^sup>*\<^sup>* (new_conn sock) s"

section \<open>Invariant\<close>

text \<open>The replies still owed: by the request loop and by the command's goroutine.\<close>

fun owed_loop :: "loop \<Rightarrow> nat list" where
  "owed_loop Ready = []"
| "owed_loop (Discarding n w want ok) = (if want then [n] else [])"
| "owed_loop (Sending n w want ok) = (if want then [n] else [])"

fun owed_phase :: "phase \<Rightarrow> nat list" where
  "owed_phase (Claimed c n want) = (if want then [n] else [])"
| "owed_phase _ = []"

fun replied :: "out \<Rightarrow> nat list" where
  "replied (Reply n ok) = [n]"
| "replied (ExitStatus c) = []"

definition asked :: "request list \<Rightarrow> nat list" where
  "asked rs = filter (\<lambda>n. rq_want (rs ! n)) [0..<length rs]"

fun exit_status :: "out \<Rightarrow> string list" where
  "exit_status (ExitStatus c) = [c]"
| "exit_status (Reply n ok) = []"

text \<open>The size the loop is about to publish.\<close>

fun pending_size :: "loop \<Rightarrow> win option" where
  "pending_size Ready = None"
| "pending_size (Discarding n w want ok) = Some w"
| "pending_size (Sending n w want ok) = Some w"

fun sending :: "loop \<Rightarrow> bool" where
  "sending (Sending n w want ok) = True"
| "sending _ = False"

text \<open>The latest size asked for is being published, or waits in the channel, or is the last one applied.\<close>

definition size_inv :: "conn \<Rightarrow> bool" where
  "size_inv s \<longleftrightarrow>
     (\<forall>w. pending_size (cn_loop s) = Some w \<longrightarrow> cn_wanted s \<noteq> [] \<and> w = last (cn_wanted s))
     \<and> (\<forall>w. pending_size (cn_loop s) = None \<and> cn_slot s = Some w \<longrightarrow> cn_wanted s \<noteq> [] \<and> w = last (cn_wanted s))
     \<and> (pending_size (cn_loop s) = None \<and> cn_slot s = None \<and> cn_wanted s \<noteq> [] \<longrightarrow>
          cn_applied s \<noteq> [] \<and> last (cn_applied s) = set_size (last (cn_wanted s)))
     \<and> (sending (cn_loop s) \<longrightarrow> cn_slot s = None)"

definition reply_inv :: "conn \<Rightarrow> bool" where
  "reply_inv s \<longleftrightarrow>
     mset (concat (map replied (cn_out s))) + mset (owed_loop (cn_loop s)) + mset (owed_phase (cn_phase s))
       = mset (asked (cn_seen s))"

definition phase_inv :: "conn \<Rightarrow> bool" where
  "phase_inv s \<longleftrightarrow> (cn_started s \<longleftrightarrow> cn_phase s \<noteq> Idle)
     \<and> length (concat (map exit_status (cn_out s))) = (if cn_phase s = Over then 1 else 0)"

lemma asked_snoc: "asked (rs @ [r]) = asked rs @ (if rq_want r then [length rs] else [])"
proof -
  have "filter (\<lambda>n. rq_want ((rs @ [r]) ! n)) [0..<length rs] = filter (\<lambda>n. rq_want (rs ! n)) [0..<length rs]"
    by (rule filter_cong) (simp_all add: nth_append)
  then show ?thesis by (simp add: asked_def)
qed

definition session_inv :: "conn \<Rightarrow> bool" where
  "session_inv s \<longleftrightarrow> size_inv s \<and> reply_inv s \<and> phase_inv s \<and> \<not> cn_panicked s"

lemmas inv_defs = session_inv_def size_inv_def reply_inv_def phase_inv_def

lemma new_conn_inv: "session_inv (new_conn sock)"
  by (simp add: inv_defs new_conn_def asked_def)

text \<open>\<open>handle\<close> keeps the invariant: each request is answered, handed to the loop or to the command.\<close>

definition owing :: "request \<Rightarrow> conn \<Rightarrow> bool" where
  "owing r s \<longleftrightarrow> size_inv s \<and> phase_inv s \<and> \<not> cn_panicked s \<and> cn_loop s = Ready
     \<and> mset (concat (map replied (cn_out s))) + mset (owed_phase (cn_phase s))
         + mset (if rq_want r then [length (cn_seen s) - 1] else []) = mset (asked (cn_seen s))"

lemma owing_receive:
  "session_inv s \<Longrightarrow> cn_loop s = Ready \<Longrightarrow> owing r (s\<lparr>cn_seen := cn_seen s @ [r]\<rparr>)"
  by (simp add: owing_def inv_defs asked_snoc flip: union_assoc)

lemma reply_settles: "owing r s \<Longrightarrow> session_inv (reply (length (cn_seen s) - 1) (rq_want r) ok s)"
  by (auto simp: owing_def inv_defs reply_def ac_simps)

lemma spawn_settles: "owing r s \<Longrightarrow> session_inv (spawn r (length (cn_seen s) - 1) c s)"
proof (cases "cn_started s")
  case True
  assume "owing r s"
  then show ?thesis using True reply_settles by (simp add: spawn_def)
next
  case False
  assume "owing r s"
  then show ?thesis using False by (auto simp: owing_def inv_defs spawn_def)
qed

lemma resize_settles:
  "owing r s \<Longrightarrow> session_inv (s\<lparr>cn_loop := Discarding (length (cn_seen s) - 1) w (rq_want r) ok, cn_wanted := cn_wanted s @ [w]\<rparr>)"
  by (auto simp: owing_def inv_defs ac_simps)

lemma owing_cong:
  "owing r s \<Longrightarrow> owing r (s\<lparr>cn_pty := p, cn_term := t\<rparr>)" "owing r s \<Longrightarrow> owing r (s\<lparr>cn_env := e\<rparr>)"
  "owing r s \<Longrightarrow> owing r (s\<lparr>cn_sock := k\<rparr>)"
  by (auto simp: owing_def size_inv_def phase_inv_def)

lemma handle_inv:
  assumes inv: "session_inv s" and ready: "cn_loop s = Ready" and len: "length (rq_payload r) < 2 ^ 32"
  shows "session_inv (handle cfg sock r s)"
proof -
  define s1 where "s1 = s\<lparr>cn_seen := cn_seen s @ [r]\<rparr>"
  have o1: "owing r s1" using owing_receive [OF inv ready] by (simp add: s1_def)
  have n: "length (cn_seen s) = length (cn_seen s1) - 1" by (simp add: s1_def)
  note no_panic = no_panics [OF len]
  have reply: "session_inv (reply (length (cn_seen s)) (rq_want r) ok s1)" for ok
    unfolding n by (rule reply_settles [OF o1])
  have spawn: "session_inv (spawn r (length (cn_seen s)) c s1)" for c
    unfolding n by (rule spawn_settles [OF o1])
  have "session_inv (handle_pty_req r (length (cn_seen s)) s1)"
    using no_panic reply resize_settles [OF owing_cong(1) [OF o1], where ok = True]
    by (auto simp: handle_pty_req_def n split: sliced.split)
  moreover have "session_inv (handle_env r (length (cn_seen s)) s1)"
    using no_panic reply reply_settles [OF owing_cong(2) [OF o1]]
    by (auto simp: handle_env_def n split: sliced.split)
  moreover have "session_inv (handle_window_change r (length (cn_seen s)) s1)"
    using reply resize_settles [OF o1] by (auto simp: handle_window_change_def n split: option.split)
  moreover have "session_inv (handle_agent_req cfg sock r (length (cn_seen s)) s1)"
    using reply reply_settles [OF owing_cong(3) [OF o1]]
    by (auto simp: handle_agent_req_def n split: option.split)
  moreover have "session_inv (with_string f r s1)" if "\<And>t. session_inv (f t s1)" for f
    using that no_panic by (auto simp: with_string_def string_or_empty_def split: sliced.splits)
  ultimately show ?thesis
    using reply spawn by (simp add: handle_def Let_def flip: s1_def)
qed

lemma step_inv: "step b cfg self s s' \<Longrightarrow> session_inv s \<Longrightarrow> session_inv s'"
proof (induction rule: step.induct)
  case (receive s r sock)
  then show ?case by (simp add: handle_inv)
qed (auto simp: inv_defs reply_def finish_def ac_simps split: option.splits loop.splits)

lemma reachable_inv: "reachable b cfg self sock s \<Longrightarrow> session_inv s"
  by (induction rule: rtranclp_induct) (auto intro: new_conn_inv step_inv)

text \<open>
  C6: a session answers what it must, in every interleaving of its goroutines and whatever the client
  sends. Each request that wants a reply gets exactly one, or it is still owed by the request loop or by the command
  claimed for it; at most one command is ever claimed and one exit status sent, exactly when that command
  is over; the terminal ends with the last size the client asked for, however the
  sizes raced with the applier; and no payload makes the agent panic.
\<close>

theorem session_safe:
  assumes "reachable b cfg self sock s"
  shows "mset (concat (map replied (cn_out s))) + mset (owed_loop (cn_loop s)) + mset (owed_phase (cn_phase s))
      = mset (asked (cn_seen s))
    \<and> length (concat (map exit_status (cn_out s))) = (if cn_phase s = Over then 1 else 0)
    \<and> (cn_started s \<longleftrightarrow> cn_phase s \<noteq> Idle)
    \<and> (cn_loop s = Ready \<and> cn_slot s = None \<and> cn_wanted s \<noteq> [] \<longrightarrow>
         cn_applied s \<noteq> [] \<and> last (cn_applied s) = set_size (last (cn_wanted s)))
    \<and> \<not> cn_panicked s"
  using reachable_inv [OF assms] by (auto simp: inv_defs)

section \<open>A session never waits for ever\<close>

lemma reply_keeps [simp]: "cn_seen (reply n w ok s) = cn_seen s" "cn_phase (reply n w ok s) = cn_phase s"
    "cn_loop (reply n w ok s) = cn_loop s" "cn_panicked (reply n w ok s) = cn_panicked s"
    "snapshot (reply n w ok s) = snapshot s"
  by (simp_all add: reply_def snapshot_def)

lemma loop_gets_ready:
  assumes "\<not> cn_panicked s"
  shows "\<exists>s'. (step b cfg self)\<^sup>*\<^sup>* s s' \<and> cn_loop s' = Ready \<and> cn_seen s' = cn_seen s \<and> cn_phase s' = cn_phase s
    \<and> \<not> cn_panicked s'"
proof -
  let ?P = "\<lambda>s'. cn_loop s' = Ready \<and> cn_seen s' = cn_seen s \<and> cn_phase s' = cn_phase s \<and> \<not> cn_panicked s'"
  have sent: "\<exists>s2. step b cfg self s1 s2 \<and> ?P s2"
    if "cn_loop s1 = Sending n w want ok" "cn_seen s1 = cn_seen s" "cn_phase s1 = cn_phase s" "\<not> cn_panicked s1" for s1 n w want ok
    by (rule exI, rule conjI, rule step.send [OF that(1,4)]) (simp add: that)
  show ?thesis
  proof (cases "cn_loop s")
    case Ready
    with assms show ?thesis by blast
  next
    case (Discarding n w want ok)
    note d = step.discard [OF this assms, of b cfg self]
    obtain s2 where "step b cfg self (s\<lparr>cn_loop := Sending n w want ok, cn_slot := None\<rparr>) s2" "?P s2"
      using sent [of "s\<lparr>cn_loop := Sending n w want ok, cn_slot := None\<rparr>"] assms by auto
    with d show ?thesis by (intro exI [of _ s2]) (auto intro: converse_rtranclp_into_rtranclp)
  next
    case (Sending n w want ok)
    from sent [OF this] assms obtain s2 where "step b cfg self s s2" "?P s2" by blast
    then show ?thesis by (intro exI [of _ s2]) auto
  qed
qed

lemma command_gets_claimed:
  assumes "\<not> cn_panicked s" and "cn_loop s = Ready"
  shows "\<exists>s'. (step b cfg self)\<^sup>*\<^sup>* s s' \<and> cn_loop s' = Ready \<and> cn_seen s' = cn_seen s \<and> (\<forall>k n w. cn_phase s' \<noteq> Claimed k n w)"
proof (cases "cn_phase s")
  case (Claimed k n w)
  show ?thesis
  proof (cases "k = Sftp")
    case True
    show ?thesis
      by (rule exI, rule conjI, rule r_into_rtranclp, rule step.begin_sftp [OF Claimed [unfolded True] assms(1)])
        (simp add: assms(2))
  next
    case False
    show ?thesis
      by (rule exI, rule conjI, rule r_into_rtranclp, rule step.begin_command [OF Claimed False assms(1)])
        (simp add: assms(2))
  qed
qed (use assms(2) in auto)

text \<open>
  C14: a session can always answer. From every state a session can reach, whatever its goroutines are at, there is a way
  on in which the client sends nothing more and every request that wants a reply has got exactly one:
  the request loop never waits for the applier of window sizes or for a command.
\<close>

theorem session_progress:
  assumes "reachable b cfg self sock s"
  shows "\<exists>s'. (step b cfg self)\<^sup>*\<^sup>* s s' \<and> cn_seen s' = cn_seen s \<and> cn_loop s' = Ready
    \<and> mset (concat (map replied (cn_out s'))) = mset (asked (cn_seen s))"
proof -
  have calm: "\<not> cn_panicked s" using reachable_inv [OF assms] by (simp add: session_inv_def)
  obtain s1 where s1: "(step b cfg self)\<^sup>*\<^sup>* s s1" "cn_loop s1 = Ready" "cn_seen s1 = cn_seen s" "\<not> cn_panicked s1"
    using loop_gets_ready [OF calm, of b cfg self] by blast
  obtain s2 where s2: "(step b cfg self)\<^sup>*\<^sup>* s1 s2" "cn_loop s2 = Ready" "cn_seen s2 = cn_seen s1"
      "\<forall>k n w. cn_phase s2 \<noteq> Claimed k n w"
    using command_gets_claimed [OF s1(4,2), of b cfg self] by blast
  have steps: "(step b cfg self)\<^sup>*\<^sup>* s s2" using s1(1) s2(1) by (rule rtranclp_trans)
  then have "session_inv s2" using assms by (meson reachable_inv rtranclp_trans)
  moreover have "owed_phase (cn_phase s2) = []" using s2(4) by (cases "cn_phase s2") auto
  ultimately have "mset (concat (map replied (cn_out s2))) = mset (asked (cn_seen s))"
    using s1(3) s2(2,3) by (simp add: session_inv_def reply_inv_def)
  with steps s1(3) s2(2,3) show ?thesis by metis
qed

section \<open>What a session runs\<close>

definition asked_for :: "request list \<Rightarrow> command_kind \<Rightarrow> bool" where
  "asked_for rs k \<longleftrightarrow> list_ex (\<lambda>r. case k of
       Shell \<Rightarrow> rq_type r = ''shell''
     | Exec t \<Rightarrow> rq_type r = ''exec'' \<and> string_or_empty (rq_payload r) = Got t
     | Sftp \<Rightarrow> rq_type r = ''subsystem'' \<and> string_or_empty (rq_payload r) = Got ''sftp'') rs"

text \<open>What a request tells of the terminal and the environment, and what the requests so far have told.\<close>

definition learn :: "request \<Rightarrow> params \<Rightarrow> params" where
  "learn r p =
     (if rq_type r = ''pty-req'' then
        (case parse_pty_req (rq_payload r) of Got q \<Rightarrow> p\<lparr>pa_pty := True, pa_term := pq_term q\<rparr> | _ \<Rightarrow> p)
      else if rq_type r = ''env'' then
        (case parse_env (rq_payload r) of Got (k, v) \<Rightarrow> p\<lparr>pa_env := map_put k v (pa_env p)\<rparr> | _ \<Rightarrow> p)
      else p)"

definition told :: "request list \<Rightarrow> params" where
  "told rs = fold learn rs \<lparr>pa_pty = False, pa_term = [], pa_env = []\<rparr>"

definition launched :: "box \<Rightarrow> agent_config \<Rightarrow> string \<Rightarrow> request list \<Rightarrow> launch \<Rightarrow> bool" where
  "launched b cfg self seen l \<longleftrightarrow>
     (\<exists>rs qs k sock. seen = rs @ qs \<and> asked_for rs k \<and> l = build_command b cfg self sock (told rs) k)"

definition confined :: "box \<Rightarrow> agent_config \<Rightarrow> string \<Rightarrow> conn \<Rightarrow> bool" where
  "confined b cfg self s \<longleftrightarrow>
     snapshot s = told (cn_seen s)
     \<and> (case cn_phase s of
          Claimed k n w \<Rightarrow> asked_for (cn_seen s) k
        | Starting l \<Rightarrow> launched b cfg self (cn_seen s) l
        | Running l \<Rightarrow> launched b cfg self (cn_seen s) l
        | _ \<Rightarrow> True)"

lemma launchedI: "asked_for rs k \<Longrightarrow> launched b cfg self rs (build_command b cfg self sock (told rs) k)"
  unfolding launched_def by (rule exI [of _ rs], rule exI [of _ "[]"]) auto

lemma launched_more: "launched b cfg self rs l \<Longrightarrow> launched b cfg self (rs @ qs) l"
  unfolding launched_def by (elim exE) (metis append_assoc)

lemma asked_for_more: "asked_for rs k \<Longrightarrow> asked_for (rs @ qs) k" "asked_for qs k \<Longrightarrow> asked_for (rs @ qs) k"
  by (simp_all add: asked_for_def)

lemma snapshot_keeps [simp]: "snapshot (s\<lparr>cn_loop := l\<rparr>) = snapshot s" "snapshot (s\<lparr>cn_slot := w\<rparr>) = snapshot s"
    "snapshot (s\<lparr>cn_phase := p\<rparr>) = snapshot s" "snapshot (s\<lparr>cn_out := out\<rparr>) = snapshot s"
    "snapshot (s\<lparr>cn_applied := ws\<rparr>) = snapshot s" "snapshot (s\<lparr>cn_sock := k\<rparr>) = snapshot s"
  by (simp_all add: snapshot_def)

lemma handle_snapshot: "snapshot (handle cfg sock r s) = learn r (snapshot s)"
proof -
  have "snapshot (with_string f r s1) = snapshot s1" if "\<And>t. snapshot (f t s1) = snapshot s1" for f s1
    using that by (auto simp: with_string_def snapshot_def split: sliced.split)
  moreover have "snapshot (spawn r n k s1) = snapshot s1" for n k s1
    by (simp add: spawn_def) (simp add: snapshot_def)
  moreover have "snapshot (handle_agent_req cfg sock r n s1) = snapshot s1"
      "snapshot (handle_window_change r n s1) = snapshot s1" for n s1
    by (auto simp: handle_agent_req_def handle_window_change_def split: option.split) (simp add: snapshot_def)
  moreover have "snapshot (s\<lparr>cn_seen := rs\<rparr>) = snapshot s" for rs by (simp add: snapshot_def)
  ultimately show ?thesis
    by (auto simp: handle_def Let_def learn_def handle_pty_req_def handle_env_def snapshot_def reply_def
        split: sliced.split)
qed

lemma handle_phase:
  "cn_seen (handle cfg sock r s) = cn_seen s @ [r]
   \<and> (cn_phase (handle cfg sock r s) = cn_phase s
      \<or> (\<exists>k n w. cn_phase (handle cfg sock r s) = Claimed k n w \<and> asked_for [r] k))"
proof -
  define s1 where "s1 = s\<lparr>cn_seen := cn_seen s @ [r]\<rparr>"
  have s1: "cn_seen s1 = cn_seen s @ [r]" "cn_phase s1 = cn_phase s" by (simp_all add: s1_def)
  define P where "P s' \<longleftrightarrow> cn_seen s' = cn_seen s @ [r]
      \<and> (cn_phase s' = cn_phase s \<or> (\<exists>k n w. cn_phase s' = Claimed k n w \<and> asked_for [r] k))" for s' :: conn
  let ?n = "length (cn_seen s)"
  have "P (handle_pty_req r ?n s1)" "P (handle_env r ?n s1)" "P (handle_window_change r ?n s1)"
    "P (handle_agent_req cfg sock r ?n s1)" and reply: "P (reply ?n w ok s1)" for w ok
    by (simp_all add: P_def s1 handle_pty_req_def handle_env_def handle_window_change_def handle_agent_req_def
        split: sliced.split option.split)
  moreover have spawn: "P (spawn r ?n k s1)" if "asked_for [r] k" for k
    using that by (auto simp: P_def spawn_def s1)
  moreover have "P (with_string f r s1)" if "\<And>t. string_or_empty (rq_payload r) = Got t \<Longrightarrow> P (f t s1)" for f
    using that by (auto simp: with_string_def P_def s1 split: sliced.split)
  ultimately have "P (handle cfg sock r s)"
    by (simp add: handle_def Let_def asked_for_def flip: s1_def)
  then show ?thesis by (simp add: P_def)
qed

lemma handle_confined:
  assumes "confined b cfg self s"
  shows "confined b cfg self (handle cfg sock r s)"
proof -
  have "snapshot (handle cfg sock r s) = told (cn_seen (handle cfg sock r s))"
    using assms handle_phase [of cfg sock r s] by (simp add: handle_snapshot confined_def told_def)
  then show ?thesis
    using assms handle_phase [of cfg sock r s] asked_for_more launched_more
    by (auto simp: confined_def split: phase.splits)
qed

lemma step_confined: "step b cfg self s s' \<Longrightarrow> confined b cfg self s \<Longrightarrow> confined b cfg self s'"
proof (induction rule: step.induct)
  case (receive s r sock)
  then show ?case by (simp add: handle_confined)
qed (auto simp: confined_def finish_def simp del: build_command.simps intro: launchedI split: option.splits phase.splits)

lemma reachable_confined: "reachable b cfg self sock s \<Longrightarrow> confined b cfg self s"
proof (induction rule: rtranclp_induct)
  case base
  show ?case by (simp add: confined_def new_conn_def snapshot_def told_def)
next
  case (step s s')
  then show ?case by (simp add: step_confined)
qed


text \<open>
  The replies can come in another order than the requests: the command's goroutine answers its own
  request while the loop goes on, so the client may take the refusal of a later request for that of
  its shell, as SSH matches replies by order alone.
\<close>

definition demo_request :: "string \<Rightarrow> request" where
  "demo_request t = \<lparr>rq_type = t, rq_want = True, rq_payload = []\<rparr>"

definition demo_loop :: "agent_config \<Rightarrow> conn" where
  "demo_loop cfg = handle cfg None (demo_request ''keepalive@openssh.com'')
     (handle cfg None (demo_request ''shell'') (new_conn []))"

lemma demo_loop_reachable: "reachable b cfg self [] (demo_loop cfg)"
proof -
  let ?s1 = "handle cfg None (demo_request ''shell'') (new_conn [])"
  have "step b cfg self (new_conn []) ?s1"
    by (rule step.receive) (simp_all add: new_conn_def demo_request_def)
  moreover have "step b cfg self ?s1 (demo_loop cfg)"
    unfolding demo_loop_def
    by (rule step.receive) (simp_all add: new_conn_def demo_request_def handle_def spawn_def)
  ultimately show ?thesis by (meson converse_rtranclp_into_rtranclp rtranclp.rtrancl_refl)
qed

lemma demo_loop: "cn_out (demo_loop cfg) = [Reply 1 False]" "cn_phase (demo_loop cfg) = Claimed Shell 0 True"
    "\<not> cn_panicked (demo_loop cfg)"
  by (simp_all add: demo_loop_def demo_request_def new_conn_def handle_def spawn_def reply_def)

lemma session_progress_witness:
  "\<forall>b cfg self. \<exists>s. (step b cfg self)\<^sup>*\<^sup>* (demo_loop cfg) s \<and> mset (concat (map replied (cn_out s))) = {#0, 1#}"
proof (intro allI)
  fix b cfg self
  have "asked (cn_seen (demo_loop cfg)) = [0, 1]"
    by (simp add: demo_loop_def demo_request_def new_conn_def handle_def spawn_def reply_def asked_def)
  with session_progress [OF demo_loop_reachable [of b cfg self]]
  show "\<exists>s. (step b cfg self)\<^sup>*\<^sup>* (demo_loop cfg) s \<and> mset (concat (map replied (cn_out s))) = {#0, 1#}"
    by auto
qed


lemma replies_can_swap: "\<exists>s. reachable b cfg self [] s \<and> cn_out s = [Reply 1 False, Reply 0 True]"
proof -
  obtain s where "step b cfg self (demo_loop cfg) s" "cn_out s = [Reply 1 False, Reply 0 True]"
    using step.begin_command [OF demo_loop(2) [of cfg] _ demo_loop(3), of b cfg self] demo_loop(1) [of cfg]
    by (auto simp: reply_def)
  with demo_loop_reachable [of b cfg self] show ?thesis by (meson rtranclp.rtrancl_into_rtrancl)
qed

definition demo_config :: agent_config where
  "demo_config = \<lparr>ac_authorized = [''key''], ac_user = [], ac_cwd = [], ac_env = [], ac_forwarding = False\<rparr>"

lemma session_safe_witness:
  "mset (concat (map replied (cn_out (demo_loop demo_config)))) + mset (owed_phase (cn_phase (demo_loop demo_config))) = {#0, 1#}"
proof -
  have "cn_loop (demo_loop demo_config) = Ready" "asked (cn_seen (demo_loop demo_config)) = [0, 1]"
    by (simp_all add: demo_loop_def demo_request_def new_conn_def handle_def spawn_def reply_def asked_def)
  with session_safe [OF demo_loop_reachable, of demo_config] show ?thesis by simp
qed

end
