(* ===== verification/Forward.thy ===== *)
theory Forward
  imports Prelude Wire
begin

text \<open>
  Remote forwards (\<open>agent/forward.go\<close>): the listeners a connection asked for, kept by the address and port
  they are bound to. Decoding the request (\<open>ssh.Unmarshal\<close>) and listening are the library's and the
  kernel's: \<open>None\<close> when they fail, a listener and its port when they succeed. Copying bytes is in \<open>Bridge\<close>.
\<close>

section \<open>Keys\<close>

abbreviation COLON :: char where
  "COLON \<equiv> CHR '':''"

text \<open>\<open>net.JoinHostPort\<close> and \<open>forwardKey\<close>.\<close>

definition join_host_port :: "string \<Rightarrow> string \<Rightarrow> string" where
  "join_host_port host port = (if COLON \<in> set host then ''['' @ host @ '']:'' @ port else host @ '':'' @ port)"

definition forward_key :: "string \<Rightarrow> 32 word \<Rightarrow> string" where
  "forward_key addr port = join_host_port addr (nat_digits (unat port))"

section \<open>Operations\<close>

record forwards =
  fw_ln :: "string \<Rightarrow> nat option"
  fw_open :: "nat set"

record forward_request =
  fr_addr :: string
  fr_port :: "32 word"

definition no_forwards :: forwards where
  "no_forwards = \<lparr>fw_ln = (\<lambda>_. None), fw_open = {}\<rparr>"

text \<open>The reply: refused, or accepted with the port when the client left it to the agent.\<close>

datatype forward_reply = Refused | Accepted "32 word option"

definition forward_start :: "forward_request option \<Rightarrow> (nat \<times> 32 word) option \<Rightarrow> forwards \<Rightarrow> forward_reply \<times> forwards" where
  "forward_start req listened f =
     (case req of
        None \<Rightarrow> (Refused, f)
      | Some q \<Rightarrow>
          (case listened of
             None \<Rightarrow> (Refused, f)
           | Some (l, port) \<Rightarrow>
               (Accepted (if fr_port q = 0 then Some port else None),
                f\<lparr>fw_ln := (fw_ln f)(forward_key (fr_addr q) port \<mapsto> l), fw_open := insert l (fw_open f)\<rparr>)))"

definition forward_cancel :: "forward_request option \<Rightarrow> forwards \<Rightarrow> forward_reply \<times> forwards" where
  "forward_cancel req f =
     (case req of
        None \<Rightarrow> (Refused, f)
      | Some q \<Rightarrow>
          let k = forward_key (fr_addr q) (fr_port q) in
          (Accepted None,
           f\<lparr>fw_ln := (fw_ln f)(k := None),
             fw_open := (case fw_ln f k of None \<Rightarrow> fw_open f | Some l \<Rightarrow> fw_open f - {l})\<rparr>))"

definition close_all :: "forwards \<Rightarrow> forwards" where
  "close_all f = \<lparr>fw_ln = (\<lambda>_. None), fw_open = fw_open f - ran (fw_ln f)\<rparr>"

text \<open>\<open>handleGlobalRequests\<close>: one request after the other.\<close>

datatype global_request = Forward "forward_request option" "(nat \<times> 32 word) option"
  | Cancel "forward_request option" | Other

definition global_step :: "global_request \<Rightarrow> forwards \<Rightarrow> forward_reply \<times> forwards" where
  "global_step g f =
     (case g of Forward req listened \<Rightarrow> forward_start req listened f
      | Cancel req \<Rightarrow> forward_cancel req f | Other \<Rightarrow> (Refused, f))"

fun global_run :: "global_request list \<Rightarrow> forwards \<Rightarrow> forward_reply list \<times> forwards" where
  "global_run [] f = ([], f)"
| "global_run (g # gs) f =
     (case global_step g f of (r, f') \<Rightarrow> (case global_run gs f' of (rs, f'') \<Rightarrow> (r # rs, f'')))"

section \<open>No listener is lost\<close>

lemma nat_digits_no_colon: "COLON \<notin> set (nat_digits n)"
  using nat_digits_digits [of n] by (auto simp: list_all_iff is_digit_def)

lemma join_host_port_inj:
  assumes "COLON \<notin> set p" "COLON \<notin> set q" and eq: "join_host_port a p = join_host_port b q"
  shows "a = b \<and> p = q"
proof -
  define u where "u h = (if COLON \<in> set h then ''['' @ h @ '']'' else h)" for h
  have j: "join_host_port h r = u h @ COLON # r" for h r by (simp add: join_host_port_def u_def)
  have "rev (u a @ COLON # p) = rev (u b @ COLON # q)" using eq by (simp add: j)
  then have "rev p @ COLON # rev (u a) = rev q @ COLON # rev (u b)" by simp
  then have "rev p = rev q \<and> rev (u a) = rev (u b)"
    using assms(1,2) takeWhile_neq_append [of COLON "rev p"] takeWhile_neq_append [of COLON "rev q"]
      dropWhile_neq_append [of COLON "rev p"] dropWhile_neq_append [of COLON "rev q"]
    by (metis list.inject set_rev)
  then have "p = q" "u a = u b" by simp_all
  moreover have "a = b" if "u a = u b"
    using that by (auto simp: u_def split: if_splits)
  ultimately show ?thesis by simp
qed

lemma forward_key_inj: "forward_key a p = forward_key b q \<longleftrightarrow> a = b \<and> p = q"
proof -
  have "nat_digits m = nat_digits n \<Longrightarrow> m = n" for m n by (metis digits_val_nat_digits)
  then have "nat_digits (unat p) = nat_digits (unat q) \<longleftrightarrow> p = q" using unsigned_word_eqI [of p q] by auto
  then show ?thesis
    using join_host_port_inj [OF nat_digits_no_colon nat_digits_no_colon, of a "unat p" b "unat q"]
    by (auto simp: forward_key_def)
qed

text \<open>
  What the kernel does: a listener it opens is a new one, on an address and port that no open listener
  has.
\<close>

definition kernel_step :: "global_request \<Rightarrow> forwards \<Rightarrow> bool" where
  "kernel_step g f =
     (case g of
        Forward (Some q) (Some (l, port)) \<Rightarrow> l \<notin> fw_open f \<and> fw_ln f (forward_key (fr_addr q) port) = None
      | _ \<Rightarrow> True)"

fun kernel_allows :: "global_request list \<Rightarrow> forwards \<Rightarrow> bool" where
  "kernel_allows [] f = True"
| "kernel_allows (g # gs) f \<longleftrightarrow> kernel_step g f \<and> kernel_allows gs (snd (global_step g f))"

definition tracked :: "forwards \<Rightarrow> bool" where
  "tracked f \<longleftrightarrow> fw_open f = ran (fw_ln f) \<and> inj_on (fw_ln f) (dom (fw_ln f))"

lemma ran_delete: "inj_on m (dom m) \<Longrightarrow> m k = Some l \<Longrightarrow> ran (m(k := None)) = ran m - {l}"
  by (auto simp: ran_def inj_on_def dom_def) (metis option.inject)

lemma tracked_insert:
  assumes "tracked f" and "l \<notin> fw_open f" and "fw_ln f k = None"
  shows "tracked (f\<lparr>fw_ln := (fw_ln f)(k \<mapsto> l), fw_open := insert l (fw_open f)\<rparr>)"
proof -
  have l: "fw_ln f j \<noteq> Some l" for j using assms by (auto simp: tracked_def ran_def)
  have "inj_on ((fw_ln f)(k \<mapsto> l)) (dom ((fw_ln f)(k \<mapsto> l)))"
    using assms(1) l by (auto simp: tracked_def inj_on_def dom_def split: if_splits)
  then show ?thesis using assms by (simp add: tracked_def)
qed

lemma tracked_step: "tracked f \<Longrightarrow> kernel_step g f \<Longrightarrow> tracked (snd (global_step g f))"
proof (cases g)
  case (Forward req listened)
  assume "tracked f" "kernel_step g f"
  then show ?thesis using Forward
    by (cases req; cases listened)
      (auto simp: global_step_def forward_start_def kernel_step_def intro: tracked_insert)
next
  case (Cancel req)
  assume t: "tracked f" "kernel_step g f"
  show ?thesis
  proof (cases req)
    case (Some q)
    show ?thesis
    proof (cases "fw_ln f (forward_key (fr_addr q) (fr_port q))")
      case None
      then have "(fw_ln f)(forward_key (fr_addr q) (fr_port q) := None) = fw_ln f" by (simp add: fun_upd_idem)
      with t Cancel Some None show ?thesis by (simp add: global_step_def forward_cancel_def tracked_def)
    next
      case l: (Some l)
      with t Cancel Some show ?thesis
        by (auto simp: global_step_def forward_cancel_def tracked_def ran_delete inj_on_def)
    qed
  qed (use t Cancel in \<open>simp add: global_step_def forward_cancel_def\<close>)
qed (simp add: global_step_def)

lemma tracked_run: "tracked f \<Longrightarrow> kernel_allows gs f \<Longrightarrow> global_run gs f = (rs, f') \<Longrightarrow> tracked f'"
proof (induction gs arbitrary: f rs)
  case (Cons g gs)
  obtain r f1 where g: "global_step g f = (r, f1)" by fastforce
  with tracked_step [OF Cons.prems(1), of g] Cons.prems show ?case
    by (auto split: prod.splits intro: Cons.IH)
qed simp

text \<open>
  C29: no listener is lost. Whatever remote forwards a client starts and cancels, as long as the kernel
  never opens a listener on an address that is taken, the listeners that are open are exactly those the
  connection knows, so the end of the connection closes all of them; and cancelling a forward by
  its address and port, the one the agent reported when the client left it open, closes
  that one listener and no other.
\<close>

theorem forwards_tracked:
  assumes "kernel_allows gs no_forwards" and "global_run gs no_forwards = (rs, f)"
  shows "fw_open f = ran (fw_ln f) \<and> fw_open (close_all f) = {}
    \<and> (fw_ln f (forward_key a p) = Some l \<longrightarrow>
         (let f' = snd (forward_cancel (Some \<lparr>fr_addr = a, fr_port = p\<rparr>) f) in
          fw_open f' = fw_open f - {l} \<and> l \<in> fw_open f
          \<and> (\<forall>b q. fw_ln f' (forward_key b q) = (if b = a \<and> q = p then None else fw_ln f (forward_key b q)))))"
proof -
  have "tracked no_forwards" by (simp add: tracked_def no_forwards_def)
  with tracked_run assms have "tracked f" by blast
  then show ?thesis
    by (auto simp: tracked_def close_all_def forward_cancel_def forward_key_inj ranI)
qed

lemma forwards_tracked_witness:
  "let gs = [Forward (Some \<lparr>fr_addr = ''localhost'', fr_port = 0\<rparr>) (Some (1, 4000)),
             Forward (Some \<lparr>fr_addr = ''localhost'', fr_port = 80\<rparr>) (Some (2, 80))];
       f = snd (global_run gs no_forwards)
   in fw_open (close_all f) = {}
      \<and> fw_open (snd (forward_cancel (Some \<lparr>fr_addr = ''localhost'', fr_port = 4000\<rparr>) f)) = {2}"
proof -
  let ?gs = "[Forward (Some \<lparr>fr_addr = ''localhost'', fr_port = 0\<rparr>) (Some (1, 4000)),
             Forward (Some \<lparr>fr_addr = ''localhost'', fr_port = 80\<rparr>) (Some (2, 80))]"
  obtain rs f where run: "global_run ?gs no_forwards = (rs, f)" by fastforce
  have "kernel_allows ?gs no_forwards"
    by (simp add: kernel_step_def no_forwards_def global_step_def forward_start_def forward_key_inj)
  from forwards_tracked [OF this run, of "''localhost''" 4000 1] run show ?thesis
    by (auto simp: no_forwards_def global_step_def forward_start_def forward_key_inj Let_def)
qed

end

