(* ===== verification/AgentServer.thy ===== *)
theory AgentServer
  imports AgentSession Forward Keys ContainerEnv
begin

text \<open>
  The agent as a whole: how it is started (\<open>cmd/devc/serve.go\<close>, \<open>NewServer\<close>) and a connection it serves
  (\<open>agent/server.go\<close>, \<open>agent/agentfwd.go\<close>), composed of its sessions, the remote forwards and the socket of
  agent forwarding. The handshake is the library's: it calls \<open>authenticate\<close> and goes on only with a key that
  was accepted. Every goroutine's turn is a step; requests that were queued when the connection ended may still be
  handled afterwards. The copying of bytes between channels and sockets is in \<open>Bridge\<close>.
\<close>

section \<open>Starting the agent\<close>

datatype start_error = BadOptions serve_error | NoHostKey | NoAuthorized | KeyRequired

text \<open>\<open>LoadSigner\<close>; \<open>parse\<close> is \<open>ssh.ParsePrivateKey\<close>.\<close>

definition load_signer :: "(string \<Rightarrow> 'h option) \<Rightarrow> string \<Rightarrow> 'z machine_scheme \<Rightarrow> 'h option" where
  "load_signer parse p m = (case read_file p m of Inl _ \<Rightarrow> None | Inr t \<Rightarrow> parse t)"

definition new_server :: "'h option \<Rightarrow> agent_config \<Rightarrow> start_error + 'h \<times> agent_config" where
  "new_server host cfg =
     (case host of
        None \<Rightarrow> Inl KeyRequired
      | Some h \<Rightarrow> if ac_authorized cfg = [] then Inl KeyRequired else Inr (h, cfg))"

text \<open>\<open>runServe\<close> up to \<open>Serve\<close>. Keys are what \<open>Marshal\<close> gives; \<open>parse\<close> is \<open>ssh.ParseAuthorizedKey\<close>.\<close>

definition start_agent :: "(string \<Rightarrow> 'h option) \<Rightarrow> (string \<Rightarrow> (string \<times> string) option) \<Rightarrow> string list
    \<Rightarrow> 'z machine_scheme \<Rightarrow> start_error + 'h \<times> agent_config" where
  "start_agent parse_private parse args m =
     (case serve_options args of
        Inl e \<Rightarrow> Inl (BadOptions e)
      | Inr f \<Rightarrow>
      (case load_signer parse_private (sf_host_key f) m of
        None \<Rightarrow> Inl NoHostKey
      | Some h \<Rightarrow>
      (case load_authorized parse (sf_authorized f) m of
        None \<Rightarrow> Inl NoAuthorized
      | Some ks \<Rightarrow>
          new_server (Some h)
            \<lparr>ac_authorized = ks, ac_user = sf_user f, ac_cwd = sf_cwd f,
             ac_env = read_env_file
               (if sf_env_file f = [] then None
                else (case read_file (sf_env_file f) m of Inl _ \<Rightarrow> None | Inr t \<Rightarrow> Some t)),
             ac_forwarding = sf_forward_agent f\<rparr>)))"

text \<open>
  \<open>initVersion\<close>: \<open>v\<close> is what the linker set, \<open>info\<close> the main module's version of the build info.
\<close>

definition init_version :: "string \<Rightarrow> string option \<Rightarrow> string" where
  "init_version v info =
     (if v \<noteq> ''0.0.0'' then v
      else (case info of None \<Rightarrow> v | Some w \<Rightarrow> if w \<noteq> [] \<and> w \<noteq> ''(devel)'' then w else v))"

section \<open>The state of a connection\<close>

record agent_forward =
  af_dir :: string
  af_sock :: string
  af_owner :: "(32 word \<times> 32 word) option"

text \<open>
  What became of channels: one of the client's was rejected (the message, without the system's error), or is
  bridged to a TCP address; the agent
  opened one towards the client, with its type and payload.
\<close>

datatype channel = Rejected string | Bridged string | Opened string string

text \<open>
  \<open>sv_key\<close> is the key the handshake accepted; \<open>sv_dirs\<close> and \<open>sv_sockets\<close> are the temporary directories and
  Unix sockets of the agent that exist.
\<close>

record server =
  sv_key :: "string option"
  sv_closed :: bool
  sv_sessions :: "conn list"
  sv_fwd :: "agent_forward option"
  sv_dirs :: "string set"
  sv_sockets :: "string set"
  sv_forwards :: forwards
  sv_channels :: "channel list"

definition listening :: server where
  "listening = \<lparr>sv_key = None, sv_closed = False, sv_sessions = [], sv_fwd = None, sv_dirs = {}, sv_sockets = {},
     sv_forwards = no_forwards, sv_channels = []\<rparr>"

section \<open>Agent forwarding\<close>

definition agent_sock :: "server \<Rightarrow> string" where
  "agent_sock s = (case sv_fwd s of None \<Rightarrow> [] | Some f \<Rightarrow> af_sock f)"

text \<open>
  \<open>made\<close> is the directory \<open>os.MkdirTemp\<close> made, if it could, and \<open>ok\<close> whether the socket could be listened on;
  otherwise the directory is removed again. The owner is who \<open>os.Chown\<close> is asked to give both to.
\<close>

definition new_agent_forward :: "user_info \<Rightarrow> string option \<Rightarrow> bool \<Rightarrow> agent_forward option" where
  "new_agent_forward u made ok =
     (case made of
        None \<Rightarrow> None
      | Some d \<Rightarrow>
          if \<not> ok then None
          else Some \<lparr>af_dir = d, af_sock = path_join [d, ''agent.sock''],
                     af_owner = (if ui_set_cred u then Some (ui_uid u, ui_gid u) else None)\<rparr>)"

definition ensure_agent_forward :: "box \<Rightarrow> agent_config \<Rightarrow> string option \<Rightarrow> bool \<Rightarrow> server \<Rightarrow> string option \<times> server" where
  "ensure_agent_forward b cfg made ok s =
     (case sv_fwd s of
        Some f \<Rightarrow> (Some (af_sock f), s)
      | None \<Rightarrow>
          (case new_agent_forward (resolve_user b (ac_user cfg)) made ok of
             None \<Rightarrow> (None, s)
           | Some f \<Rightarrow>
               (Some (af_sock f), s\<lparr>sv_fwd := Some f, sv_dirs := insert (af_dir f) (sv_dirs s),
                  sv_sockets := insert (af_sock f) (sv_sockets s)\<rparr>)))"

definition close_agent_forward :: "server \<Rightarrow> server" where
  "close_agent_forward s =
     (case sv_fwd s of
        None \<Rightarrow> s
      | Some f \<Rightarrow> s\<lparr>sv_fwd := None, sv_dirs := sv_dirs s - {af_dir f}, sv_sockets := sv_sockets s - {af_sock f}\<rparr>)"

text \<open>A session reads the socket from the server; here each holds a copy, kept equal.\<close>

definition share :: "server \<Rightarrow> server" where
  "share s = s\<lparr>sv_sessions := map (\<lambda>c. c\<lparr>cn_sock := agent_sock s\<rparr>) (sv_sessions s)\<rparr>"

section \<open>Channels\<close>

text \<open>No payload of less than \<open>2 ^ 32\<close> bytes makes the parser panic.\<close>

definition open_direct :: "string \<Rightarrow> bool \<Rightarrow> server \<Rightarrow> server" where
  "open_direct data dialed s =
     (case parse_direct_tcpip data of
        Got d \<Rightarrow>
          let addr = join_host_port (dt_host d) (nat_digits (unat (dt_port d)))
          in s\<lparr>sv_channels := sv_channels s @ [if dialed then Bridged addr else Rejected (''dial '' @ addr)]\<rparr>
      | _ \<Rightarrow> s\<lparr>sv_channels := sv_channels s @ [Rejected ''bad direct-tcpip payload'']\<rparr>)"

text \<open>\<open>ssh.Marshal\<close> of \<open>forwardedTCPIP\<close>.\<close>

definition forwarded_payload :: "string \<Rightarrow> 32 word \<Rightarrow> string \<Rightarrow> 32 word \<Rightarrow> string" where
  "forwarded_payload addr port oaddr oport = put_string addr @ put32 port @ put_string oaddr @ put32 oport"

definition forward_conn :: "string \<Rightarrow> 32 word \<Rightarrow> string \<Rightarrow> 32 word \<Rightarrow> server \<Rightarrow> server" where
  "forward_conn addr port oaddr oport s =
     s\<lparr>sv_channels := sv_channels s @ [Opened ''forwarded-tcpip'' (forwarded_payload addr port oaddr oport)]\<rparr>"

definition forward_agent_conn :: "server \<Rightarrow> server" where
  "forward_agent_conn s = s\<lparr>sv_channels := sv_channels s @ [Opened ''auth-agent@openssh.com'' []]\<rparr>"

text \<open>A request to a session. That for agent forwarding, if allowed, first makes the connection's socket.\<close>

definition session_request :: "box \<Rightarrow> agent_config \<Rightarrow> string option \<Rightarrow> bool \<Rightarrow> nat \<Rightarrow> request \<Rightarrow> server \<Rightarrow> server" where
  "session_request b cfg made ok i r s =
     (case (if rq_type r = ''auth-agent-req@openssh.com'' \<and> ac_forwarding cfg
            then ensure_agent_forward b cfg made ok s else (None, s)) of
        (sock, s1) \<Rightarrow> share (s1\<lparr>sv_sessions := (sv_sessions s)[i := handle cfg sock r (sv_sessions s ! i)]\<rparr>))"

text \<open>The deferred calls of \<open>Serve\<close>.\<close>

definition close_server :: "server \<Rightarrow> server" where
  "close_server s = share (close_agent_forward (s\<lparr>sv_forwards := close_all (sv_forwards s), sv_closed := True\<rparr>))"

section \<open>Steps\<close>

text \<open>
  \<open>refuse\<close> is a handshake that failed, \<open>turn\<close> a step of a session's other goroutines, \<open>dial_in\<close> a connection
  to a forwarded port, \<open>use_agent\<close> one to the agent socket. A temporary directory is a new one.
\<close>

inductive serve :: "box \<Rightarrow> agent_config \<Rightarrow> string \<Rightarrow> server \<Rightarrow> server \<Rightarrow> bool"
  for b :: box and cfg :: agent_config and self :: string where
  accept_key: "sv_key s = None \<Longrightarrow> \<not> sv_closed s \<Longrightarrow> authenticate cfg k \<Longrightarrow> serve b cfg self s (s\<lparr>sv_key := Some k\<rparr>)"
| refuse: "sv_key s = None \<Longrightarrow> serve b cfg self s (s\<lparr>sv_closed := True\<rparr>)"
| open_session: "sv_key s \<noteq> None \<Longrightarrow> \<not> sv_closed s \<Longrightarrow>
    serve b cfg self s (s\<lparr>sv_sessions := sv_sessions s @ [new_conn (agent_sock s)]\<rparr>)"
| open_direct: "sv_key s \<noteq> None \<Longrightarrow> \<not> sv_closed s \<Longrightarrow> length data < 2 ^ 32 \<Longrightarrow>
    serve b cfg self s (open_direct data dialed s)"
| open_unknown: "sv_key s \<noteq> None \<Longrightarrow> \<not> sv_closed s \<Longrightarrow> t \<notin> {''session'', ''direct-tcpip''} \<Longrightarrow>
    serve b cfg self s (s\<lparr>sv_channels := sv_channels s @ [Rejected (''unsupported channel type: '' @ t)]\<rparr>)"
| request: "i < length (sv_sessions s) \<Longrightarrow> cn_loop (sv_sessions s ! i) = Ready \<Longrightarrow> length (rq_payload r) < 2 ^ 32 \<Longrightarrow>
    \<not> cn_panicked (sv_sessions s ! i) \<Longrightarrow> (\<And>d. made = Some d \<Longrightarrow> d \<notin> sv_dirs s) \<Longrightarrow>
    serve b cfg self s (session_request b cfg made ok i r s)"
| turn: "i < length (sv_sessions s) \<Longrightarrow> step b cfg self (sv_sessions s ! i) c \<Longrightarrow>
    cn_seen c = cn_seen (sv_sessions s ! i) \<Longrightarrow> cn_sock c = cn_sock (sv_sessions s ! i) \<Longrightarrow>
    serve b cfg self s (s\<lparr>sv_sessions := (sv_sessions s)[i := c]\<rparr>)"
| global: "sv_key s \<noteq> None \<Longrightarrow> kernel_step g (sv_forwards s) \<Longrightarrow>
    serve b cfg self s (s\<lparr>sv_forwards := snd (global_step g (sv_forwards s))\<rparr>)"
| dial_in: "fw_ln (sv_forwards s) (forward_key a p) = Some l \<Longrightarrow> l \<in> fw_open (sv_forwards s) \<Longrightarrow>
    serve b cfg self s (forward_conn a p oa op s)"
| use_agent: "sv_fwd s = Some f \<Longrightarrow> af_sock f \<in> sv_sockets s \<Longrightarrow>
    serve b cfg self s (forward_agent_conn s)"
| close: "sv_key s \<noteq> None \<Longrightarrow> \<not> sv_closed s \<Longrightarrow> serve b cfg self s (close_server s)"

abbreviation served :: "box \<Rightarrow> agent_config \<Rightarrow> string \<Rightarrow> server \<Rightarrow> bool" where
  "served b cfg self s \<equiv> (serve b cfg self)\<^sup>*\<^sup>* listening s"

section \<open>Sessions of a connection are sessions\<close>

lemma agent_sock_share [simp]: "agent_sock (share s) = agent_sock s"
  by (simp add: agent_sock_def share_def)

lemma path_join_sock: "path_join [d, ''agent.sock''] \<noteq> []"
  using clean_not_Nil by (simp add: path_join_def)

lemma ensure_agent_forward_cases:
  assumes "ensure_agent_forward b cfg made ok s = (r, s1)"
  obtains (kept) "s1 = s" "r = (case sv_fwd s of None \<Rightarrow> None | Some f \<Rightarrow> Some (af_sock f))"
  | (fresh) d f where "made = Some d" "sv_fwd s = None" "r = Some (af_sock f)" "af_dir f = d" "af_sock f = path_join [d, ''agent.sock'']"
      "s1 = s\<lparr>sv_fwd := Some f, sv_dirs := insert d (sv_dirs s), sv_sockets := insert (af_sock f) (sv_sockets s)\<rparr>"
proof (cases "\<exists>d. sv_fwd s = None \<and> made = Some d \<and> ok")
  case True
  then obtain d where d: "sv_fwd s = None" "made = Some d" ok by blast
  show thesis
    by (rule fresh [of d "\<lparr>af_dir = d, af_sock = path_join [d, ''agent.sock''],
        af_owner = (if ui_set_cred (resolve_user b (ac_user cfg))
          then Some (ui_uid (resolve_user b (ac_user cfg)), ui_gid (resolve_user b (ac_user cfg))) else None)\<rparr>"])
      (use assms d in \<open>simp_all add: ensure_agent_forward_def new_agent_forward_def\<close>)
next
  case False
  show thesis
    by (rule kept) (use assms False in \<open>simp_all add: ensure_agent_forward_def new_agent_forward_def
        split: option.splits if_splits\<close>)
qed

lemma reachable_sock:
  assumes "reachable b cfg self k c"
  shows "reachable b cfg self k (c\<lparr>cn_sock := p\<rparr>)"
proof -
  have c: "\<not> cn_panicked c" using reachable_inv [OF assms] by (simp add: session_inv_def)
  have "step b cfg self c (c\<lparr>cn_sock := []\<rparr>)" by (rule step.forward_closed [OF c])
  moreover have "step b cfg self (c\<lparr>cn_sock := []\<rparr>) (c\<lparr>cn_sock := []\<rparr>\<lparr>cn_sock := p\<rparr>)"
    by (rule step.other_session) (simp_all add: c)
  ultimately have "(step b cfg self)\<^sup>*\<^sup>* c (c\<lparr>cn_sock := p\<rparr>)"
    by (simp add: converse_rtranclp_into_rtranclp r_into_rtranclp)
  with assms show ?thesis by (rule rtranclp_trans)
qed

section \<open>Invariant\<close>

definition session_ok :: "box \<Rightarrow> agent_config \<Rightarrow> string \<Rightarrow> string \<Rightarrow> conn \<Rightarrow> bool" where
  "session_ok b cfg self p c \<longleftrightarrow> cn_sock c = p \<and> (\<exists>k. reachable b cfg self k c)"

definition sessions_inv :: "box \<Rightarrow> agent_config \<Rightarrow> string \<Rightarrow> server \<Rightarrow> bool" where
  "sessions_inv b cfg self s \<longleftrightarrow> list_all (session_ok b cfg self (agent_sock s)) (sv_sessions s)"

definition socket_inv :: "agent_config \<Rightarrow> server \<Rightarrow> bool" where
  "socket_inv cfg s \<longleftrightarrow>
     sv_dirs s = af_dir ` set_option (sv_fwd s) \<and> sv_sockets s = af_sock ` set_option (sv_fwd s)
     \<and> (sv_fwd s \<noteq> None \<longrightarrow> ac_forwarding cfg)
     \<and> (\<forall>p. Opened ''auth-agent@openssh.com'' p \<in> set (sv_channels s) \<longrightarrow> ac_forwarding cfg)"

definition key_inv :: "agent_config \<Rightarrow> server \<Rightarrow> bool" where
  "key_inv cfg s \<longleftrightarrow>
     (case sv_key s of
        None \<Rightarrow> sv_sessions s = [] \<and> sv_channels s = [] \<and> sv_forwards s = no_forwards \<and> sv_fwd s = None
      | Some k \<Rightarrow> authenticate cfg k)"

definition server_inv :: "box \<Rightarrow> agent_config \<Rightarrow> string \<Rightarrow> server \<Rightarrow> bool" where
  "server_inv b cfg self s \<longleftrightarrow>
     sessions_inv b cfg self s \<and> socket_inv cfg s \<and> key_inv cfg s \<and> tracked (sv_forwards s)"

lemmas server_inv_defs = server_inv_def sessions_inv_def socket_inv_def key_inv_def

lemma no_forwards_tracked: "tracked no_forwards"
  by (simp add: tracked_def no_forwards_def)

lemma listening_inv: "server_inv b cfg self listening"
  by (simp add: server_inv_defs listening_def no_forwards_tracked)

lemma session_ok_sync: "session_ok b cfg self p c \<Longrightarrow> session_ok b cfg self q (c\<lparr>cn_sock := q\<rparr>)"
  by (auto simp: session_ok_def intro: reachable_sock)

lemma session_ok_new: "session_ok b cfg self p (new_conn p)"
  by (auto simp: session_ok_def new_conn_def)

lemma session_ok_step:
  "session_ok b cfg self p c \<Longrightarrow> step b cfg self c c' \<Longrightarrow> session_ok b cfg self (cn_sock c') c'"
  by (auto simp: session_ok_def intro: rtranclp.rtrancl_into_rtrancl)

lemma share_sessions:
  "list_all (\<lambda>c. \<exists>p. session_ok b cfg self p c) (sv_sessions s) \<Longrightarrow> sessions_inv b cfg self (share s)"
  by (auto simp: sessions_inv_def share_def list_all_iff agent_sock_def intro: session_ok_sync)

lemma list_all_update: "list_all P xs \<Longrightarrow> P x \<Longrightarrow> list_all P (xs[i := x])"
  by (auto simp: list_all_iff dest!: set_update_subset_insert [THEN subsetD])

lemma session_request_inv:
  assumes inv: "server_inv b cfg self s" and i: "i < length (sv_sessions s)" and ready: "cn_loop (sv_sessions s ! i) = Ready"
    and len: "length (rq_payload r) < 2 ^ 32" and calm: "\<not> cn_panicked (sv_sessions s ! i)"
  shows "server_inv b cfg self (session_request b cfg made ok i r s)"
proof -
  obtain sock s1 where m: "(if rq_type r = ''auth-agent-req@openssh.com'' \<and> ac_forwarding cfg
      then ensure_agent_forward b cfg made ok s else (None, s)) = (sock, s1)" by fastforce
  let ?c = "handle cfg sock r (sv_sessions s ! i)"
  have old: "list_all (\<lambda>c. \<exists>p. session_ok b cfg self p c) (sv_sessions s)"
    using inv by (auto simp: server_inv_def sessions_inv_def list_all_iff)
  then obtain p where "session_ok b cfg self p (sv_sessions s ! i)" using i by (auto simp: list_all_length)
  then have "session_ok b cfg self (cn_sock ?c) ?c" by (rule session_ok_step) (rule step.receive [OF ready calm len])
  then have "\<exists>p. session_ok b cfg self p ?c" by blast
  then have "sessions_inv b cfg self (share (s1\<lparr>sv_sessions := (sv_sessions s)[i := ?c]\<rparr>))"
    using old by (intro share_sessions) (simp add: list_all_update)
  moreover have "socket_inv cfg s1 \<and> key_inv cfg s1 \<and> tracked (sv_forwards s1) \<and> sv_key s1 = sv_key s"
    using m inv i by (auto simp: server_inv_defs split: if_splits option.splits elim!: ensure_agent_forward_cases)
  ultimately show ?thesis
    using m i inv by (auto simp: session_request_def server_inv_def socket_inv_def key_inv_def share_def split: option.splits)
qed

lemma close_server_inv: "server_inv b cfg self s \<Longrightarrow> sv_key s \<noteq> None \<Longrightarrow> server_inv b cfg self (close_server s)"
proof -
  assume inv: "server_inv b cfg self s" and k: "sv_key s \<noteq> None"
  have "tracked (close_all (sv_forwards s))" using inv by (auto simp: server_inv_def tracked_def close_all_def)
  moreover have "sessions_inv b cfg self (close_server s)"
    unfolding close_server_def using inv
    by (intro share_sessions) (auto simp: server_inv_def sessions_inv_def close_agent_forward_def list_all_iff split: option.split)
  ultimately show ?thesis using inv k
    by (auto simp: close_server_def server_inv_defs share_def close_agent_forward_def split: option.splits)
qed

lemma serve_inv: "serve b cfg self s s' \<Longrightarrow> server_inv b cfg self s \<Longrightarrow> server_inv b cfg self s'"
proof (induction rule: serve.induct)
  case (request i s r made ok)
  then show ?case by (simp add: session_request_inv)
next
  case (turn i s c)
  then have "session_ok b cfg self (agent_sock s) (sv_sessions s ! i)"
    by (simp add: server_inv_def sessions_inv_def list_all_length)
  with turn have "session_ok b cfg self (agent_sock s) c"
    using session_ok_step [OF _ turn.hyps(2)] by (fastforce simp: session_ok_def)
  with turn show ?case by (auto simp: server_inv_defs agent_sock_def list_all_update split: option.splits)
next
  case (global s g)
  then show ?case using tracked_step by (auto simp: server_inv_defs agent_sock_def split: option.splits)
next
  case (close s)
  then show ?case by (simp add: close_server_inv)
next
  case (dial_in s a p l oa op)
  then show ?case
    by (auto simp: server_inv_defs forward_conn_def forward_agent_conn_def agent_sock_def no_forwards_def split: option.splits)
next
  case (open_direct s data dialed)
  then show ?case
    by (auto simp: server_inv_defs open_direct_def agent_sock_def Let_def split: option.splits sliced.splits)
next
  case (open_session s)
  then show ?case using session_ok_new by (auto simp: server_inv_defs agent_sock_def split: option.splits)
qed (auto simp: server_inv_defs forward_conn_def forward_agent_conn_def agent_sock_def split: option.splits)

lemma served_inv: "served b cfg self s \<Longrightarrow> server_inv b cfg self s"
  by (induction rule: rtranclp_induct) (auto intro: listening_inv serve_inv)

lemma close_server_clean:
  assumes "server_inv b cfg self s"
  shows "sv_dirs (close_server s) = {}" "sv_sockets (close_server s) = {}" "fw_open (sv_forwards (close_server s)) = {}"
    "agent_sock (close_server s) = []"
  using assms by (auto simp: close_server_def close_agent_forward_def share_def server_inv_def socket_inv_def tracked_def
      close_all_def agent_sock_def split: option.split)

lemma served_key: "served b cfg self s \<Longrightarrow> ac_authorized cfg = [k] \<Longrightarrow> set_option (sv_key s) \<subseteq> {k}"
  using served_inv by (fastforce simp: server_inv_def key_inv_def authenticate_authorized split: option.splits)


definition forwarding_config :: agent_config where
  "forwarding_config = demo_config\<lparr>ac_forwarding := True\<rparr>"

definition demo_server :: "agent_config \<Rightarrow> server" where
  "demo_server cfg = listening\<lparr>sv_key := Some ''key'', sv_sessions := [new_conn []]\<rparr>"

lemma demo_server_served: "ac_authorized cfg = [''key''] \<Longrightarrow> served b cfg self (demo_server cfg)"
proof -
  assume cfg: "ac_authorized cfg = [''key'']"
  have "serve b cfg self listening (listening\<lparr>sv_key := Some ''key''\<rparr>)"
    by (rule serve.accept_key) (simp_all add: listening_def authenticate_authorized cfg)
  moreover have "serve b cfg self (listening\<lparr>sv_key := Some ''key''\<rparr>) (demo_server cfg)"
    using serve.open_session [of "listening\<lparr>sv_key := Some ''key''\<rparr>" b cfg self]
    by (simp add: listening_def demo_server_def agent_sock_def)
  ultimately show ?thesis by (meson converse_rtranclp_into_rtranclp rtranclp.rtrancl_refl)
qed


text \<open>
  The socket can be made after the end of the connection: \<open>ensureAgentForward\<close> looks at \<open>fwd\<close> alone, so a
  request that a session handles after \<open>closeAgentForward\<close> makes a directory nobody removes.
\<close>

lemma late_request_leaks:
  "\<exists>s. served b forwarding_config self s \<and> sv_closed s \<and> sv_dirs s = {''/tmp/devc-agent-1''}"
proof -
  let ?c = forwarding_config and ?r = "demo_request ''auth-agent-req@openssh.com''"
  let ?s = "close_server (demo_server ?c)"
  have "served b ?c self (demo_server ?c)" by (rule demo_server_served) (simp add: forwarding_config_def demo_config_def)
  moreover have "serve b ?c self (demo_server ?c) ?s"
    by (rule serve.close) (simp_all add: demo_server_def listening_def)
  moreover have "serve b ?c self ?s (session_request b ?c (Some ''/tmp/devc-agent-1'') True 0 ?r ?s)"
    by (rule serve.request) (simp_all add: close_server_def demo_server_def listening_def share_def close_agent_forward_def
        new_conn_def demo_request_def)
  moreover have "sv_dirs (session_request b ?c (Some ''/tmp/devc-agent-1'') True 0 ?r ?s) = {''/tmp/devc-agent-1''}"
    "sv_closed (session_request b ?c (Some ''/tmp/devc-agent-1'') True 0 ?r ?s)"
    by (simp_all add: session_request_def ensure_agent_forward_def new_agent_forward_def demo_request_def forwarding_config_def
        close_server_def demo_server_def listening_def share_def close_agent_forward_def)
  ultimately show ?thesis by (meson rtranclp.rtrancl_into_rtrancl)
qed

section \<open>From the injected files to a running agent\<close>

text \<open>
  The agent that the \<open>ProxyCommand\<close> starts is the one that was injected. Started with the
  arguments of \<open>agentServeArgs\<close> in a container that holds the injected files, it comes up with the injected host key,
  the wanted user, directory and forwarding switch; it lets exactly the workspace's client key in; and
  its sessions get every variable of the environment file, with line feeds as spaces, and no other.
\<close>

lemma agent_started:
  assumes "read_file agent_host_key m = Inr host" and "parse_private host = Some h"
    and "read_file agent_auth_key m = Inr pub" and "parse pub = Some (k, [])" and "pub \<noteq> []"
    and "read_file agent_env_file m = Inr (env_file env)" and "\<forall>x \<in> dom (map_of env). env_ok_var env x"
  shows "\<exists>cfg. start_agent parse_private parse (drop 7 (agent_serve_args container user cwd forward)) m = Inr (h, cfg)
    \<and> ac_authorized cfg = [k]
    \<and> ac_user cfg = user \<and> ac_cwd cfg = cwd \<and> ac_forwarding cfg = forward
    \<and> map_of (ac_env cfg) = (\<lambda>x. map_option (replace_byte LF '' '') (map_of env x))"
proof -
  have "authorized_loop parse (length pub) pub = [k]" using assms(4,5) by (cases pub; cases "tl pub") auto
  then have "load_authorized parse agent_auth_key m = Some [k]" using assms(3) by (simp add: load_authorized_def)
  with assms(1,2,6) show ?thesis
    using env_file_reads [OF assms(7)]
    by (simp add: start_agent_def serve_args_parse load_signer_def new_server_def agent_env_file_def
        agent_host_key_def agent_auth_key_def agent_dir_def)
qed

end
