(* ===== verification/Dispatch.thy ===== *)
theory Dispatch
  imports Completion AgentServer
begin

text \<open>
  The program as a whole (\<open>cmd/devc/main.go\<close>): a command line is dispatched to a command, and the exit code
  says how it went. A process starts without a compose implementation or a session environment of its own.
  The agent is started from the files of the machine it runs on; serving its connection (see \<open>AgentServer\<close>) and
  the sftp server (\<open>cmd/devc/sftp.go\<close>) change nothing on this side, and how they end is a parameter.
\<close>

section \<open>Dispatch\<close>

definition failing :: "cmd_error option \<times> session \<Rightarrow> bool \<times> session" where
  "failing r = (fst r \<noteq> None, snd r)"

text \<open>
  What \<open>__serve\<close> uses of the SSH library: reading a private and a public key, and whether serving a connection
  ended without an error.
\<close>

record 'h agent_lib =
  al_private :: "string \<Rightarrow> 'h option"
  al_public :: "string \<Rightarrow> (string \<times> string) option"
  al_serve :: "'h \<Rightarrow> agent_config \<Rightarrow> bool"

definition run_serve :: "'h agent_lib \<Rightarrow> string list \<Rightarrow> session \<Rightarrow> bool \<times> session" where
  "run_serve lib args m =
     (case start_agent (al_private lib) (al_public lib) args m of
        Inl _ \<Rightarrow> (True, m)
      | Inr (h, cfg) \<Rightarrow> (\<not> al_serve lib h cfg, m))"

text \<open>
  What \<open>__sftp\<close> uses of the sftp library: whether a server can be made on the standard streams, and how serving ended. The
  end of the input is no error.
\<close>

datatype sftp_end = SftpDone | SftpEof | SftpFailed

record sftp_lib =
  sl_new :: bool
  sl_serve :: sftp_end

definition run_sftp :: "sftp_lib \<Rightarrow> session \<Rightarrow> bool \<times> session" where
  "run_sftp lib m =
     (if \<not> sl_new lib then (True, m)
      else (case sl_serve lib of SftpFailed \<Rightarrow> (True, m) | _ \<Rightarrow> (False, m)))"

type_synonym handler = "string list \<Rightarrow> session \<Rightarrow> bool \<times> session"

definition handlers :: "system \<Rightarrow> 'h agent_lib \<Rightarrow> sftp_lib \<Rightarrow> (string \<times> handler) list" where
  "handlers sys agent sftp =
     [(''config'', \<lambda>args m. failing (run_config sys args m)),
      (''up'', \<lambda>args m. failing (run_up sys args m)),
      (''down'', \<lambda>args m. failing (run_down sys args m)),
      (''stop'', \<lambda>args m. failing (run_stop sys args m)),
      (''restart'', \<lambda>args m. failing (run_restart sys args m)),
      (''status'', \<lambda>args m. failing (run_status sys args m)),
      (''ps'', \<lambda>args m. failing (run_ps sys args m)),
      (''list'', \<lambda>args m. failing (run_list sys args m)),
      (''logs'', \<lambda>args m. failing (run_logs sys args m)),
      (''exec'', \<lambda>args m. failing (run_exec sys args m)),
      (''ssh'', \<lambda>args m. failing (run_ssh sys args m)),
      (''code'', \<lambda>args m. failing (run_code sys args m)),
      (''ssh-config'', \<lambda>args m. failing (run_ssh_config sys args m)),
      (''keys'', \<lambda>args m. failing (run_keys sys args m)),
      (''doctor'', \<lambda>args m. failing (run_doctor sys args m)),
      (''__serve'', run_serve agent),
      (''__sftp'', \<lambda>args m. run_sftp sftp m),
      (''completion'', \<lambda>args m. failing (run_completion args m)),
      (''__complete'', \<lambda>args m. failing (run_complete sys args m)),
      (''version'', \<lambda>args m. (False, m))]"

definition start_process :: "session \<Rightarrow> session" where
  "start_process m = m\<lparr>ss_compose := None, ss_env := None\<rparr>"

text \<open>The exit code and the session after a run.\<close>

definition devc_main :: "system \<Rightarrow> 'h agent_lib \<Rightarrow> sftp_lib \<Rightarrow> string list \<Rightarrow> session \<Rightarrow> nat \<times> session" where
  "devc_main sys agent sftp argv m =
     (let m = start_process m in
      case argv of
        [] \<Rightarrow> (2, m)
      | cmd # args \<Rightarrow>
          (case map_of (handlers sys agent sftp) cmd of
             Some run \<Rightarrow> (case run args m of (failed, m') \<Rightarrow> (if failed then 1 else 0, m'))
           | None \<Rightarrow>
               if cmd = ''help'' \<or> cmd = ''-h'' \<or> cmd = ''--help'' then (0, m) else (2, m)))"

definition demo_lib :: "nat agent_lib" where
  "demo_lib = \<lparr>al_private = (\<lambda>t. Some (length t)), al_public = (\<lambda>t. Some (''key'', [])), al_serve = (\<lambda>_ _. True)\<rparr>"

definition demo_sftp :: sftp_lib where
  "demo_sftp = \<lparr>sl_new = True, sl_serve = SftpEof\<rparr>"

section \<open>The help\<close>

definition usage :: "string list" where
  \<open>usage =
     [''devc - a minimal devcontainer runner'',
      [],
      ''Usage:'',
      ''  devc <command> [flags] [service...]'',
      [],
      ''Commands:'',
      ''  up          Create/start the workspace container(s)'',
      ''  down        Remove the workspace container(s)'',
      ''  stop        Stop the workspace without removing it'',
      ''  restart     Restart the workspace's main service (compose: --all for every service)'',
      ''  status      Show the workspace's state'',
      ''  ps          List this workspace's containers (compose: one row per service)'',
      ''  list        List all devc workspaces on this host'',
      ''  logs        Show container (or compose) logs'',
      ''  exec        Run a command inside the workspace container (--service for another one)'',
      ''  ssh         SSH into the workspace (spawn ssh, or --stdio ProxyCommand)'',
      ''  code        Open the workspace in VSCodium/VS Code over Remote-SSH'',
      ''  ssh-config  Regenerate or print the workspace's ssh config block'',
      ''  keys        Show or rotate the workspace's SSH keys'',
      ''  doctor      Diagnose a workspace (runtime, tools, agent) for SSH/editor use'',
      ''  config      Load and print the resolved devcontainer configuration'',
      ''  completion  Print a shell completion script (bash, zsh or fish)'',
      ''  help        Show this help'',
      [],
      ''Run "devc <command> -h" for command-specific flags.'',
      [],
      ''On a compose workspace, up, down, stop, restart, logs and ps take service names'',
      ''after their flags ("devc restart db cache"); with none they act on the whole'',
      ''workspace as before.'']\<close>

text \<open>The names the help lists: the first words of the indented lines after the heading.\<close>

definition usage_names :: "string list" where
  "usage_names = map (takeWhile (\<lambda>c. c \<noteq> CHR '' '') \<circ> drop 2)
     (takeWhile (\<lambda>l. l \<noteq> []) (tl (dropWhile (\<lambda>l. l \<noteq> ''Commands:'') usage)))"

text \<open>What is completed is what the help lists, in its order, except \<open>version\<close>, which the help leaves out.\<close>

lemma usage_completed: "filter (\<lambda>c. c \<noteq> ''version'') (map fst (completion_commands h)) = usage_names"
proof -
  have "usage_names = [''up'', ''down'', ''stop'', ''restart'', ''status'', ''ps'', ''list'', ''logs'', ''exec'', ''ssh'',
      ''code'', ''ssh-config'', ''keys'', ''doctor'', ''config'', ''completion'', ''help'']"
    by code_simp
  then show ?thesis by (simp add: completion_commands_def)
qed

section \<open>Arguments the flags do not admit\<close>

text \<open>The flag set of a command, as far as it parses its arguments with one.\<close>

definition flags_of :: "host \<Rightarrow> string \<Rightarrow> flag_set option" where
  "flags_of h cmd = (case map_of (completion_commands h) cmd of None \<Rightarrow> None | Some fs \<Rightarrow> fs)"

lemma with_context_bad: "parse_args fs args = Inl e \<Longrightarrow> with_context sys fs args body m = (Some (BadFlags e), m)"
  by (simp add: with_context_def)

lemma with_spec_bad: "parse_args fs args = Inl e \<Longrightarrow> with_spec sys fs args body m = (Some (BadFlags e), m)"
  by (simp add: with_spec_def)

lemmas run_defs = run_config_def run_up_def run_down_def run_stop_def run_restart_def run_status_def run_ps_def
  run_list_def run_logs_def run_exec_def run_ssh_def run_code_def run_ssh_config_def run_keys_def run_doctor_def

lemma handlers_reject:
  "list_all (\<lambda>(cmd, ofs). case ofs of
       None \<Rightarrow> True
     | Some fs \<Rightarrow> parse_args fs args = Inl e \<longrightarrow>
         (case map_of (handlers sys agent sftp) cmd of None \<Rightarrow> False | Some run \<Rightarrow> run args m = (True, m)))
     (completion_commands (x_host sys))"
  by (simp add: completion_commands_def handlers_def failing_def run_defs with_context_bad with_spec_bad)

text \<open>
  C37: what does not parse does nothing. Without a command, or with one that is not known, the exit code is 2; with
  arguments that the flags of the command do not admit, \<open>-h\<close> among them, it is 1; help ends with 0. In all these
  cases no process is run and nothing on the host changes.
\<close>

theorem rejected_does_nothing:
  "devc_main sys agent sftp [] m = (2, start_process m)
   \<and> (cmd \<in> {''help'', ''-h'', ''--help''} \<longrightarrow> devc_main sys agent sftp (cmd # args) m = (0, start_process m))
   \<and> (cmd \<notin> {''help'', ''-h'', ''--help''} \<union> fst ` set (handlers sys agent sftp) \<longrightarrow>
        devc_main sys agent sftp (cmd # args) m = (2, start_process m))
   \<and> (flags_of (x_host sys) cmd = Some fs \<and> parse_args fs args = Inl e \<longrightarrow>
        devc_main sys agent sftp (cmd # args) m = (1, start_process m))"
proof -
  have "map_of (handlers sys agent sftp) c = None" if "c \<in> {''help'', ''-h'', ''--help''}" for c
    using that by (elim insertE) (simp_all add: handlers_def)
  moreover have "devc_main sys agent sftp (cmd # args) m = (1, start_process m)"
    if "flags_of (x_host sys) cmd = Some fs" and bad: "parse_args fs args = Inl e"
  proof -
    have "(cmd, Some fs) \<in> set (completion_commands (x_host sys))"
      using that(1) by (auto simp: flags_of_def split: option.splits dest: map_of_SomeD)
    then obtain run where "map_of (handlers sys agent sftp) cmd = Some run"
        "run args (start_process m) = (True, start_process m)"
      using bspec [OF handlers_reject [unfolded list_all_iff, of sys args e "start_process m" agent sftp]] bad
      by (fastforce split: option.splits)
    then show ?thesis by (simp add: devc_main_def)
  qed
  moreover have "c \<notin> fst ` set (handlers sys agent sftp) \<longleftrightarrow> map_of (handlers sys agent sftp) c = None" for c
    by (simp add: map_of_eq_None_iff)
  ultimately show ?thesis by (simp add: devc_main_def Let_def)
qed

lemma rejected_does_nothing_witness:
  "devc_main demo_system demo_lib demo_sftp [''down'', ''--volume''] demo_session = (1, start_process demo_session)"
proof -
  have "flags_of (x_host demo_system) ''down'' = Some down_flag_set"
    by (simp add: flags_of_def completion_commands_def)
  moreover have "parse_args down_flag_set [''--volume''] = Inl (UnknownFlag ''volume'')" by code_simp
  ultimately show ?thesis using rejected_does_nothing by blast
qed

section \<open>Which commands write\<close>

lemma with_context_kept:
  assumes "\<And>v rest x m1. parse_args fs args = Inr (v, rest) \<Longrightarrow> host_kept m1 (snd (body v rest x m1))"
  shows "host_kept m (snd (with_context sys fs args body m))"
  using assms by (auto simp: with_context_def split: sum.splits prod.splits
      dest!: set_up_only only_calls_kept intro: host_kept_trans)

lemma outcome_snd [simp]: "snd (outcome r) = snd r"
  by (auto simp: outcome_def split: prod.splits sum.splits)

lemma launch_editor_kept: "host_kept m (snd (launch_editor x editor m))"
  by (auto simp: launch_editor_def split: sum.splits prod.splits dest: exec_call_only only_calls_kept)

lemma ssh_spawn_kept: "host_kept m (snd (ssh_spawn x m))"
  by (auto simp: ssh_spawn_def split: option.splits prod.splits dest: exec_call_only only_calls_kept)

lemma ssh_stdio_kept: "host_kept m (snd (ssh_stdio x False m))"
  by (auto simp: ssh_stdio_def connect_def Let_def split: sum.splits prod.splits option.splits if_splits
      dest!: attach_ref_only only_calls_kept run_kept intro: host_kept_trans)

lemma doctor_kept: "host_kept m (snd (doctor x json m))"
  by (auto simp: doctor_def split: prod.splits dest: run_checks_kept)

lemma run_list_kept: "host_kept m (snd (run_list sys args m))"
  by (auto simp: run_list_def workspace_rows_def split: sum.splits prod.splits
      dest: list_workspaces_only only_calls_kept)

lemma run_exec_kept: "host_kept m (snd (run_exec sys args m))"
proof -
  have "host_kept m (snd (with_context sys exec_flag_set args
      (\<lambda>v rest x. exec_command x (flag_on v ''T'') (x_tty x) (map_get v ''service'') rest) m))"
    using exec_command_kept by (intro with_context_kept) (metis prod.collapse)
  then show ?thesis by (auto simp: run_exec_def split: sum.split prod.split list.split)
qed

lemma tear_down_host_kept: "tear_down x volumes services m = (q, m') \<Longrightarrow> host_kept m m'"
  by (auto simp: tear_down_def remove_container_def Let_def split: if_splits prod.splits sum.splits option.splits
      dest!: host_kept intro: host_kept_trans)

lemma down_kept:
  assumes "\<not> (purge \<and> \<not> auto)"
  shows "host_kept m (snd (down x auto volumes purge args m))"
proof -
  obtain err go m1 where t: "tear_down x volumes args m = ((err, go), m1)" by (metis prod.collapse)
  moreover obtain e m2 where s: "stop_workspace x args m = (e, m2)" by fastforce
  ultimately show ?thesis
    using assms tear_down_host_kept [OF t] stop_workspace_kept [OF s]
    by (auto simp: down_def compose_services_def)
qed

definition writes :: "string \<Rightarrow> string list \<Rightarrow> bool" where
  "writes cmd args \<longleftrightarrow> cmd \<in> {''up'', ''keys'', ''ssh-config''}
     \<or> cmd = ''down'' \<and> (case parse_args down_flag_set args of Inl _ \<Rightarrow> False
          | Inr (v, _) \<Rightarrow> flag_on v ''purge'' \<and> \<not> flag_on v ''auto'')
     \<or> cmd = ''ssh'' \<and> (case parse_args ssh_flag_set args of Inl _ \<Rightarrow> False
          | Inr (v, _) \<Rightarrow> flag_on v ''stdio'' \<and> flag_on v ''start'')"

lemma run_down_kept: "\<not> writes ''down'' args \<Longrightarrow> host_kept m (snd (run_down sys args m))"
  unfolding run_down_def by (rule with_context_kept) (auto simp: writes_def intro: down_kept)

lemma run_ssh_kept: "\<not> writes ''ssh'' args \<Longrightarrow> host_kept m (snd (run_ssh sys args m))"
  unfolding run_ssh_def by (rule with_context_kept) (auto simp: writes_def intro: ssh_spawn_kept ssh_stdio_kept)

lemma run_read_kept:
  "host_kept m (snd (run_stop sys args m))" "host_kept m (snd (run_restart sys args m))"
  "host_kept m (snd (run_status sys args m))" "host_kept m (snd (run_ps sys args m))"
  "host_kept m (snd (run_logs sys args m))" "host_kept m (snd (run_code sys args m))"
  "host_kept m (snd (run_doctor sys args m))"
proof -
  have "host_kept m1 (snd (stop x rest m1))" "host_kept m1 (snd (restart x b rest m1))" "host_kept m1 (snd (status x m1))"
    "host_kept m1 (snd (ps_rows x rest m1))" "host_kept m1 (snd (logs x b rest m1))" for m1 x rest b
    using stop_kept restart_kept status_only only_calls_kept ps_rows_kept logs_kept prod.collapse by metis+
  then show "host_kept m (snd (run_stop sys args m))" "host_kept m (snd (run_restart sys args m))"
    "host_kept m (snd (run_status sys args m))" "host_kept m (snd (run_ps sys args m))"
    "host_kept m (snd (run_logs sys args m))" "host_kept m (snd (run_code sys args m))"
    "host_kept m (snd (run_doctor sys args m))"
    unfolding run_stop_def run_restart_def run_status_def run_ps_def run_logs_def run_code_def run_doctor_def
    by (intro with_context_kept; simp add: launch_editor_kept doctor_kept split: sum.split)+
qed

lemma run_config_same: "snd (run_config sys args m) = m"
  by (simp add: run_config_def Let_def split: sum.split prod.split)

lemma run_complete_kept: "host_kept m (snd (run_complete sys words m))"
  by (simp add: run_complete_def split_beta complete_kept)

lemma run_completion_same: "snd (run_completion args m) = m"
  by (simp add: run_completion_def split: list.split)

lemma run_serve_same: "snd (run_serve agent args m) = m"
  by (simp add: run_serve_def split: sum.split prod.split)

lemma run_sftp_same: "snd (run_sftp sftp m) = m"
  by (simp add: run_sftp_def split: sftp_end.split)

lemma handlers_kept:
  "list_all (\<lambda>(cmd, run). writes cmd args \<or> host_kept m (snd (run args m))) (handlers sys agent sftp)"
proof -
  have "writes ''down'' args \<or> host_kept m (snd (run_down sys args m))"
    "writes ''ssh'' args \<or> host_kept m (snd (run_ssh sys args m))"
    using run_down_kept run_ssh_kept by blast+
  moreover have "writes ''up'' args" "writes ''keys'' args" "writes ''ssh-config'' args" by (simp_all add: writes_def)
  ultimately show ?thesis
    by (simp add: handlers_def failing_def run_read_kept run_list_kept run_exec_kept run_config_same run_complete_kept
        run_completion_same run_serve_same run_sftp_same)
qed

text \<open>
  C10: which commands write on the host. Only \<open>up\<close>, \<open>keys\<close> and \<open>ssh-config\<close>, \<open>down\<close> when it is to purge (and not
  \<open>--auto\<close>), and \<open>ssh\<close> as a ProxyCommand that may start the workspace. Any other command line leaves the
  files, keys, state and ids of the machine as they were, whatever the runtime answers: it has
  run processes and at most cached the compose implementation. (The debug log that \<open>ssh --stdio\<close> writes beside, see
  \<open>ProxyLog\<close>, is not one of these files.)
\<close>

theorem host_writers:
  "host_kept (start_process m) (snd (devc_main sys agent sftp argv m))
   \<or> (case argv of [] \<Rightarrow> False | cmd # args \<Rightarrow> writes cmd args)"
proof (cases argv)
  case (Cons cmd args)
  show ?thesis
  proof (cases "map_of (handlers sys agent sftp) cmd")
    case (Some run)
    then have "(cmd, run) \<in> set (handlers sys agent sftp)" by (rule map_of_SomeD)
    then have "writes cmd args \<or> host_kept (start_process m) (snd (run args (start_process m)))"
      using bspec [OF handlers_kept [unfolded list_all_iff]] by fastforce
    then show ?thesis by (auto simp: devc_main_def Cons Some split_beta Let_def)
  qed (simp add: devc_main_def Cons Let_def)
qed (simp add: devc_main_def)

lemma host_writers_witness:
  "host_kept (start_process demo_session) (snd (devc_main demo_system demo_lib demo_sftp [''down'', ''--purge'', ''--auto''] demo_session))"
proof -
  have "\<not> writes ''down'' [''--purge'', ''--auto'']" by code_simp
  then show ?thesis using host_writers [of demo_session demo_system demo_lib demo_sftp "[''down'', ''--purge'', ''--auto'']"]
    by simp
qed

section \<open>What completion knows of the commands\<close>

definition flags_ok :: "flag_set \<Rightarrow> bool" where
  "flags_ok fs \<longleftrightarrow> distinct (map fl_name fs) \<and> ''h'' \<notin> set (map fl_name fs)
     \<and> list_all (\<lambda>f. flag_word (candidate_value (flag_candidate f)) = Flag (fl_name f) None) fs"

lemma flags_ok_append: "flags_ok fs \<Longrightarrow> flags_ok gs \<Longrightarrow> set (map fl_name fs) \<inter> set (map fl_name gs) = {} \<Longrightarrow> flags_ok (fs @ gs)"
  by (simp add: flags_ok_def)

lemma flag_word_name:
  "n \<noteq> [] \<Longrightarrow> hd n \<noteq> CHR ''-'' \<Longrightarrow> CHR ''='' \<notin> set n \<Longrightarrow> TAB \<notin> set n \<Longrightarrow>
     flag_word (candidate_value (flag_candidate \<lparr>fl_name = n, fl_kind = k, fl_var = v, fl_default = d, fl_usage = u\<rparr>)) = Flag n None"
proof -
  assume n: "n \<noteq> []" "hd n \<noteq> CHR ''-''" "CHR ''='' \<notin> set n" "TAB \<notin> set n"
  have "candidate_value (p @ n @ TAB # u) = p @ n" if "TAB \<notin> set p" for p
    using cut_append [of TAB "p @ n" u] that n(4) by (simp add: candidate_value_def)
  moreover have "hd n \<noteq> CHR ''=''" using n(1,3) by (cases n) auto
  ultimately show ?thesis
    using n(1-3) by (cases n) (auto simp: flag_candidate_def flag_word_def cut_not_found Let_def)
qed

lemma asks_help: "flags_ok fs \<Longrightarrow> parse_args fs [''-h''] = Inl HelpRequested"
proof -
  assume "flags_ok fs"
  then have "flag_lookup fs ''h'' = None" by (force simp: flags_ok_def flag_lookup_def find_None_iff)
  moreover have "flag_word ''-h'' = Flag ''h'' None" by code_simp
  ultimately show ?thesis by (simp add: parse_args_def)
qed

lemma flag_lookup_distinct: "distinct (map fl_name fs) \<Longrightarrow> f \<in> set fs \<Longrightarrow> flag_lookup fs (fl_name f) = Some f"
  by (induction fs) (auto simp: flag_lookup_def)

lemmas flag_set_defs = up_flag_set_def down_flag_set_def restart_flag_set_def status_flag_set_def ps_flag_set_def
  list_flag_set_def logs_flag_set_def exec_flag_set_def ssh_flag_set_def code_flag_set_def ssh_config_flag_set_def
  keys_flag_set_def doctor_flag_set_def config_flag_set_def common_flag_set_def json_flag_def flag_string_def flag_bool_def

lemma common_flags_ok: "flags_ok common_flag_set"
  unfolding flags_ok_def by (simp add: flag_set_defs flag_word_name)

lemma common_names: "map fl_name common_flag_set = [''path'', ''name'', ''n'', ''config'', ''runtime'', ''compose-cmd'',
    ''platform'', ''userns'', ''selinux'', ''q'', ''forward-agent'', ''sync-git-config'']"
  by (simp add: flag_set_defs)

lemma more_flags_ok:
  assumes "flags_ok fs" and "set (map fl_name common_flag_set) \<inter> set (map fl_name fs) = {}"
  shows "flags_ok (common_flag_set @ fs)" "flags_ok (fs @ common_flag_set)"
  using flags_ok_append [OF common_flags_ok assms(1)] flags_ok_append [OF assms(1) common_flags_ok] assms(2)
  by (simp_all only: Int_commute)

lemmas own_flag_defs = flags_ok_def json_flag_def flag_string_def flag_bool_def flag_word_name

lemma completion_flags_ok:
  "list_all (\<lambda>(cmd, ofs). case ofs of None \<Rightarrow> True | Some fs \<Rightarrow> flags_ok fs) (completion_commands h)"
proof -
  have "flags_ok (up_flag_set h)" "flags_ok down_flag_set" "flags_ok restart_flag_set" "flags_ok status_flag_set"
    "flags_ok ps_flag_set" "flags_ok logs_flag_set" "flags_ok exec_flag_set" "flags_ok ssh_flag_set"
    "flags_ok ssh_config_flag_set" "flags_ok keys_flag_set"
    unfolding up_flag_set_def down_flag_set_def restart_flag_set_def status_flag_set_def ps_flag_set_def
      logs_flag_set_def exec_flag_set_def ssh_flag_set_def ssh_config_flag_set_def keys_flag_set_def
    by (rule more_flags_ok(1); simp add: own_flag_defs common_names)+
  moreover have "flags_ok ([json_flag ''checks''] @ common_flag_set)"
    "flags_ok ([flag_string ''editor'' d u] @ common_flag_set)" for d u
    by (rule more_flags_ok(2); simp add: own_flag_defs common_names)+
  moreover have "flags_ok list_flag_set" "flags_ok config_flag_set"
    by (simp_all add: own_flag_defs list_flag_set_def config_flag_set_def)
  ultimately show ?thesis
    using common_flags_ok by (simp add: completion_commands_def code_flag_set_def doctor_flag_set_def)
qed

text \<open>
  Completion knows the commands as they are. The commands it offers are those that are dispatched, but for the three
  hidden ones, and those the help lists, and \<open>version\<close>; the flag set it learns from a run with \<open>-h\<close> is the one the command declares; and each flag it offers
  is read by the parser as the flag it stands for.
\<close>

lemma completion_matches:
  "fst ` set (completion_commands h) \<union> {''__serve'', ''__sftp'', ''__complete''} =
     fst ` set (handlers sys agent sftp) \<union> {''help''}
   \<and> fst ` set (completion_commands h) = insert ''version'' (set usage_names)
   \<and> command_flags h cmd = flags_of h cmd
   \<and> (flags_of h cmd = Some fs \<longrightarrow>
        list_all (\<lambda>f. flag_word (candidate_value (flag_candidate f)) = Flag (fl_name f) None
          \<and> flag_lookup fs (fl_name f) = Some f) fs)"
proof -
  have ok: "flags_ok fs" if "flags_of h cmd = Some fs" for fs
  proof -
    have "(cmd, Some fs) \<in> set (completion_commands h)"
      using that by (auto simp: flags_of_def split: option.splits dest: map_of_SomeD)
    then show ?thesis using bspec [OF completion_flags_ok [unfolded list_all_iff]] by fastforce
  qed
  then have "command_flags h cmd = flags_of h cmd"
    by (cases "flags_of h cmd") (auto simp: command_flags_def flags_of_def asks_help split: option.splits)
  moreover have "fst ` set (completion_commands h) \<union> {''__serve'', ''__sftp'', ''__complete''} =
     fst ` set (handlers sys agent sftp) \<union> {''help''}"
    by (simp add: completion_commands_def handlers_def insert_commute)
  moreover have "fst ` set (completion_commands h) = insert ''version'' (set usage_names)"
  proof -
    have "''version'' \<in> fst ` set (completion_commands h)" by (simp add: completion_commands_def)
    then show ?thesis unfolding usage_completed [of h, symmetric] by auto
  qed
  ultimately show ?thesis
    using ok [of fs] flag_lookup_distinct by (auto simp: flags_ok_def list_all_iff)
qed

lemma completion_matches_witness:
  "flag_lookup down_flag_set ''purge'' \<noteq> None \<and> command_flags (x_host demo_system) ''down'' = Some down_flag_set"
proof -
  have d: "flags_of (x_host demo_system) ''down'' = Some down_flag_set"
    by (simp add: flags_of_def completion_commands_def)
  have "list_ex (\<lambda>f. fl_name f = ''purge'') down_flag_set" by code_simp
  then obtain f where f: "f \<in> set down_flag_set" "fl_name f = ''purge''" by (auto simp only: list_ex_iff)
  note c = conjunct2 [OF conjunct2 [OF completion_matches [of "x_host demo_system" demo_system demo_lib demo_sftp "''down''" down_flag_set]]]
  have "flag_lookup down_flag_set (fl_name f) = Some f"
    by (rule conjunct2 [OF bspec [OF mp [OF conjunct2 [OF c] d, unfolded list_all_iff] f(1)]])
  with d f(2) conjunct1 [OF c] show ?thesis by simp
qed

end
