(* ===== verification/SshRead.thy ===== *)
theory SshRead
  imports SshConf Resolve
begin

text \<open>
  What an OpenSSH client reads in the file that \<open>sshconf\<close> writes: the specification of \<open>Render\<close>. Only what
  \<open>ssh_config\<close> documents of a configuration with one \<open>Host\<close> block of plain words is read: a line is a keyword and its
  arguments, a \<open>#\<close> starts a comment line, percent tokens are expanded, the command of \<open>ProxyCommand\<close> is the rest of
  its line and is run by a shell.
\<close>

section \<open>Lines\<close>

definition conf_blank :: "char \<Rightarrow> bool" where
  "conf_blank c \<longleftrightarrow> c = CHR '' '' \<or> c = TAB \<or> c = CR \<or> c = LF"

definition drop_blank_end :: "string \<Rightarrow> string" where
  "drop_blank_end s = rev (dropWhile conf_blank (rev s))"

definition conf_entry :: "string \<Rightarrow> (string \<times> string) option" where
  "conf_entry line =
     (let l = dropWhile conf_blank (drop_blank_end line) in
      if l = [] \<or> hd l = CHR ''#'' then None
      else
        (let kw = takeWhile (\<lambda>c. \<not> conf_blank c \<and> c \<noteq> CHR ''='') l;
             r = dropWhile conf_blank (drop (length kw) l)
         in Some (kw, if r \<noteq> [] \<and> hd r = CHR ''='' then dropWhile conf_blank (tl r) else r)))"

definition conf_entries :: "string \<Rightarrow> (string \<times> string) list" where
  "conf_entries text = List.map_filter conf_entry (split_on LF text)"

section \<open>Values\<close>

text \<open>A token that is not known is an error.\<close>

fun expand_tokens :: "(char \<Rightarrow> string option) \<Rightarrow> string \<Rightarrow> string option" where
  "expand_tokens tok [] = Some []"
| "expand_tokens tok [c] = (if c = CHR ''%'' then None else Some [c])"
| "expand_tokens tok (c # d # s) =
     (if c \<noteq> CHR ''%'' then map_option ((#) c) (expand_tokens tok (d # s))
      else if d = CHR ''%'' then map_option ((#) d) (expand_tokens tok s)
      else (case tok d of None \<Rightarrow> None | Some t \<Rightarrow> map_option ((@) t) (expand_tokens tok s)))"

text \<open>A word in which nothing is quoted, no variable and no home directory is meant.\<close>

definition conf_plain :: "char \<Rightarrow> bool" where
  "conf_plain c \<longleftrightarrow> 33 \<le> byte c \<and> c \<notin> {DQ, SQ, BSL, CHR ''$'', CHR ''#'', CHR ''=''}"

definition conf_word :: "(char \<Rightarrow> string option) \<Rightarrow> string \<Rightarrow> string option" where
  "conf_word tok s = (if s \<noteq> [] \<and> hd s \<noteq> CHR ''~'' \<and> list_all conf_plain s then expand_tokens tok s else None)"

definition conf_port :: "string \<Rightarrow> int option" where
  "conf_port s = (case atoi s of Some n \<Rightarrow> if port_ok n then Some n else None | None \<Rightarrow> None)"

text \<open>The argument of \<open>LocalForward\<close>: a port of this machine and a port of the server's own \<open>localhost\<close>.\<close>

definition conf_forward :: "string \<Rightarrow> (int \<times> int) option" where
  "conf_forward s =
     (let a = takeWhile (\<lambda>c. \<not> conf_blank c) s; b = dropWhile conf_blank (drop (length a) s) in
      if prefix ''localhost:'' b
      then (case (conf_port a, conf_port (drop 10 b)) of (Some h, Some c) \<Rightarrow> Some (h, c) | _ \<Rightarrow> None)
      else None)"

definition conf_bool :: "string \<Rightarrow> bool option" where
  "conf_bool s = (if s = ''yes'' then Some True else if s = ''no'' then Some False else None)"

section \<open>A client\<close>

record ssh_client =
  sc_host :: string
  sc_host_name :: string
  sc_user :: string
  sc_proxy :: "string list"
  sc_identity :: string
  sc_known_hosts :: string
  sc_control_path :: string
  sc_identities_only :: bool
  sc_strict :: bool
  sc_forward_agent :: bool
  sc_forwards :: "(int \<times> int) list"

text \<open>The tokens of a connection: the name as given, the host name, the user and the port.\<close>

definition conn_tokens :: "string \<Rightarrow> string \<Rightarrow> string \<Rightarrow> char \<Rightarrow> string option" where
  "conn_tokens alias hn user c =
     (if c = CHR ''n'' then Some alias else if c = CHR ''h'' then Some hn
      else if c = CHR ''r'' then Some user else if c = CHR ''p'' then Some ''22'' else None)"

fun opt_list :: "'a option list \<Rightarrow> 'a list option" where
  "opt_list [] = Some []"
| "opt_list (None # xs) = None"
| "opt_list (Some x # xs) = map_option ((#) x) (opt_list xs)"

text \<open>The first entry of a keyword counts; \<open>LocalForward\<close> may be given several times.\<close>

definition conf_value :: "(string \<times> string) list \<Rightarrow> string \<Rightarrow> string option" where
  "conf_value es kw = map_of es kw"

definition read_client :: "string \<Rightarrow> ssh_client option" where
  "read_client text =
     (let es = conf_entries text; word = (\<lambda>tok kw. Option.bind (conf_value es kw) (conf_word tok)) in
      Option.bind (word Map.empty ''Host'') (\<lambda>alias.
      Option.bind (word (\<lambda>c. if c = CHR ''h'' then Some alias else None) ''HostName'') (\<lambda>hn.
      Option.bind (word Map.empty ''User'') (\<lambda>user.
      let tok = conn_tokens alias hn user in
      Option.bind (Option.bind (Option.bind (conf_value es ''ProxyCommand'') (expand_tokens tok)) sh_words) (\<lambda>proxy.
      Option.bind (word tok ''IdentityFile'') (\<lambda>identity.
      Option.bind (word tok ''UserKnownHostsFile'') (\<lambda>known.
      Option.bind (word tok ''ControlPath'') (\<lambda>control.
      Option.bind (Option.bind (conf_value es ''IdentitiesOnly'') conf_bool) (\<lambda>only.
      Option.bind (Option.bind (conf_value es ''StrictHostKeyChecking'') conf_bool) (\<lambda>strict.
      Option.bind (Option.bind (conf_value es ''ForwardAgent'') conf_bool) (\<lambda>agent.
      Option.bind (opt_list (map (conf_forward \<circ> snd) (filter (\<lambda>e. fst e = ''LocalForward'') es))) (\<lambda>fwds.
        Some \<lparr>sc_host = alias, sc_host_name = hn, sc_user = user, sc_proxy = proxy, sc_identity = identity,
          sc_known_hosts = known, sc_control_path = control, sc_identities_only = only, sc_strict = strict,
          sc_forward_agent = agent, sc_forwards = fwds\<rparr>))))))))))))"

section \<open>Reading a line\<close>

text \<open>A value that is written on a line and read back as it is.\<close>

definition line_value :: "string \<Rightarrow> bool" where
  "line_value v \<longleftrightarrow> v \<noteq> [] \<and> \<not> conf_blank (hd v) \<and> hd v \<noteq> CHR ''='' \<and> \<not> conf_blank (last v) \<and> LF \<notin> set v"

definition keyword :: "string \<Rightarrow> bool" where
  "keyword kw \<longleftrightarrow> kw \<noteq> [] \<and> hd kw \<noteq> CHR ''#'' \<and> list_all (\<lambda>c. \<not> conf_blank c \<and> c \<noteq> CHR ''='') kw"

abbreviation spaces :: "nat \<Rightarrow> string" where
  "spaces n \<equiv> replicate n (CHR '' '')"

lemma conf_blank_space [simp]: "conf_blank (CHR '' '')"
  by (simp add: conf_blank_def)

lemma dropWhile_spaces: "\<not> conf_blank (hd s) \<Longrightarrow> s \<noteq> [] \<Longrightarrow> dropWhile conf_blank (spaces n @ s) = s"
  by (induction n) (auto simp: neq_Nil_conv)

lemma drop_blank_end_id: "s \<noteq> [] \<Longrightarrow> \<not> conf_blank (last s) \<Longrightarrow> drop_blank_end s = s"
  by (cases s rule: rev_cases) (simp_all add: drop_blank_end_def)

lemma conf_entry_line:
  assumes "keyword kw" and "line_value v"
  shows "conf_entry (spaces i @ kw @ spaces (Suc n) @ v) = Some (kw, v)"
proof -
  have v: "v \<noteq> []" "\<not> conf_blank (hd v)" "\<not> conf_blank (last v)" "hd v \<noteq> CHR ''=''"
    using assms(2) by (auto simp: line_value_def)
  have kw: "kw \<noteq> []" "\<not> conf_blank (hd kw)" "hd kw \<noteq> CHR ''#''" "\<And>c. c \<in> set kw \<Longrightarrow> \<not> conf_blank c \<and> c \<noteq> CHR ''=''"
    using assms(1) by (auto simp: keyword_def list_all_iff)
  let ?l = "kw @ spaces (Suc n) @ v"
  have "drop_blank_end (spaces i @ ?l) = spaces i @ ?l" using v by (intro drop_blank_end_id) auto
  moreover have "dropWhile conf_blank (spaces i @ ?l) = ?l" using kw by (intro dropWhile_spaces) auto
  moreover have "takeWhile (\<lambda>c. \<not> conf_blank c \<and> c \<noteq> CHR ''='') ?l = kw" using kw(4) by (simp add: takeWhile_append2)
  moreover have "dropWhile conf_blank (spaces (Suc n) @ v) = v" using v by (intro dropWhile_spaces)
  ultimately show ?thesis using kw(1,3) v(4) by (simp add: conf_entry_def Let_def)
qed

lemma conf_entries_Cons:
  "LF \<notin> set l \<Longrightarrow> conf_entries (l @ LF # rest) =
     (case conf_entry l of None \<Rightarrow> [] | Some e \<Rightarrow> [e]) @ conf_entries rest"
  by (simp add: conf_entries_def split_on_append map_filter_simps split: option.split)

lemma conf_entries_line:
  assumes "keyword kw" and "line_value v"
  shows "conf_entries (spaces i @ kw @ spaces (Suc n) @ v @ [LF] @ rest) = (kw, v) # conf_entries rest"
proof -
  have "LF \<notin> set kw" using assms(1) by (auto simp: keyword_def list_all_iff conf_blank_def)
  then have "LF \<notin> set (spaces i @ kw @ spaces (Suc n) @ v)" using assms(2) by (auto simp: line_value_def)
  from conf_entries_Cons [OF this, of rest] conf_entry_line [OF assms, of i n] show ?thesis by simp
qed

text \<open>The keyword and the blanks around it as they are written.\<close>

definition key_pad :: "string \<Rightarrow> string \<Rightarrow> bool" where
  "key_pad pre kw \<longleftrightarrow>
     (let i = length (takeWhile conf_blank pre) in
      pre = spaces i @ kw @ spaces (Suc (length pre - i - length kw - 1))) \<and> keyword kw"

lemma conf_entries_pad:
  "key_pad pre kw \<Longrightarrow> line_value v \<Longrightarrow> conf_entries (pre @ v @ [LF] @ rest) = (kw, v) # conf_entries rest"
  unfolding key_pad_def Let_def using conf_entries_line by (metis append.assoc)

lemma conf_entries_fixed:
  "conf_entry l = Some e \<and> LF \<notin> set l \<Longrightarrow> conf_entries (l @ [LF] @ rest) = e # conf_entries rest"
  by (simp add: conf_entries_Cons)

lemma conf_entries_Nil [simp]: "conf_entries [] = []"
  by code_simp

lemmas conf_value_lines =
  conf_entries_pad [of "''Host ''" "''Host''"]
  conf_entries_pad [of "''    HostName              ''" "''HostName''"]
  conf_entries_pad [of "''    User                  ''" "''User''"]
  conf_entries_pad [of "''    ProxyCommand          ''" "''ProxyCommand''"]
  conf_entries_pad [of "''    IdentityFile          ''" "''IdentityFile''"]
  conf_entries_pad [of "''    UserKnownHostsFile    ''" "''UserKnownHostsFile''"]
  conf_entries_pad [of "''    ControlPath           ''" "''ControlPath''"]
  conf_entries_pad [of "''    ForwardAgent          ''" "''ForwardAgent''"]
  conf_entries_pad [of "''    LocalForward          ''" "''LocalForward''"]

lemmas conf_fixed_lines =
  conf_entries_fixed [of "''    IdentitiesOnly        yes''" "(''IdentitiesOnly'', ''yes'')"]
  conf_entries_fixed [of "''    StrictHostKeyChecking yes''" "(''StrictHostKeyChecking'', ''yes'')"]
  conf_entries_fixed [of "''    ControlMaster         auto''" "(''ControlMaster'', ''auto'')"]
  conf_entries_fixed [of "''    ControlPersist        10m''" "(''ControlPersist'', ''10m'')"]
  conf_entries_fixed [of "''    ServerAliveInterval   30''" "(''ServerAliveInterval'', ''30'')"]

lemma key_pads:
  "key_pad ''Host '' ''Host''" "key_pad ''    HostName              '' ''HostName''"
  "key_pad ''    User                  '' ''User''" "key_pad ''    ProxyCommand          '' ''ProxyCommand''"
  "key_pad ''    IdentityFile          '' ''IdentityFile''"
  "key_pad ''    UserKnownHostsFile    '' ''UserKnownHostsFile''" "key_pad ''    ControlPath           '' ''ControlPath''"
  "key_pad ''    ForwardAgent          '' ''ForwardAgent''" "key_pad ''    LocalForward          '' ''LocalForward''"
  by code_simp+

lemma fixed_entries:
  "conf_entry ''    IdentitiesOnly        yes'' = Some (''IdentitiesOnly'', ''yes'') \<and> LF \<notin> set ''    IdentitiesOnly        yes''"
  "conf_entry ''    StrictHostKeyChecking yes'' = Some (''StrictHostKeyChecking'', ''yes'')
    \<and> LF \<notin> set ''    StrictHostKeyChecking yes''"
  "conf_entry ''    ControlMaster         auto'' = Some (''ControlMaster'', ''auto'') \<and> LF \<notin> set ''    ControlMaster         auto''"
  "conf_entry ''    ControlPersist        10m'' = Some (''ControlPersist'', ''10m'') \<and> LF \<notin> set ''    ControlPersist        10m''"
  "conf_entry ''    ServerAliveInterval   30'' = Some (''ServerAliveInterval'', ''30'') \<and> LF \<notin> set ''    ServerAliveInterval   30''"
  by code_simp+

section \<open>Reading the values\<close>

definition no_percent :: "string \<Rightarrow> bool" where
  "no_percent s \<longleftrightarrow> CHR ''%'' \<notin> set s"

lemma expand_tokens_Cons: "c \<noteq> CHR ''%'' \<Longrightarrow> expand_tokens tok (c # s) = map_option ((#) c) (expand_tokens tok s)"
  by (cases s) simp_all

lemma expand_tokens_append: "no_percent s \<Longrightarrow> expand_tokens tok (s @ t) = map_option ((@) s) (expand_tokens tok t)"
  by (induction s; cases "expand_tokens tok t") (auto simp: expand_tokens_Cons no_percent_def)

lemma expand_tokens_id: "no_percent s \<Longrightarrow> expand_tokens tok s = Some s"
  using expand_tokens_append [of s tok "[]"] by simp

text \<open>A path or a name that stands for itself in the file.\<close>

definition plain_value :: "string \<Rightarrow> bool" where
  "plain_value s \<longleftrightarrow> s \<noteq> [] \<and> hd s \<noteq> CHR ''~'' \<and> list_all conf_plain s \<and> no_percent s"

lemma conf_plain_not_blank: "conf_plain c \<Longrightarrow> \<not> conf_blank c \<and> c \<noteq> CHR ''=''"
proof -
  have "\<not> conf_plain (CHR '' '')" "\<not> conf_plain TAB" "\<not> conf_plain CR" "\<not> conf_plain LF" "\<not> conf_plain (CHR ''='')"
    by code_simp+
  then show "conf_plain c \<Longrightarrow> ?thesis" unfolding conf_blank_def by metis
qed

lemma plain_value_line: "plain_value s \<Longrightarrow> line_value s"
proof -
  assume "plain_value s"
  then have s: "s \<noteq> []" "\<And>c. c \<in> set s \<Longrightarrow> \<not> conf_blank c \<and> c \<noteq> CHR ''=''"
    using conf_plain_not_blank by (auto simp: plain_value_def list_all_iff)
  from s(2) [of LF] have "LF \<notin> set s" by (auto simp: conf_blank_def)
  with s show ?thesis using hd_in_set [of s] last_in_set [of s] by (simp add: line_value_def)
qed

lemma plain_value_word: "plain_value s \<Longrightarrow> conf_word tok s = Some s"
  by (simp add: plain_value_def conf_word_def expand_tokens_id)

lemma control_path_word:
  "plain_value d \<Longrightarrow> tok (CHR ''r'') = Some u \<Longrightarrow> conf_word tok (d @ ''/control-%r'') = Some (d @ ''/control-'' @ u)"
proof -
  assume d: "plain_value d" and tok: "tok (CHR ''r'') = Some u"
  have "list_all conf_plain ''/control-%r''" by code_simp
  then have "conf_word tok (d @ ''/control-%r'') = expand_tokens tok (d @ ''/control-%r'')"
    using d by (simp add: conf_word_def plain_value_def)
  then show ?thesis using d tok by (simp add: expand_tokens_append plain_value_def)
qed

section \<open>The command\<close>

definition command_text :: "string \<Rightarrow> bool" where
  "command_text s \<longleftrightarrow> LF \<notin> set s \<and> no_percent s"

lemma maybe_quote_set: "set (maybe_quote s) \<subseteq> set s \<union> {SQ, BSL}"
  by (auto simp: maybe_quote_def replace_byte_def split: if_splits)

lemma maybe_quote_ends:
  "maybe_quote s \<noteq> []" "hd (maybe_quote s) = SQ \<or> \<not> needs_quote (hd (maybe_quote s)) \<and> hd (maybe_quote s) = hd s"
  "last (maybe_quote s) = SQ \<or> \<not> needs_quote (last (maybe_quote s))"
  by (auto simp: maybe_quote_def list_ex_iff)

lemma not_needs_quote_blank: "\<not> needs_quote c \<Longrightarrow> \<not> conf_blank c"
proof -
  have "needs_quote (CHR '' '')" "needs_quote TAB" "needs_quote CR" "needs_quote LF" by code_simp+
  then show "\<not> needs_quote c \<Longrightarrow> \<not> conf_blank c" unfolding conf_blank_def by metis
qed

lemma join_set: "c \<notin> set s \<Longrightarrow> (\<And>x. x \<in> set xs \<Longrightarrow> c \<notin> set x) \<Longrightarrow> c \<notin> set (join s xs)"
  by (induction s xs rule: join.induct) auto

lemma join_snoc_not_Nil: "y \<noteq> [] \<Longrightarrow> join s (xs @ [y]) \<noteq> []"
proof (induction xs)
  case (Cons x xs)
  then show ?case by (cases xs) simp_all
qed simp

lemma last_join: "y \<noteq> [] \<Longrightarrow> last (join s (xs @ [y])) = last y"
proof (induction xs)
  case (Cons x xs)
  then show ?case using join_snoc_not_Nil [OF Cons.prems, of s xs] by (cases xs) (simp_all add: last_append)
qed simp

lemma join_ends: "x \<noteq> [] \<Longrightarrow> y \<noteq> [] \<Longrightarrow> hd (join s (x # xs @ [y])) = hd x \<and> last (join s (x # xs @ [y])) = last y"
  using last_join [of y s "x # xs"] by (cases xs) simp_all

definition proxy_words :: "ssh_params \<Rightarrow> string list" where
  "proxy_words p = [''ssh'', ''--stdio'', ''--start'']
     @ (if sp_config_path p = [] then [] else [''--config'', maybe_quote (sp_config_path p)])
     @ (if sp_runtime_path p = [] then [] else [''--runtime'', maybe_quote (sp_runtime_path p)])
     @ (if sp_forward_agent p then [''--forward-agent''] else [])"

lemma proxy_command_words_eq:
  "proxy_command p = join '' '' (maybe_quote (sp_devc_bin p) # proxy_words p @ [maybe_quote (sp_workspace_name p)])"
  by (simp add: proxy_command_def proxy_words_def)

definition proxy_literals :: "string list" where
  "proxy_literals = [''ssh'', ''--stdio'', ''--start'', ''--config'', ''--runtime'', ''--forward-agent'']"

lemma proxy_words_set:
  "set (proxy_words p) \<subseteq> set proxy_literals \<union> {maybe_quote (sp_config_path p), maybe_quote (sp_runtime_path p)}"
  by (auto simp: proxy_words_def proxy_literals_def)

lemma proxy_command_avoids:
  assumes "c \<notin> {SQ, BSL, CHR '' ''}" "c \<notin> set (concat proxy_literals)"
    and "\<And>s. s \<in> {sp_devc_bin p, sp_config_path p, sp_runtime_path p, sp_workspace_name p} \<Longrightarrow> c \<notin> set s"
  shows "c \<notin> set (proxy_command p)"
proof -
  have "c \<notin> set (maybe_quote s)" if "c \<notin> set s" for s
    using maybe_quote_set [of s] that assms(1) by auto
  then have "c \<notin> set w" if "w \<in> set (maybe_quote (sp_devc_bin p) # proxy_words p @ [maybe_quote (sp_workspace_name p)])" for w
    using that proxy_words_set [of p] assms(2,3) by (auto simp: set_concat)
  then show ?thesis using assms(1) unfolding proxy_command_words_eq by (intro join_set) auto
qed

lemma proxy_command_line:
  assumes "is_abs (sp_devc_bin p)"
    and "list_all command_text [sp_devc_bin p, sp_config_path p, sp_runtime_path p, sp_workspace_name p]"
  shows "line_value (proxy_command p) \<and> no_percent (proxy_command p)"
proof -
  have "LF \<notin> set (concat proxy_literals)" "CHR ''%'' \<notin> set (concat proxy_literals)" by code_simp+
  then have "LF \<notin> set (proxy_command p)" "CHR ''%'' \<notin> set (proxy_command p)"
    using assms(2) proxy_command_avoids [of LF p] proxy_command_avoids [of "CHR ''%''" p]
    by (auto simp: command_text_def no_percent_def)
  moreover have "hd (proxy_command p) = hd (maybe_quote (sp_devc_bin p))"
      "last (proxy_command p) = last (maybe_quote (sp_workspace_name p))"
    using join_ends maybe_quote_ends(1) unfolding proxy_command_words_eq by metis+
  moreover have "hd (sp_devc_bin p) = SLASH" using assms(1) by (auto simp: is_abs_def prefix_def)
  moreover have "proxy_command p \<noteq> []"
    unfolding proxy_command_words_eq using maybe_quote_ends(1) by (cases "proxy_words p") auto
  moreover have "\<not> conf_blank SQ" by code_simp
  ultimately show ?thesis
    using maybe_quote_ends(2) [of "sp_devc_bin p"] maybe_quote_ends(3) [of "sp_workspace_name p"] not_needs_quote_blank
    by (auto simp: line_value_def no_percent_def)
qed

section \<open>What is rendered is what is read\<close>

definition login_user :: "ssh_params \<Rightarrow> string" where
  "login_user p = (if sp_user p = [] then ''root'' else sp_user p)"

definition plain_params :: "ssh_params \<Rightarrow> bool" where
  "plain_params p \<longleftrightarrow>
     is_abs (sp_devc_bin p)
     \<and> list_all command_text [sp_devc_bin p, sp_config_path p, sp_runtime_path p, sp_workspace_name p]
     \<and> list_all plain_value [sp_alias p, login_user p, sp_identity_file p, sp_known_hosts_file p, sp_control_dir p]
     \<and> list_all (\<lambda>f. port_ok (fst f) \<and> port_ok (snd f)) (sp_forwards p)"

definition client_of :: "ssh_params \<Rightarrow> ssh_client" where
  "client_of p =
     \<lparr>sc_host = sp_alias p, sc_host_name = sp_alias p, sc_user = login_user p, sc_proxy = proxy_argv p,
      sc_identity = sp_identity_file p, sc_known_hosts = sp_known_hosts_file p,
      sc_control_path = sp_control_dir p @ ''/control-'' @ login_user p, sc_identities_only = True, sc_strict = True,
      sc_forward_agent = sp_forward_agent p, sc_forwards = sort_key fst (sp_forwards p)\<rparr>"

text \<open>A forward: its argument, and the line.\<close>

definition forward_value :: "int \<times> int \<Rightarrow> string" where
  "forward_value f = itoa (fst f) @ '' localhost:'' @ itoa (snd f)"

lemma conf_port_itoa: "port_ok n \<Longrightarrow> conf_port (itoa n) = Some n"
  by (simp add: conf_port_def atoi_itoa in_int64_def port_ok_def)

lemma itoa_port_chars: "port_ok n \<Longrightarrow> c \<in> set (itoa n) \<Longrightarrow> \<not> conf_blank c \<and> c \<noteq> CHR ''='' \<and> c \<noteq> LF"
  using nat_digits_printable [of c "nat n"] by (auto simp: port_ok_def itoa_def conf_blank_def)

lemma itoa_not_Nil: "itoa n \<noteq> []"
  by (simp add: itoa_def)

lemma conf_forward_value:
  assumes "port_ok (fst f)" and "port_ok (snd f)"
  shows "conf_forward (forward_value f) = Some f"
proof -
  let ?a = "itoa (fst f)" and ?b = "''localhost:'' @ itoa (snd f)"
  have v: "forward_value f = ?a @ CHR '' '' # ?b" by (simp add: forward_value_def)
  have "takeWhile (\<lambda>c. \<not> conf_blank c) (?a @ CHR '' '' # ?b) = ?a"
    using itoa_port_chars [OF assms(1)] by (simp add: takeWhile_append2)
  moreover have "dropWhile conf_blank (CHR '' '' # ?b) = ?b"
    using dropWhile_spaces [of ?b 1] by (simp add: conf_blank_def)
  ultimately have "conf_forward (forward_value f) =
      (case (conf_port ?a, conf_port (itoa (snd f))) of (Some h, Some c) \<Rightarrow> Some (h, c) | _ \<Rightarrow> None)"
    by (simp add: v conf_forward_def Let_def)
  then show ?thesis using assms conf_port_itoa by simp
qed

lemma forward_value_line: "port_ok (fst f) \<Longrightarrow> port_ok (snd f) \<Longrightarrow> line_value (forward_value f)"
proof -
  assume a: "port_ok (fst f)" "port_ok (snd f)"
  have "hd (itoa (fst f)) \<in> set (itoa (fst f))" "last (itoa (snd f)) \<in> set (itoa (snd f))"
    by (simp_all add: itoa_not_Nil)
  then show ?thesis
    using a itoa_port_chars [of "fst f"] itoa_port_chars [of "snd f"]
    by (auto simp: line_value_def forward_value_def itoa_not_Nil)
qed

lemma conf_entries_forwards:
  assumes "list_all (\<lambda>f. port_ok (fst f) \<and> port_ok (snd f)) fs"
  shows "conf_entries (concat (map forward_line fs)) = map (\<lambda>f. (''LocalForward'', forward_value f)) fs"
  using assms
proof (induction fs)
  case (Cons f fs)
  have "forward_line f @ rest = ''    LocalForward          '' @ forward_value f @ [LF] @ rest" for rest
    by (simp add: forward_line_def forward_value_def)
  then show ?case
    using Cons conf_value_lines(9) [OF key_pads(9) forward_value_line [of f]] by (simp del: append.simps)
qed simp

lemma control_path_line:
  "plain_value d \<Longrightarrow> conf_entries (''    ControlPath           '' @ d @ ''/control-%r'' @ [LF] @ rest)
     = (''ControlPath'', d @ ''/control-%r'') # conf_entries rest"
proof -
  assume "plain_value d"
  then have "line_value d" by (rule plain_value_line)
  moreover have "\<not> conf_blank (last ''/control-%r'') \<and> LF \<notin> set ''/control-%r''" by code_simp
  ultimately have "line_value (d @ ''/control-%r'')" by (simp add: line_value_def)
  from conf_value_lines(7) [OF key_pads(7) this, of rest] show ?thesis by simp
qed

lemma render_entries:
  assumes "plain_params p"
  shows "conf_entries (render p) =
    [(''Host'', sp_alias p), (''HostName'', sp_alias p), (''User'', login_user p), (''ProxyCommand'', proxy_command p),
     (''IdentityFile'', sp_identity_file p), (''IdentitiesOnly'', ''yes''), (''UserKnownHostsFile'', sp_known_hosts_file p),
     (''StrictHostKeyChecking'', ''yes''), (''ControlMaster'', ''auto''), (''ControlPath'', sp_control_dir p @ ''/control-%r''),
     (''ControlPersist'', ''10m''), (''ServerAliveInterval'', ''30''), (''ForwardAgent'', yes_no (sp_forward_agent p))]
    @ map (\<lambda>f. (''LocalForward'', forward_value f)) (sort_key fst (sp_forwards p))"
proof -
  have v: "line_value (sp_alias p)" "line_value (login_user p)" "line_value (sp_identity_file p)"
      "line_value (sp_known_hosts_file p)" "plain_value (sp_control_dir p)" "line_value (proxy_command p)"
    using assms proxy_command_line [of p] plain_value_line by (auto simp: plain_params_def)
  have "line_value ''yes''" "line_value ''no''" by code_simp+
  then have yn: "line_value (yes_no b)" for b by (simp add: yes_no_def)
  have fwds: "conf_entries (concat (map forward_line (sort_key fst (sp_forwards p))))
      = map (\<lambda>f. (''LocalForward'', forward_value f)) (sort_key fst (sp_forwards p))"
    using assms by (intro conf_entries_forwards) (simp add: plain_params_def list_all_iff)
  show ?thesis
    unfolding render_def login_user_def [symmetric]
    by (simp only: conf_value_lines(1) [OF key_pads(1) v(1)] conf_value_lines(2) [OF key_pads(2) v(1)]
      conf_value_lines(3) [OF key_pads(3) v(2)] conf_value_lines(4) [OF key_pads(4) v(6)]
      conf_value_lines(5) [OF key_pads(5) v(3)] conf_value_lines(6) [OF key_pads(6) v(4)]
      control_path_line [OF v(5)] conf_value_lines(8) [OF key_pads(8) yn] fwds
      conf_fixed_lines(1) [OF fixed_entries(1)] conf_fixed_lines(2) [OF fixed_entries(2)]
      conf_fixed_lines(3) [OF fixed_entries(3)] conf_fixed_lines(4) [OF fixed_entries(4)]
      conf_fixed_lines(5) [OF fixed_entries(5)])
      (simp only: append.simps)
qed

lemma split_on_snoc_LF: "split_on LF (s @ [LF]) = split_on LF s @ [[]]"
proof (induction s)
  case (Cons c s)
  then show ?case by (cases "split_on LF s") auto
qed simp

lemma conf_entries_snoc: "conf_entries (s @ [LF]) = conf_entries s"
proof -
  have "conf_entry [] = None" by code_simp
  then show ?thesis by (simp add: conf_entries_def split_on_snoc_LF map_filter_def)
qed

lemma managed_entries: "conf_entries (managed_file [b]) = conf_entries b"
proof -
  define t where "t = ''# Managed by devc. Do not edit; regenerated on `devc up`.'' @ [LF, LF] @ b"
  have "conf_entry ''# Managed by devc. Do not edit; regenerated on `devc up`.'' = None
      \<and> LF \<notin> set ''# Managed by devc. Do not edit; regenerated on `devc up`.''" "conf_entry [] = None" by code_simp+
  then have "conf_entries t = conf_entries b"
    unfolding t_def using conf_entries_Cons [of "''# Managed by devc. Do not edit; regenerated on `devc up`.''" "LF # b"]
      conf_entries_Cons [of "[]" b] by simp
  moreover have "managed_file [b] = (if suffix [LF] t then t else t @ [LF])"
    by (simp add: managed_file_def t_def Let_def)
  ultimately show ?thesis by (simp add: conf_entries_snoc)
qed

lemma opt_list_Some: "(\<And>x. x \<in> set xs \<Longrightarrow> f x = Some (g x)) \<Longrightarrow> opt_list (map f xs) = Some (map g xs)"
  by (induction xs) simp_all

lemma render_client:
  assumes "plain_params p"
  shows "read_client (managed_file [render p]) = Some (client_of p)"
proof -
  have w: "plain_value (sp_alias p)" "plain_value (login_user p)" "plain_value (sp_identity_file p)"
      "plain_value (sp_known_hosts_file p)" "plain_value (sp_control_dir p)" "no_percent (proxy_command p)"
    using assms proxy_command_line [of p] by (auto simp: plain_params_def)
  have ports: "conf_forward (forward_value f) = Some f" if "f \<in> set (sp_forwards p)" for f
    using assms that conf_forward_value by (auto simp: plain_params_def list_all_iff)
  have fwds: "opt_list (map (conf_forward \<circ> snd) (map (\<lambda>f. (''LocalForward'', forward_value f)) (sort_key fst (sp_forwards p))))
      = Some (sort_key fst (sp_forwards p))"
    using opt_list_Some [of "sort_key fst (sp_forwards p)" "\<lambda>f. conf_forward (forward_value f)" id] ports
    by (simp add: comp_def)
  have yn: "conf_bool ''yes'' = Some True" "conf_bool (yes_no b) = Some b" for b
    by (simp_all add: conf_bool_def yes_no_def)
  have tok: "conn_tokens (sp_alias p) (sp_alias p) (login_user p) (CHR ''r'') = Some (login_user p)"
    by (simp add: conn_tokens_def)
  show ?thesis
    unfolding read_client_def managed_entries render_entries [OF assms] Let_def
    using fwds
    by (simp add: conf_value_def plain_value_word w expand_tokens_id proxy_command_words yn
      control_path_word [where tok = "conn_tokens (sp_alias p) (sp_alias p) (login_user p)", OF w(5) tok] client_of_def filter_map comp_def)
qed

text \<open>
  C18: an ssh client reads in the generated file exactly what \<open>Render\<close> was given, as long as the paths and names need
  no quoting there: the alias as host and host name, the user, the identity, the known hosts, the control path, the
  switches, the forwards of the container's ports by ascending host port; and the command it runs has the words of
  \<open>proxy_argv\<close>, whatever the paths in it hold except line ends and percent signs.
\<close>

theorem render_reads_back:
  assumes "plain_params p"
  shows "read_client (managed_file [render p]) = Some (client_of p)"
  using assms by (rule render_client)

definition demo_params :: ssh_params where
  "demo_params =
     \<lparr>sp_alias = ''devc.app'', sp_user = [], sp_devc_bin = ''/usr/bin/devc'', sp_config_path = ''/my app/.devcontainer.json'',
      sp_runtime_path = ''/bin/podman'', sp_workspace_name = ''app'', sp_identity_file = ''/k/id'',
      sp_known_hosts_file = ''/k/known'', sp_control_dir = ''/tmp/devc-1/app-1'', sp_forwards = [(8080, 80), (3000, 3000)],
      sp_forward_agent = True\<rparr>"

lemma render_reads_back_witness:
  "read_client (managed_file [render demo_params]) = Some (client_of demo_params)
   \<and> sc_proxy (client_of demo_params) = [''/usr/bin/devc'', ''ssh'', ''--stdio'', ''--start'', ''--config'',
        ''/my app/.devcontainer.json'', ''--runtime'', ''/bin/podman'', ''--forward-agent'', ''app'']
   \<and> sc_forwards (client_of demo_params) = [(3000, 3000), (8080, 80)]"
proof -
  have "plain_params demo_params" by code_simp
  from render_reads_back [OF this] show ?thesis
    by (simp add: client_of_def demo_params_def proxy_argv_def)
qed

end
