(* ===== verification/Reconnect.thy ===== *)
theory Reconnect
  imports Dispatch SshRead
begin

text \<open>
  From the file that \<open>devc up\<close> writes back to \<open>devc\<close>: an editor connects with an ssh client, the client runs the
  \<open>ProxyCommand\<close> of the Host block (\<open>sshconf/render.go\<close>), and that command is \<open>devc ssh --stdio\<close> again
  (\<open>cmd/devc/ssh.go\<close>), in another process with a working directory and a search path of its own.
\<close>

section \<open>The arguments\<close>

text \<open>What the shared flags are after the arguments of the \<open>ProxyCommand\<close>.\<close>

definition proxy_flags :: "ssh_params \<Rightarrow> common_flags" where
  "proxy_flags p =
     \<lparr>cf_path = ''.'', cf_name = [], cf_config = sp_config_path p, cf_runtime = sp_runtime_path p, cf_compose_cmd = [],
      cf_platform = [], cf_userns = [], cf_selinux = ''auto'', cf_quiet = False,
      cf_forward_agent = (if sp_forward_agent p then Some True else None), cf_sync_git_config = None\<rparr>"

lemma ssh_lookups:
  "flag_lookup ssh_flag_set ''stdio'' = Some (flag_bool ''stdio'' ''ProxyCommand mode: bridge stdin/stdout to the agent'')"
  "flag_lookup ssh_flag_set ''start'' = Some (flag_bool ''start'' ''ensure the workspace is up before connecting'')"
  "flag_lookup ssh_flag_set ''config'' = Some (flag_string ''config'' [] ''explicit devcontainer.json to use'')"
  "flag_lookup ssh_flag_set ''runtime'' =
     Some (flag_string ''runtime'' [] ''container runtime: podman or docker (default: autodetect)'')"
  "flag_lookup ssh_flag_set ''forward-agent'' =
     Some \<lparr>fl_name = ''forward-agent'', fl_kind = OptionalBoolFlag, fl_var = ''forward-agent'', fl_default = [],
        fl_usage = ''override credentials.forwardAgent (ssh-agent forwarding)''\<rparr>"
  by code_simp+

lemma ssh_defaults:
  "map_get (flag_defaults ssh_flag_set) ''path'' = ''.''" "map_get (flag_defaults ssh_flag_set) ''name'' = []"
  "map_get (flag_defaults ssh_flag_set) ''config'' = []" "map_get (flag_defaults ssh_flag_set) ''runtime'' = []"
  "map_get (flag_defaults ssh_flag_set) ''compose-cmd'' = []" "map_get (flag_defaults ssh_flag_set) ''platform'' = []"
  "map_get (flag_defaults ssh_flag_set) ''userns'' = []" "map_get (flag_defaults ssh_flag_set) ''selinux'' = ''auto''"
  "map_get (flag_defaults ssh_flag_set) ''q'' = ''false''" "map_get (flag_defaults ssh_flag_set) ''forward-agent'' = []"
  "map_get (flag_defaults ssh_flag_set) ''sync-git-config'' = []"
  by code_simp+

lemma proxy_words_flags:
  "flag_word ''--stdio'' = Flag ''stdio'' None" "flag_word ''--start'' = Flag ''start'' None"
  "flag_word ''--config'' = Flag ''config'' None" "flag_word ''--runtime'' = Flag ''runtime'' None"
  "flag_word ''--forward-agent'' = Flag ''forward-agent'' None"
  by code_simp+

text \<open>The parser on each of the words.\<close>

lemma ssh_parse_bool:
  "flag_parse ssh_flag_set m (''--stdio'' # ws) = flag_parse ssh_flag_set (map_put ''stdio'' ''true'' m) ws"
  "flag_parse ssh_flag_set m (''--start'' # ws) = flag_parse ssh_flag_set (map_put ''start'' ''true'' m) ws"
  "flag_parse ssh_flag_set m (''--forward-agent'' # ws) = flag_parse ssh_flag_set (map_put ''forward-agent'' ''true'' m) ws"
  "flag_parse ssh_flag_set m (''--config'' # s # ws) = flag_parse ssh_flag_set (map_put ''config'' s m) ws"
  "flag_parse ssh_flag_set m (''--runtime'' # s # ws) = flag_parse ssh_flag_set (map_put ''runtime'' s m) ws"
  by (simp_all only: flag_parse.simps proxy_words_flags ssh_lookups flag_word.case option.case)
    (simp_all add: flag_value_def is_bool_flag_def flag_bool_def flag_string_def parse_bool_def format_bool_def)

text \<open>The arguments of the block are accepted, and mean what was written there.\<close>

lemma proxy_args_parse:
  assumes "flag_word (sp_workspace_name p) = Operand"
  obtains v where "parse_args ssh_flag_set (drop 2 (proxy_argv p)) = Inr (v, [sp_workspace_name p])"
    "flag_on v ''stdio''" "flag_on v ''start''" "common_flags v = proxy_flags p"
proof -
  define v0 where "v0 = map_put ''start'' ''true'' (map_put ''stdio'' ''true'' (flag_defaults ssh_flag_set))"
  define v1 where "v1 = (if sp_config_path p = [] then v0 else map_put ''config'' (sp_config_path p) v0)"
  define v2 where "v2 = (if sp_runtime_path p = [] then v1 else map_put ''runtime'' (sp_runtime_path p) v1)"
  define v where "v = (if sp_forward_agent p then map_put ''forward-agent'' ''true'' v2 else v2)"
  have last: "flag_parse ssh_flag_set m [sp_workspace_name p] = (None, m, [sp_workspace_name p])" for m
    by (simp only: flag_parse.simps assms flag_word.case)
  have "flag_parse ssh_flag_set (flag_defaults ssh_flag_set) (drop 2 (proxy_argv p)) = (None, v, [sp_workspace_name p])"
  proof -
    have "drop 2 (proxy_argv p) = ''--stdio'' # ''--start''
        # (if sp_config_path p = [] then [] else [''--config'', sp_config_path p])
        @ (if sp_runtime_path p = [] then [] else [''--runtime'', sp_runtime_path p])
        @ (if sp_forward_agent p then [''--forward-agent''] else []) @ [sp_workspace_name p]"
      by (simp add: proxy_argv_def)
    then show ?thesis
      unfolding v_def v2_def v1_def v0_def
      by (simp only: ssh_parse_bool last append.simps split: if_split) simp
  qed
  then have "parse_args ssh_flag_set (drop 2 (proxy_argv p)) = Inr (v, [sp_workspace_name p])"
    by (simp add: parse_args_def)
  moreover have "flag_on v ''stdio''" "flag_on v ''start''"
    by (simp_all add: flag_on_def v_def v2_def v1_def v0_def)
  moreover have "common_flags v = proxy_flags p"
    by (simp add: common_flags_def proxy_flags_def v_def v2_def v1_def v0_def ssh_defaults flag_on_def parse_bool_def)
  ultimately show thesis by (rule that)
qed

section \<open>The configuration\<close>

text \<open>The configuration file names itself and its folder again, wherever it is looked up from.\<close>

definition reopens :: "spec \<Rightarrow> bool" where
  "reopens s \<longleftrightarrow> is_abs (s_config_path s) \<and> clean (s_config_path s) = s_config_path s
     \<and> local_workspace_folder (s_config_path s) = s_local_folder s"

lemma load_spec_paths:
  assumes "load_spec e path override = Inr (s, ws)"
  shows "discover e path override = Inr (s_config_path s, s_local_folder s)"
proof -
  obtain l r where l: "load e path override = Inr l" "resolve (env_home e) (l\<lparr>l_raw := r\<rparr>) = Inr s"
    using load_spec_Inr [OF assms] by metis
  then have "s_local_folder s = l_local_folder l" "s_config_path s = l_config_path l"
    by (auto simp: resolve_def resolve_source_def Let_def resolve_image_def resolve_compose_def
        split: sum.splits option.splits if_splits kind.splits)
  then show ?thesis using load_Inr(1) [OF l(1)] by metis
qed

text \<open>An explicit configuration reopens, and so does one that was found below a project directory.\<close>

lemma abs_path_clean: "abs_path e p = Some a \<Longrightarrow> is_abs a \<Longrightarrow> clean a = a"
  by (auto simp: abs_path_def path_join_def is_abs_def split: if_splits)

lemma reopens_override:
  assumes "load_spec e path override = Inr (s, ws)" and "override \<noteq> []" and "env_ok e"
  shows "reopens s"
proof -
  have d: "discover e path override = Inr (s_config_path s, s_local_folder s)" using load_spec_paths [OF assms(1)] .
  then have "is_abs (s_config_path s)" using discover_abs [OF assms(3)] by blast
  moreover have "abs_path e override = Some (s_config_path s)"
      "local_workspace_folder (s_config_path s) = s_local_folder s"
    using d assms(2) by (auto simp: discover_def split: option.splits)
  ultimately show ?thesis using abs_path_clean by (simp add: reopens_def)
qed

lemma reopens_found:
  assumes "load_spec e (abs_of ps) [] = Inr (s, ws)" and "env_stat e (abs_of ps) = Some IsDir"
    and "abs_parts ps" and "''.devcontainer'' \<notin> set ps"
    and "glob_ok e ps" and "s_config_path s \<noteq> nested_config ps ''.devcontainer''"
  shows "reopens s"
proof -
  obtain cs where "s_config_path s = abs_of cs" "abs_parts cs" "local_workspace_folder (s_config_path s) = s_local_folder s"
    using discovered_folder [OF load_spec_paths [OF assms(1)] assms(2-6)] .
  then show ?thesis using clean_abs_of [of cs] by (simp add: reopens_def abs_of_def is_abs_def)
qed

text \<open>The spec does not depend on the working directory it is read from.\<close>

lemma load_spec_config:
  assumes "load_spec e path override = Inr (s, ws)" and "reopens s"
  shows "load_spec (e\<lparr>env_cwd := d\<rparr>) path' (s_config_path s) = Inr (s, ws)"
proof -
  let ?e = "e\<lparr>env_cwd := d\<rparr>" and ?c = "s_config_path s"
  have same: "env_read ?e = env_read e" "env_parse ?e = env_parse e" "unknown_warning ?e = unknown_warning e"
      "env_lookup ?e = env_lookup e" "env_home ?e = env_home e"
    by (simp_all add: unknown_warning_def [abs_def])
  have "?c \<noteq> []" using assms(2) by (auto simp: reopens_def is_abs_def)
  then have "discover ?e path' ?c = discover e path override"
    using assms(2) load_spec_paths [OF assms(1)] by (simp add: discover_def abs_path_def reopens_def)
  then have "load ?e path' ?c = load e path override"
    by (simp only: load_def same)
  then show ?thesis using assms(1) by (simp only: load_spec_def same)
qed

section \<open>The connection\<close>

lemma slug_operand: "wf_slug w \<Longrightarrow> flag_word w = Operand"
  by (auto simp: wf_slug_def flag_word_def)

lemma set_up_parts:
  assumes "set_up sys c m = (Inr (x, ws), m1)"
  obtains path s where "load_spec (x_files sys) path (cf_config c) = Inr (s, ws)"
    "x_spec x = apply_overrides (cf_forward_agent c) (cf_sync_git_config c) s"
  using assms by (auto simp: set_up_def context_of_def split: prod.splits sum.splits)

text \<open>What \<open>main\<close> does with the command of the block, when configuration and runtime are found.\<close>

lemma main_on_proxy_command:
  assumes op: "flag_word (sp_workspace_name p) = Operand"
    and load: "load_spec (x_files sys) ''.'' (sp_config_path p) = Inr (s, ws)"
    and rt: "is_abs (sp_runtime_path p)" "ho_look (x_host sys) (sp_runtime_path p) = Some (sp_runtime_path p)"
  obtains x m1 where "x_spec x = apply_overrides (if sp_forward_agent p then Some True else None) None s"
    "x_cli x = \<lparr>cli_bin = sp_runtime_path p, cli_base = []\<rparr>" "only_calls (start_process m) m1"
    "devc_main sys agent sftp (tl (proxy_argv p)) m =
       (case ssh_stdio x True m1 of (err, m2) \<Rightarrow> (if err = None then 0 else 1, m2))"
proof -
  let ?cl = "\<lparr>cli_bin = sp_runtime_path p, cli_base = []\<rparr>"
  obtain v where v: "parse_args ssh_flag_set (drop 2 (proxy_argv p)) = Inr (v, [sp_workspace_name p])"
      "flag_on v ''stdio''" "flag_on v ''start''" "common_flags v = proxy_flags p"
    using proxy_args_parse [OF op] .
  have f: "cf_name (proxy_flags p) = []" "cf_config (proxy_flags p) = sp_config_path p" "cf_path (proxy_flags p) = ''.''"
      "cf_runtime (proxy_flags p) = sp_runtime_path p" "cf_sync_git_config (proxy_flags p) = None"
      "cf_forward_agent (proxy_flags p) = (if sp_forward_agent p then Some True else None)"
    by (simp_all add: proxy_flags_def)
  obtain label m1 where lab: "resolve_selinux sys (cf_selinux (proxy_flags p)) (start_process m) = (label, m1)" by fastforce
  define x where "x = context_of sys (proxy_flags p) ?cl s label"
  have "detect (x_host sys) (sp_runtime_path p) = Inr ?cl" using rt by (auto simp: detect_def is_abs_def)
  then have "set_up sys (common_flags v) (start_process m) = (Inr (x, ws), m1)"
    using load lab by (simp add: set_up_def v(4) f locate_workspace_def x_def)
  then have "run_ssh sys (drop 2 (proxy_argv p)) (start_process m) = ssh_stdio x True m1"
    using v by (simp add: run_ssh_def with_context_def)
  moreover have "tl (proxy_argv p) = ''ssh'' # drop 2 (proxy_argv p)" by (simp add: proxy_argv_def)
  ultimately have "devc_main sys agent sftp (tl (proxy_argv p)) m =
      (case ssh_stdio x True m1 of (err, m2) \<Rightarrow> (if err = None then 0 else 1, m2))"
    by (simp add: devc_main_def handlers_def failing_def Let_def split: prod.split)
  moreover have "x_spec x = apply_overrides (if sp_forward_agent p then Some True else None) None s" "x_cli x = ?cl"
    by (simp_all add: x_def context_of_def f)
  ultimately show thesis using that resolve_selinux_only [OF lab] by blast
qed


text \<open>With a well-formed spec only the paths have to be plain.\<close>

lemma slug_plain: "wf_slug n \<Longrightarrow> plain_value (''devc.'' @ n) \<and> command_text n"
proof -
  assume "wf_slug n"
  then have c: "c \<in> set n \<Longrightarrow> is_lower c \<or> is_digit c \<or> c = CHR ''-''" for c
    by (auto simp: wf_slug_def list_all_iff is_slug_char_def)
  have "conf_plain c \<and> c \<noteq> LF \<and> c \<noteq> CHR ''%''" if "is_lower c \<or> is_digit c \<or> c = CHR ''-''" for c
    using that by (auto simp: conf_plain_def is_lower_def is_digit_def)
  with c show ?thesis
    by (fastforce simp: plain_value_def command_text_def no_percent_def list_all_iff conf_plain_def)
qed

lemma plain_params_spec:
  assumes "wf_spec s" and "is_abs self" and "list_all command_text [self, s_config_path s, rt]"
    and "s_remote_user s = [] \<or> plain_value (s_remote_user s)"
    and "list_all plain_value [ks_client_private ks, ks_known_hosts ks, ctl]"
  shows "plain_params (ssh_params_of s self rt ks ctl)"
proof -
  have "wf_slug (s_name s)" and ports: "list_all wf_port (s_ports s)" using assms(1) by (simp_all add: wf_spec_def)
  moreover have "plain_value ''root''" by code_simp
  ultimately show ?thesis
    using assms(2-) slug_plain [of "s_name s"]
    by (auto simp: plain_params_def ssh_params_of_def ssh_alias_def login_user_def list_all_iff wf_port_def)
qed

lemma resolve_remote_user: "resolve home l = Inr s \<Longrightarrow> s_remote_user s = r_remote_user (l_raw l)"
  by (auto simp: resolve_def resolve_source_def Let_def resolve_image_def resolve_compose_def
      split: sum.splits option.splits if_splits kind.splits)

definition gui_system :: system where
  "gui_system = demo_system\<lparr>x_files := sample_env\<lparr>env_cwd := None\<rparr>, x_host := sample_host\<lparr>ho_look := Some\<rparr>\<rparr>"

definition demo_key_set :: key_set where
  "demo_key_set = paths_in ''/home/u/keys''"

text \<open>The context of the example, its configuration found from the project directory with forwarding turned on.\<close>

definition gui_flags :: common_flags where
  "gui_flags = demo_flags [''--path=app'', ''--forward-agent'']"

lemma demo_context:
  obtains x s m1 where "set_up demo_system gui_flags demo_session = (Inr (x, []), m1)"
    "x_spec x = apply_overrides (Some True) (cf_sync_git_config gui_flags) s" "x_cli x = \<lparr>cli_bin = ''/bin/podman'', cli_base = []\<rparr>"
    "x_host x = sample_host" "x_files x = sample_env" "wf_spec s" "s_remote_user s = []"
    "s_config_path s = ''/src/app/.devcontainer/go/devcontainer.json''" "s_local_folder s = ''/src/app''"
proof -
  let ?c = gui_flags and ?rt = "''/bin/podman''"
  let ?cl = "\<lparr>cli_bin = ?rt, cli_base = []\<rparr>"
  have c: "cf_name ?c = []" "cf_config ?c = []" "cf_path ?c = ''app''" "cf_runtime ?c = []" "cf_selinux ?c = ''auto''"
    "cf_forward_agent ?c = Some True" by code_simp+
  obtain s where r: "resolve (env_home sample_env) sample_loaded = Inr s" using sample_load(3) by blast
  have load: "load_spec sample_env ''app'' [] = Inr (s, [])"
    using r sample_load(1,2) by (simp add: load_spec_def Let_def sample_loaded_def)
  obtain label m1 where lab: "resolve_selinux demo_system ''auto'' demo_session = (label, m1)" by fastforce
  define x where "x = context_of demo_system ?c ?cl s label"
  have "detect (x_host demo_system) [] = Inr ?cl" "x_files demo_system = sample_env"
    by (simp_all add: detect_def demo_system_def sample_host_def)
  then have su: "set_up demo_system ?c demo_session = (Inr (x, []), m1)"
    using load lab c by (simp add: set_up_def locate_workspace_def x_def)
  have spec: "x_spec x = apply_overrides (Some True) (cf_sync_git_config ?c) s" "x_cli x = ?cl"
      "x_host x = sample_host" "x_files x = sample_env"
    by (simp_all add: x_def context_of_def c demo_system_def)
  have "discover sample_env ''app'' [] = Inr (''/src/app/.devcontainer/go/devcontainer.json'', ''/src/app'')" by code_simp
  with load_spec_paths [OF load] have paths: "s_config_path s = ''/src/app/.devcontainer/go/devcontainer.json''"
      "s_local_folder s = ''/src/app''" by simp_all
  have wfs: "wf_spec s" using load_spec_wf [OF load sample_env_ok] by simp
  have "r_remote_user (l_raw sample_loaded) = []" by code_simp
  then have user: "s_remote_user s = []" using resolve_remote_user [OF r] by simp
  show thesis by (rule that [OF su spec(1) spec(2-4) wfs user paths])
qed


end
