(* ===== verification/ProxyLog.thy ===== *)
theory ProxyLog
  imports Commands
begin

text \<open>
  The debug log of \<open>devc ssh --stdio\<close> (\<open>cmd/devc/proxylog.go\<close>) and the command as it writes it
  (\<open>runSSH\<close>, \<open>sshStdio\<close> of \<open>cmd/devc/ssh.go\<close>, with \<open>connect\<close> and \<open>ensure_up\<close> as in \<open>Up\<close>). The log is its lines, without the
  time stamps, or nothing when it could not be opened; the texts of errors are a parameter.
\<close>

section \<open>The log\<close>

type_synonym proxy_log = "string list option"

definition proxy_log_path :: "int \<Rightarrow> string" where
  "proxy_log_path uid = path_join [''/tmp'', ''devc-'' @ itoa uid, ''ssh-proxy.log'']"

definition logf :: "string \<Rightarrow> proxy_log \<Rightarrow> proxy_log" where
  "logf msg l = (case l of None \<Rightarrow> None | Some ls \<Rightarrow> Some (ls @ [msg]))"

text \<open>The directory is made, the file opened and cut to nothing; either may fail.\<close>

definition new_proxy_log :: "'a system_scheme \<Rightarrow> bool \<Rightarrow> int \<Rightarrow> session \<Rightarrow> proxy_log" where
  "new_proxy_log sys opens pid m =
     (if mkdir_ok (dir (proxy_log_path (x_uid sys))) m \<and> opens
      then logf (''=== devc ssh --stdio (pid '' @ itoa pid @ '') ==='') (Some []) else None)"

text \<open>The file is closed with the outcome as its last line; nothing is written to it afterwards.\<close>

definition finish_log :: "(cmd_error \<Rightarrow> string) \<Rightarrow> cmd_error option \<Rightarrow> proxy_log \<Rightarrow> proxy_log" where
  "finish_log txt err l =
     (case err of Some e \<Rightarrow> logf (''exit: error: '' @ txt e) l | None \<Rightarrow> logf ''exit: ok'' l)"

text \<open>What is in the file: each line with its time.\<close>

definition stamped :: "string \<times> string \<Rightarrow> string" where
  "stamped l = fst l @ '' '' @ snd l @ [LF]"

definition log_text :: "string list \<Rightarrow> string list \<Rightarrow> string" where
  "log_text stamps ls = concat (map stamped (zip stamps ls))"

section \<open>devc ssh with its log\<close>

definition serve_args_of :: "ctx \<Rightarrow> string \<Rightarrow> string list" where
  "serve_args_of x ref = agent_serve_args ref (s_remote_user (x_spec x)) (s_container_folder (x_spec x))
     (forward_agent (s_credentials (x_spec x)))"

definition exec_line :: "ctx \<Rightarrow> string \<Rightarrow> string" where
  "exec_line x ref = ''exec: '' @ cli_name (x_cli x) @ '' '' @ join '' '' (serve_args_of x ref)"

definition start_line :: "ctx \<Rightarrow> bool \<Rightarrow> string" where
  "start_line x start = ''stdio start: workspace='' @ s_name (x_spec x) @ '' runtime='' @ cli_name (x_cli x)
     @ '' start='' @ format_bool start"

definition logged_connect :: "ctx \<Rightarrow> string \<Rightarrow> session \<times> proxy_log \<Rightarrow> cmd_error option \<times> session \<times> proxy_log" where
  "logged_connect x ref w =
     (let l = logf (exec_line x ref) (snd w) in case connect x ref (fst w) of (err, m) \<Rightarrow> (err, m, l))"

definition logged_stdio :: "ctx \<Rightarrow> bool \<Rightarrow> session \<times> proxy_log \<Rightarrow> cmd_error option \<times> session \<times> proxy_log" where
  "logged_stdio x start w =
     (let l = logf (start_line x start) (snd w) in
      case attach_ref x (fst w) of
        (Inl e, m1) \<Rightarrow> (Some e, m1, l)
      | (Inr (ref, i), m1) \<Rightarrow>
          if is_running i then logged_connect x ref (m1, l)
          else if \<not> start then (Some (NotRunning (s_name (x_spec x))), m1, l)
          else
            (let l1 = logf ''workspace not running; bringing it up'' l in
             case ensure_up x m1 of
               (Some e, m2) \<Rightarrow> (Some e, m2, l1)
             | (None, m2) \<Rightarrow>
                 (case attach_ref x m2 of
                    (Inl e, m3) \<Rightarrow> (Some e, m3, l1)
                  | (Inr (ref', i'), m3) \<Rightarrow>
                      if is_running i' then logged_connect x ref' (m3, l1)
                      else (Some (DidNotComeUp (s_name (x_spec x))), m3, l1))))"

text \<open>\<open>runSSH\<close> of \<open>--stdio\<close>, from the parsed flags on; the arguments are logged as Go prints a list of texts.\<close>

definition invoked_line :: "string list \<Rightarrow> string" where
  "invoked_line args = ''stdio invoked: args=['' @ join '' '' args @ '']''"

definition logged_transport :: "(cmd_error \<Rightarrow> string) \<Rightarrow> system \<Rightarrow> string list \<Rightarrow> flag_vars \<Rightarrow> session \<times> proxy_log
    \<Rightarrow> cmd_error option \<times> session \<times> proxy_log" where
  "logged_transport txt sys args v w =
     (let l = logf (invoked_line args) (snd w) in
      case set_up sys (common_flags v) (fst w) of
        (Inl e, m1) \<Rightarrow> (Some e, m1, logf (''setup failed: '' @ txt e) l)
      | (Inr (x, _), m1) \<Rightarrow> logged_stdio x (flag_on v ''start'') (m1, l))"

text \<open>The log of a run, \<open>None\<close> also when the run writes none; \<open>opens\<close> tells whether the file can be opened.\<close>

definition logged_ssh :: "(cmd_error \<Rightarrow> string) \<Rightarrow> bool \<Rightarrow> int \<Rightarrow> system \<Rightarrow> string list \<Rightarrow> session
    \<Rightarrow> cmd_error option \<times> session \<times> proxy_log" where
  "logged_ssh txt opens pid sys args m =
     (case parse_args ssh_flag_set args of
        Inl e \<Rightarrow> (Some (BadFlags e), m, None)
      | Inr (v, _) \<Rightarrow>
          if flag_on v ''stdio'' then
            (case logged_transport txt sys args v (m, new_proxy_log sys opens pid m) of
               (err, m1, l) \<Rightarrow> (err, m1, finish_log txt err l))
          else
            (case set_up sys (common_flags v) m of
               (Inl e, m1) \<Rightarrow> (Some e, m1, None)
             | (Inr (x, _), m1) \<Rightarrow> (case ssh_spawn x m1 of (err, m2) \<Rightarrow> (err, m2, None))))"

section \<open>The log changes nothing\<close>

lemma logged_connect_same: "fst (logged_connect x ref w) = fst (connect x ref (fst w))
    \<and> fst (snd (logged_connect x ref w)) = snd (connect x ref (fst w))"
  by (simp add: logged_connect_def split: prod.split)

lemma logged_stdio_same: "fst (logged_stdio x start w) = fst (ssh_stdio x start (fst w))
    \<and> fst (snd (logged_stdio x start w)) = snd (ssh_stdio x start (fst w))"
  by (auto simp: logged_stdio_def ssh_stdio_def Let_def logged_connect_same split: prod.split sum.split option.split)

lemma logged_ssh_same: "logged_ssh txt opens pid sys args m = (err, m', l) \<Longrightarrow> run_ssh sys args m = (err, m')"
  using logged_stdio_same
  by (auto simp: logged_ssh_def run_ssh_def with_context_def logged_transport_def Let_def prod_eq_iff
      split: sum.splits prod.splits if_splits)

section \<open>What the log says\<close>

lemma logf_Some: "logf msg l = Some ls \<longleftrightarrow> (\<exists>ls0. l = Some ls0 \<and> ls = ls0 @ [msg])"
  by (auto simp: logf_def split: option.split)

lemma logged_connect_log: "logged_connect x ref (m, l) = (err, m', l') \<Longrightarrow> l' = logf (exec_line x ref) l"
  by (auto simp: logged_connect_def split: prod.splits)

lemma logged_stdio_log:
  assumes "logged_stdio x start (m, Some ls) = (err, m', l')"
  shows "\<exists>mid. l' = Some (ls @ start_line x start # mid)
    \<and> (err = None \<longrightarrow> mid \<noteq> [] \<and> prefix ''exec: '' (last mid))"
  using assms
  by (auto simp: logged_stdio_def Let_def logf_def exec_line_def dest!: logged_connect_log
      split: prod.splits sum.splits option.splits if_splits)

lemma logged_stdio_none: "logged_stdio x start (m, None) = (err, m', l') \<Longrightarrow> l' = None"
  by (auto simp: logged_stdio_def Let_def logf_def dest!: logged_connect_log
      split: prod.splits sum.splits option.splits if_splits)

lemma logged_transport_log:
  assumes "logged_transport txt sys args v (m, l) = (err, m', l')"
  shows "case l of None \<Rightarrow> l' = None
    | Some ls \<Rightarrow> \<exists>mid. l' = Some (ls @ invoked_line args # mid) \<and> mid \<noteq> [] \<and> (err = None \<longrightarrow> prefix ''exec: '' (last mid))"
proof (cases l)
  case None
  then show ?thesis using assms
    by (auto simp: logged_transport_def Let_def logf_def dest!: logged_stdio_none split: sum.splits prod.splits)
next
  case (Some ls)
  then show ?thesis using assms
    by (auto simp: logged_transport_def Let_def logf_def dest!: logged_stdio_log split: sum.splits prod.splits)
qed

definition outcome_line :: "(cmd_error \<Rightarrow> string) \<Rightarrow> cmd_error option \<Rightarrow> string" where
  "outcome_line txt err = (case err of Some e \<Rightarrow> ''exit: error: '' @ txt e | None \<Rightarrow> ''exit: ok'')"

lemma finish_log_Some: "finish_log txt err (Some ls) = Some (ls @ [outcome_line txt err])"
  by (simp add: finish_log_def logf_def outcome_line_def split: option.split)

text \<open>
  C19: the debug log never gets in the way of the connection, and tells how it ended. With the log or without, whether
  or not its file can be opened, the command ends with the same error or none and leaves the same state. The file is
  written exactly by \<open>--stdio\<close> when it can be opened: it holds that one run, from the line with the process id and
  the one with the arguments to the line with the outcome, and before an outcome of success the line with the call
  of the agent.
\<close>

theorem proxy_log_transparent:
  assumes run: "logged_ssh txt opens pid sys args m = (err, m', l)"
  shows "run_ssh sys args m = (err, m')
    \<and> (l \<noteq> None \<longleftrightarrow> (\<exists>v rest. parse_args ssh_flag_set args = Inr (v, rest) \<and> flag_on v ''stdio'')
         \<and> mkdir_ok (dir (proxy_log_path (x_uid sys))) m \<and> opens)
    \<and> (\<forall>ls. l = Some ls \<longrightarrow> (\<exists>mid.
         ls = [''=== devc ssh --stdio (pid '' @ itoa pid @ '') ==='', invoked_line args] @ mid @ [outcome_line txt err]
         \<and> mid \<noteq> [] \<and> (err = None \<longrightarrow> prefix ''exec: '' (last mid))))"
proof (cases "\<exists>v rest. parse_args ssh_flag_set args = Inr (v, rest) \<and> flag_on v ''stdio''")
  case False
  then have "l = None"
    using run by (auto simp: logged_ssh_def split: sum.splits prod.splits if_splits)
  with False show ?thesis using logged_ssh_same [OF run] by simp
next
  case True
  then obtain v rest where v: "parse_args ssh_flag_set args = Inr (v, rest)" "flag_on v ''stdio''" by blast
  obtain e m1 l1 where t: "logged_transport txt sys args v (m, new_proxy_log sys opens pid m) = (e, m1, l1)"
    by (metis prod_cases3)
  then have end': "err = e" "m' = m1" "l = finish_log txt e l1"
    using run v by (auto simp: logged_ssh_def)
  show ?thesis
  proof (cases "mkdir_ok (dir (proxy_log_path (x_uid sys))) m \<and> opens")
    case ok: True
    then have "new_proxy_log sys opens pid m = Some [''=== devc ssh --stdio (pid '' @ itoa pid @ '') ==='']"
      by (simp add: new_proxy_log_def logf_def)
    with logged_transport_log [OF t] obtain mid where
        "l1 = Some ([''=== devc ssh --stdio (pid '' @ itoa pid @ '') ===''] @ invoked_line args # mid)" "mid \<noteq> []"
        "e = None \<longrightarrow> prefix ''exec: '' (last mid)"
      by auto
    then show ?thesis using True ok logged_ssh_same [OF run] end' by (simp add: finish_log_Some)
  next
    case False
    then have "new_proxy_log sys opens pid m = None" by (auto simp: new_proxy_log_def)
    with logged_transport_log [OF t] have "l = None"
      using end'(3) by (simp add: finish_log_def logf_def split: option.splits)
    with False show ?thesis using logged_ssh_same [OF run] by simp
  qed
qed

lemma proxy_log_transparent_witness:
  "\<exists>err m' ls. logged_ssh (\<lambda>_. ''failed'') True 7 demo_system [''--stdio'', ''--path=app''] demo_session = (err, m', Some ls)
     \<and> run_ssh demo_system [''--stdio'', ''--path=app''] demo_session = (err, m')
     \<and> hd ls = ''=== devc ssh --stdio (pid 7) ==='' \<and> ls ! 1 = ''stdio invoked: args=[--stdio --path=app]''"
proof -
  let ?args = "[''--stdio'', ''--path=app'']"
  obtain err m' l where run: "logged_ssh (\<lambda>_. ''failed'') True 7 demo_system ?args demo_session = (err, m', l)"
    by (metis prod_cases3)
  have "case parse_args ssh_flag_set ?args of Inl _ \<Rightarrow> False | Inr (v, _) \<Rightarrow> flag_on v ''stdio''" by code_simp
  then have "\<exists>v rest. parse_args ssh_flag_set ?args = Inr (v, rest) \<and> flag_on v ''stdio''"
    by (auto split: sum.splits)
  moreover have "mkdir_ok d demo_session" for d by (simp add: mkdir_ok_def demo_session_def)
  ultimately have "l \<noteq> None" using proxy_log_transparent [OF run] by blast
  moreover have "''=== devc ssh --stdio (pid '' @ itoa 7 @ '') ==='' = ''=== devc ssh --stdio (pid 7) ===''"
    "invoked_line ?args = ''stdio invoked: args=[--stdio --path=app]''" by code_simp+
  ultimately show ?thesis using proxy_log_transparent [OF run] run by fastforce
qed

end
