(* ===== verification/Output.thy ===== *)
theory Output
  imports Completion
begin

text \<open>
  What commands print: the report of \<open>devc status\<close> (\<open>cmd/devc/lifecycle.go\<close>), the warnings of a configuration
  (\<open>printWarnings\<close> of \<open>cmd/devc/keys.go\<close>), and the scripts of \<open>devc completion\<close> (\<open>cmd/devc/completion.go\<close>), line by line.
\<close>

section \<open>devc status\<close>

definition port_line :: "port_forward \<Rightarrow> string" where
  "port_line p = ''port:       '' @ itoa (host_port p) @ '' -> container '' @ itoa (container_port p) @ [LF]"

definition print_status :: "ctx \<Rightarrow> status_report \<Rightarrow> string" where
  "print_status x r =
     ''workspace:  '' @ rp_name r @ '' ('' @ rp_id r @ '')'' @ [LF]
     @ ''kind:       '' @ rp_kind r @ [LF]
     @ ''runtime:    '' @ rp_runtime r @ [LF]
     @ ''folder:     '' @ rp_local r @ '' -> '' @ rp_container r @ [LF]
     @ (if s_kind (x_spec x) = KindCompose
        then ''compose:    project '' @ project_of x @ '', service '' @ compose_service (x_spec x) @ [LF] else [])
     @ (if rp_container_id r = [] then ''state:      '' @ rp_state r @ [LF]
        else ''state:      '' @ rp_state r @ '' ('' @ rp_container_id r @ '')'' @ [LF])
     @ (if rp_config_drift r
        then ''            config changed since creation - `devc up --recreate` to apply'' @ [LF] else [])
     @ concat (map port_line (s_ports (x_spec x)))"

section \<open>Warnings\<close>

definition print_warnings :: "bool \<Rightarrow> string list \<Rightarrow> string" where
  "print_warnings quiet warns = (if quiet then [] else concat (map (\<lambda>w. ''warning: '' @ w @ [LF]) warns))"

section \<open>The scripts of devc completion\<close>

definition bash_completion :: "string list" where
  "bash_completion =
      [''# devc bash completion. Load with:'',
       ''#   source <(devc completion bash)'',
       ''_devc() {'',
       ''    local words=() i w'',
       ''    for ((i = 1; i <= COMP_CWORD; i++)); do'',
       ''        w=${COMP_WORDS[i]}'',
       ''        if ((${#words[@]})) && [[ $w == = || ${COMP_WORDS[i-1]} == = ]]; then'',
       ''            words[${#words[@]}-1]+=$w'',
       ''        else'',
       ''            words+=('' @ [DQ] @ ''$w'' @ [DQ] @ '')'',
       ''        fi'',
       ''    done'',
       [],
       ''    local out'',
       ''    out=$(devc __complete '' @ [DQ] @ ''${words[@]}'' @ [DQ] @ '' 2>/dev/null) || return'',
       ''    local IFS=$'' @ [SQ] @ [BSL] @ ''n'' @ [SQ],
       ''    local cands=($out)'',
       ''    ((${#cands[@]})) || return'',
       ''    if [[ ${cands[-1]} == :files ]]; then'',
       ''        compopt -o default'',
       ''        COMPREPLY=()'',
       ''        return'',
       ''    fi'',
       ''    COMPREPLY=('' @ [DQ] @ ''${cands[@]%%$'' @ [SQ] @ [BSL] @ ''t'' @ [SQ] @ ''*}'' @ [DQ] @ '')'',
       ''    local cur=${words[${#words[@]}-1]}'',
       ''    if [[ $cur == *=* && $COMP_WORDBREAKS == *=* ]]; then'',
       ''        COMPREPLY=('' @ [DQ] @ ''${COMPREPLY[@]#*=}'' @ [DQ] @ '')'',
       ''    fi'',
       ''}'',
       ''complete -F _devc devc'']"

definition zsh_completion :: "string list" where
  "zsh_completion =
      [''#compdef devc'',
       ''# devc zsh completion. Load with:'',
       ''#   source <(devc completion zsh)'',
       ''# or save it as _devc in a directory on $fpath.'',
       ''_devc() {'',
       ''    local -a out cands'',
       ''    local l'',
       ''    out=('' @ [DQ] @ ''${(@f)$(devc __complete '' @ [DQ] @ ''${(@)words[2,CURRENT]}'' @ [DQ] @ '' 2>/dev/null)}'' @ [DQ] @ '')'',
       ''    if [[ $out[-1] == :files ]]; then'',
       ''        compset -P '' @ [SQ] @ ''*='' @ [SQ],
       ''        _files'',
       ''        return'',
       ''    fi'',
       ''    for l in $out; do'',
       ''        [[ -n $l ]] || continue'',
       ''        if [[ $l == *$'' @ [SQ] @ [BSL] @ ''t'' @ [SQ] @ ''* ]]; then'',
       ''            cands+=('' @ [DQ] @ ''${${l%%$'' @ [SQ] @ [BSL] @ ''t'' @ [SQ] @ ''*}//:/'' @ [BSL] @ [BSL] @ '':}:${l#*$'' @ [SQ] @ [BSL] @ ''t'' @ [SQ] @ ''}'' @ [DQ] @ '')'',
       ''        else'',
       ''            cands+=('' @ [DQ] @ ''${l//:/'' @ [BSL] @ [BSL] @ '':}'' @ [DQ] @ '')'',
       ''        fi'',
       ''    done'',
       ''    _describe -t devc devc cands'',
       ''}'',
       ''if [[ $zsh_eval_context[-1] == loadautofunc ]]; then'',
       ''    _devc '' @ [DQ] @ ''$@'' @ [DQ],
       ''else'',
       ''    compdef _devc devc'',
       ''fi'']"

definition fish_completion :: "string list" where
  "fish_completion =
      [''# devc fish completion. Load with:'',
       ''#   devc completion fish | source'',
       ''# or save it as ~/.config/fish/completions/devc.fish.'',
       ''function __devc_complete'',
       ''    set -l tokens (commandline -opc) (commandline -ct)'',
       ''    set -e tokens[1]'',
       ''    set -l out (devc __complete $tokens 2>/dev/null)'',
       ''    if test '' @ [DQ] @ ''$out[-1]'' @ [DQ] @ '' = :files'',
       ''        set -l cur (commandline -ct)'',
       ''        set -l pre (string match -r -- '' @ [SQ] @ ''^-[^=]*='' @ [SQ] @ '' $cur)'',
       ''        for p in (__fish_complete_path (string replace -r -- '' @ [SQ] @ ''^-[^=]*='' @ [SQ] @ '' '' @ [SQ] @ [SQ] @ '' $cur))'',
       ''            echo $pre$p'',
       ''        end'',
       ''        return'',
       ''    end'',
       ''    printf '' @ [SQ] @ ''%s'' @ [BSL] @ ''n'' @ [SQ] @ '' $out'',
       ''end'',
       ''complete -c devc -f -a '' @ [SQ] @ ''(__devc_complete)'' @ [SQ]]"

definition script_text :: "string list \<Rightarrow> string" where
  "script_text ls = concat (map (\<lambda>l. l @ [LF]) ls)"

definition completion_script :: "string \<Rightarrow> string option" where
  "completion_script shell = map_of
     [(''bash'', script_text bash_completion), (''zsh'', script_text zsh_completion),
      (''fish'', script_text fish_completion)] shell"

text \<open>\<open>runCompletion\<close> prints a script exactly when it reports no error.\<close>

definition print_completion :: "string list \<Rightarrow> string option" where
  "print_completion args = (case args of [shell] \<Rightarrow> completion_script shell | _ \<Rightarrow> None)"

lemma print_completion_ok: "print_completion args \<noteq> None \<longleftrightarrow> fst (run_completion args m) = None"
  by (auto simp: print_completion_def run_completion_def completion_script_def completion_shells_def split: list.split)

text \<open>Every script asks \<open>devc __complete\<close> and knows the directive that hands a word back.\<close>

definition script_calls_back :: "string list \<Rightarrow> bool" where
  "script_calls_back ls \<longleftrightarrow> list_ex (\<lambda>l. contains l ''devc __complete'') ls \<and> list_ex (\<lambda>l. contains l directive_files) ls"

lemma scripts_call_back: "list_all script_calls_back [bash_completion, zsh_completion, fish_completion]"
  by code_simp

end
