(* ===== verification/PtyRun.thy ===== *)
theory PtyRun
  imports AgentSession
begin

text \<open>
  How a claimed command is started and run. First the starting of each kind (\<open>runWithPTY\<close>, \<open>runWithPipes\<close> of
  \<open>agent/session.go\<close>, \<open>startSFTP\<close> of \<open>agent/sftp.go\<close>) as functions of what the operating system answers, which are steps
  of the session. Then how a command with a terminal runs (\<open>runWithPTY\<close> and \<open>applyResizes\<close> of \<open>agent/session.go\<close>), in more detail than the
  step from \<open>Running\<close> to \<open>Over\<close> of \<open>AgentSession\<close>: the goroutine that waits for the command, stops and joins the
  applier of window sizes, closes the terminal and sends the exit status, and the applier, which takes a size and
  then sets it. \<open>Setsize\<close> and \<open>Close\<close> must not race.
\<close>

section \<open>Starting\<close>

text \<open>After \<open>start\<close> has answered the request: \<open>pty.Start\<close>, or the pipe and \<open>Start\<close>.\<close>

definition begin_with_pty :: "bool \<Rightarrow> launch \<Rightarrow> conn \<Rightarrow> conn" where
  "begin_with_pty ok l s = (if ok then s\<lparr>cn_phase := Running l\<rparr> else finish PtyFailed s)"

definition begin_with_pipes :: "bool \<Rightarrow> bool \<Rightarrow> launch \<Rightarrow> conn \<Rightarrow> conn" where
  "begin_with_pipes pipe ok l s =
     (if \<not> pipe then finish PipeFailed s
      else if \<not> ok then finish StartFailed s
      else s\<lparr>cn_phase := Running l\<rparr>)"

text \<open>
  \<open>startSFTP\<close> answers only once the server runs. \<open>found\<close>: the agent's own executable was found (\<open>Some self\<close>), \<open>user\<close>: the
  user could be resolved; either failing has the status of a failed start or pipe.
\<close>

definition start_sftp :: "box \<Rightarrow> agent_config \<Rightarrow> string option \<Rightarrow> bool \<Rightarrow> bool \<Rightarrow> bool \<Rightarrow> nat \<Rightarrow> bool \<Rightarrow> conn \<Rightarrow> conn" where
  "start_sftp b cfg found user pipe ok n want s =
     (case found of
        None \<Rightarrow> finish StartFailed (reply n want False s)
      | Some self \<Rightarrow>
          if \<not> user then finish PipeFailed (reply n want False s)
          else
            (let l = build_command b cfg self (cn_sock s) (snapshot s) Sftp in
             if \<not> pipe then finish PipeFailed (reply n want False s)
             else if \<not> ok then finish StartFailed (reply n want False s)
             else reply n want True (s\<lparr>cn_phase := Running l\<rparr>)))"

lemma begin_with_pty_step:
  "cn_phase s = Starting l \<Longrightarrow> la_pty l \<Longrightarrow> \<not> cn_panicked s \<Longrightarrow> step b cfg self s (begin_with_pty ok l s)"
  by (auto simp: begin_with_pty_def intro: step.started step.not_started)

lemma begin_with_pipes_step:
  "cn_phase s = Starting l \<Longrightarrow> \<not> la_pty l \<Longrightarrow> \<not> cn_panicked s \<Longrightarrow> step b cfg self s (begin_with_pipes pipe ok l s)"
  by (auto simp: begin_with_pipes_def intro: step.started step.not_started)

lemma start_sftp_step:
  assumes "cn_phase s = Claimed Sftp n want" and "\<not> cn_panicked s" and "found \<in> {None, Some self}"
  shows "step b cfg self s (start_sftp b cfg found user pipe ok n want s)"
  using assms step.begin_sftp [OF assms(1,2), of b cfg self] step.refuse_sftp [OF assms(1) _ assms(2), of _ b cfg self]
  by (auto simp: start_sftp_def Let_def)

section \<open>The label of a command\<close>

text \<open>\<open>commandLabel\<close>, for the agent's debug log (\<open>newDebugLogger\<close>, which logs only to a file it is given and can open).\<close>

definition command_label :: "string option \<Rightarrow> string" where
  "command_label c =
     (case c of
        None \<Rightarrow> ''(shell)''
      | Some t \<Rightarrow> if 160 < length t then take 160 t @ ''...'' else t)"

lemma command_label_bound: "length (command_label c) \<le> 163"
  by (auto simp: command_label_def split: option.split)

definition new_debug_logger :: "(string \<Rightarrow> bool) \<Rightarrow> int \<Rightarrow> string \<Rightarrow> string option" where
  "new_debug_logger opens pid path =
     (if path = [] then None else if opens path then Some (''pid='' @ itoa pid @ '' '') else None)"

section \<open>Two goroutines\<close>

datatype waiter = Copying | Waited wait_result | Stopping wait_result | Joined wait_result | Closed wait_result | Sent

datatype applier = Selecting | Setting win | Gone

record pty_run =
  pr_conn :: conn
  pr_waiter :: waiter
  pr_applier :: applier
  pr_open :: bool
  pr_stopped :: bool
  pr_raced :: bool

definition start_pty :: "conn \<Rightarrow> pty_run" where
  "start_pty s = \<lparr>pr_conn = s, pr_waiter = Copying, pr_applier = Selecting, pr_open = True, pr_stopped = False, pr_raced = False\<rparr>"

text \<open>\<open>elsewhere\<close>: what the other goroutines of the session do meanwhile.\<close>

inductive pty_step :: "box \<Rightarrow> agent_config \<Rightarrow> string \<Rightarrow> pty_run \<Rightarrow> pty_run \<Rightarrow> bool"
  for b :: box and cfg :: agent_config and self :: string where
  elsewhere: "step b cfg self (pr_conn r) s \<Longrightarrow> cn_phase s = cn_phase (pr_conn r) \<Longrightarrow>
    cn_applied s = cn_applied (pr_conn r) \<Longrightarrow> pty_step b cfg self r (r\<lparr>pr_conn := s\<rparr>)"
| take_size: "pr_applier r = Selecting \<Longrightarrow> cn_slot (pr_conn r) = Some w \<Longrightarrow>
    pty_step b cfg self r (r\<lparr>pr_conn := (pr_conn r)\<lparr>cn_slot := None\<rparr>, pr_applier := Setting w\<rparr>)"
| set_it: "pr_applier r = Setting w \<Longrightarrow>
    pty_step b cfg self r (r\<lparr>pr_conn := (pr_conn r)\<lparr>cn_applied := cn_applied (pr_conn r) @ [set_size w]\<rparr>,
      pr_applier := Selecting, pr_raced := pr_raced r \<or> \<not> pr_open r\<rparr>)"
| see_stop: "pr_applier r = Selecting \<Longrightarrow> pr_stopped r \<Longrightarrow> pty_step b cfg self r (r\<lparr>pr_applier := Gone\<rparr>)"
| wait_over: "pr_waiter r = Copying \<Longrightarrow> pty_step b cfg self r (r\<lparr>pr_waiter := Waited wr\<rparr>)"
| close_stop: "pr_waiter r = Waited wr \<Longrightarrow> pty_step b cfg self r (r\<lparr>pr_waiter := Stopping wr, pr_stopped := True\<rparr>)"
| join_applier: "pr_waiter r = Stopping wr \<Longrightarrow> pr_applier r = Gone \<Longrightarrow> pty_step b cfg self r (r\<lparr>pr_waiter := Joined wr\<rparr>)"
| close_pty: "pr_waiter r = Joined wr \<Longrightarrow> pty_step b cfg self r (r\<lparr>pr_waiter := Closed wr, pr_open := False\<rparr>)"
| send_exit: "pr_waiter r = Closed wr \<Longrightarrow>
    pty_step b cfg self r (r\<lparr>pr_waiter := Sent, pr_conn := finish (Ended wr) (pr_conn r)\<rparr>)"

inductive_cases pty_stepE: "pty_step b cfg self r r'"

section \<open>What it is for the session\<close>

text \<open>A size that was taken counts as applied.\<close>

fun taken :: "applier \<Rightarrow> (16 word \<times> 16 word) list" where
  "taken (Setting w) = [set_size w]"
| "taken _ = []"

definition pty_abs :: "pty_run \<Rightarrow> conn" where
  "pty_abs r = (pr_conn r)\<lparr>cn_applied := cn_applied (pr_conn r) @ taken (pr_applier r)\<rparr>"

definition pty_inv :: "launch \<Rightarrow> pty_run \<Rightarrow> bool" where
  "pty_inv l r \<longleftrightarrow>
     (if pr_waiter r = Sent then cn_phase (pr_conn r) = Over else cn_phase (pr_conn r) = Running l)
     \<and> (pr_open r \<longleftrightarrow> (case pr_waiter r of Closed wr \<Rightarrow> False | Sent \<Rightarrow> False | _ \<Rightarrow> True))
     \<and> (pr_stopped r \<longleftrightarrow> (case pr_waiter r of Copying \<Rightarrow> False | Waited wr \<Rightarrow> False | _ \<Rightarrow> True))
     \<and> (case pr_waiter r of Joined wr \<Rightarrow> pr_applier r = Gone | Closed wr \<Rightarrow> pr_applier r = Gone
          | Sent \<Rightarrow> pr_applier r = Gone | _ \<Rightarrow> True)
     \<and> (pr_applier r = Gone \<longrightarrow> pr_stopped r) \<and> \<not> pr_raced r"

lemma pty_step_inv: "pty_step b cfg self r r' \<Longrightarrow> pty_inv l r \<Longrightarrow> pty_inv l r'"
  by (induction rule: pty_step.induct) (auto simp: pty_inv_def finish_def split: waiter.splits if_splits)

text \<open>The other goroutines do not look at the sizes already applied.\<close>

lemma reply_applied: "reply n want ok (s\<lparr>cn_applied := a\<rparr>) = (reply n want ok s)\<lparr>cn_applied := a\<rparr>"
  by (cases s) (simp add: reply_def)

lemma spawn_applied: "spawn r n c (s\<lparr>cn_applied := a\<rparr>) = (spawn r n c s)\<lparr>cn_applied := a\<rparr>"
  by (cases s) (simp add: spawn_def reply_def)

lemma handlers_applied:
  "handle_pty_req r n (s\<lparr>cn_applied := a\<rparr>) = (handle_pty_req r n s)\<lparr>cn_applied := a\<rparr>"
  "handle_env r n (s\<lparr>cn_applied := a\<rparr>) = (handle_env r n s)\<lparr>cn_applied := a\<rparr>"
  "handle_window_change r n (s\<lparr>cn_applied := a\<rparr>) = (handle_window_change r n s)\<lparr>cn_applied := a\<rparr>"
  "handle_agent_req cfg sock r n (s\<lparr>cn_applied := a\<rparr>) = (handle_agent_req cfg sock r n s)\<lparr>cn_applied := a\<rparr>"
  by (cases s; simp add: handle_pty_req_def handle_env_def handle_window_change_def handle_agent_req_def reply_def
      split: sliced.split option.split)+

lemma with_string_applied:
  "(\<And>t. f t (s\<lparr>cn_applied := a\<rparr>) = (f t s)\<lparr>cn_applied := a\<rparr>) \<Longrightarrow>
   with_string f r (s\<lparr>cn_applied := a\<rparr>) = (with_string f r s)\<lparr>cn_applied := a\<rparr>"
  by (cases s) (simp add: with_string_def split: sliced.split)

lemma handle_applied: "handle cfg sock r (s\<lparr>cn_applied := a\<rparr>) = (handle cfg sock r s)\<lparr>cn_applied := a\<rparr>"
proof -
  have seen: "s\<lparr>cn_applied := a, cn_seen := q\<rparr> = s\<lparr>cn_seen := q, cn_applied := a\<rparr>" for q by (cases s) simp
  show ?thesis
    by (simp add: handle_def Let_def seen handlers_applied reply_applied spawn_applied with_string_applied)
qed

lemma step_applied:
  assumes "step b cfg self s s'" and "cn_phase s' = cn_phase s" and "cn_applied s' = cn_applied s"
  shows "step b cfg self (s\<lparr>cn_applied := a\<rparr>) (s'\<lparr>cn_applied := a\<rparr>)"
  using assms(1)
proof cases
  case (receive r sock)
  then show ?thesis using step.receive [of "s\<lparr>cn_applied := a\<rparr>" r b cfg self sock] by (simp add: handle_applied)
next
  case (discard n w want ok)
  then show ?thesis using step.discard [of "s\<lparr>cn_applied := a\<rparr>" n w want ok b cfg self] by (cases s) simp
next
  case (send n w want ok)
  then show ?thesis using step.send [of "s\<lparr>cn_applied := a\<rparr>" n w want ok b cfg self]
    by (cases s; cases want) (simp_all add: reply_def)
next
  case (other_session p)
  then show ?thesis using step.other_session [of "s\<lparr>cn_applied := a\<rparr>" b cfg self p] by (cases s) simp
next
  case forward_closed
  then show ?thesis using step.forward_closed [of "s\<lparr>cn_applied := a\<rparr>" b cfg self] by (cases s) simp
qed (use assms(2,3) in \<open>auto simp: finish_def reply_def split: if_splits\<close>)

text \<open>A step of a run with a terminal is a step of the session or none.\<close>

lemma pty_step_simulates:
  assumes "pty_step b cfg self r r'" and "pty_inv l r" and "la_pty l" and "\<not> cn_panicked (pr_conn r)"
  shows "pty_abs r' = pty_abs r \<or> step b cfg self (pty_abs r) (pty_abs r')"
  using assms(1)
proof cases
  case (elsewhere s)
  then show ?thesis using step_applied [OF elsewhere(2-4)] by (simp add: pty_abs_def)
next
  case (take_size w)
  then have "cn_phase (pr_conn r) = Running l" using assms(2) by (auto simp: pty_inv_def split: if_splits)
  then show ?thesis
    using step.apply_size [of "pty_abs r" l w b cfg self] take_size assms(3,4)
    by (cases "pr_conn r") (simp add: pty_abs_def)
next
  case (send_exit wr)
  then have "cn_phase (pr_conn r) = Running l" "pr_applier r = Gone" using assms(2) by (auto simp: pty_inv_def)
  then show ?thesis
    using step.ended [of "pty_abs r" l b cfg self wr] send_exit assms(4)
    by (cases "pr_conn r") (simp add: pty_abs_def finish_def)
qed (simp_all add: pty_abs_def)

lemma pty_run_inv:
  assumes "(pty_step b cfg self)\<^sup>*\<^sup>* (start_pty s) r" and "reachable b cfg self sock s"
    and "cn_phase s = Running l" and "la_pty l"
  shows "pty_inv l r \<and> reachable b cfg self sock (pty_abs r)"
  using assms(1)
proof (induction rule: rtranclp_induct)
  case base
  show ?case using assms(2,3) by (simp add: start_pty_def pty_inv_def pty_abs_def)
next
  case (step r r')
  have "\<not> cn_panicked (pr_conn r)" using reachable_inv [of b cfg self sock "pty_abs r"] step.IH
    by (simp add: inv_defs pty_abs_def)
  then have "pty_abs r' = pty_abs r \<or> AgentSession.step b cfg self (pty_abs r) (pty_abs r')"
    using pty_step_simulates step.hyps(2) step.IH assms(4) by blast
  then have "reachable b cfg self sock (pty_abs r')" using step.IH by (metis rtranclp.rtrancl_into_rtrancl)
  then show ?case using pty_step_inv [OF step.hyps(2)] step.IH by simp
qed

section \<open>The run ends\<close>

lemma applier_stops:
  assumes "pr_stopped r"
  shows "\<exists>r'. (pty_step b cfg self)\<^sup>*\<^sup>* r r' \<and> pr_applier r' = Gone \<and> pr_waiter r' = pr_waiter r"
proof -
  have gone: "\<exists>r2. pty_step b cfg self r1 r2 \<and> pr_applier r2 = Gone \<and> pr_waiter r2 = pr_waiter r"
    if "pr_applier r1 = Selecting" "pr_stopped r1" "pr_waiter r1 = pr_waiter r" for r1
    by (rule exI, rule conjI, rule pty_step.see_stop [OF that(1,2)]) (simp add: that)
  show ?thesis
  proof (cases "pr_applier r")
    case Selecting
    from gone [OF this assms] show ?thesis by blast
  next
    case (Setting w)
    note s = pty_step.set_it [OF this, of b cfg self]
    obtain r2 where "pty_step b cfg self (r\<lparr>pr_conn := (pr_conn r)\<lparr>cn_applied := cn_applied (pr_conn r) @ [set_size w]\<rparr>,
        pr_applier := Selecting, pr_raced := pr_raced r \<or> \<not> pr_open r\<rparr>) r2" "pr_applier r2 = Gone" "pr_waiter r2 = pr_waiter r"
      using gone [of "r\<lparr>pr_conn := (pr_conn r)\<lparr>cn_applied := cn_applied (pr_conn r) @ [set_size w]\<rparr>,
        pr_applier := Selecting, pr_raced := pr_raced r \<or> \<not> pr_open r\<rparr>"] assms by auto
    with s show ?thesis by (intro exI [of _ r2]) (auto intro: converse_rtranclp_into_rtranclp)
  next
    case Gone
    then show ?thesis by blast
  qed
qed

text \<open>Each stage of the waiter leads to the next; \<open>stage\<close> counts those left.\<close>

fun stage :: "waiter \<Rightarrow> nat" where
  "stage Copying = 5" | "stage (Waited wr) = 4" | "stage (Stopping wr) = 3" | "stage (Joined wr) = 2"
| "stage (Closed wr) = 1" | "stage Sent = 0"

lemma waiter_moves:
  assumes "pty_inv l r" and "pr_waiter r \<noteq> Sent"
  shows "\<exists>r'. (pty_step b cfg self)\<^sup>*\<^sup>* r r' \<and> stage (pr_waiter r') < stage (pr_waiter r)"
proof (cases "pr_waiter r")
  case Copying
  show ?thesis
    by (rule exI, rule conjI, rule r_into_rtranclp, rule pty_step.wait_over [OF Copying, of b cfg self Exited]) (simp add: Copying)
next
  case (Waited wr)
  show ?thesis
    by (rule exI, rule conjI, rule r_into_rtranclp, rule pty_step.close_stop [OF Waited]) (simp add: Waited)
next
  case (Stopping wr)
  then have "pr_stopped r" using assms(1) by (simp add: pty_inv_def)
  then obtain r1 where r1: "(pty_step b cfg self)\<^sup>*\<^sup>* r r1" "pr_applier r1 = Gone" "pr_waiter r1 = Stopping wr"
    using applier_stops [of r b cfg self] Stopping by auto
  note pty_step.join_applier [OF r1(3,2), of b cfg self]
  with r1(1) have "(pty_step b cfg self)\<^sup>*\<^sup>* r (r1\<lparr>pr_waiter := Joined wr\<rparr>)" by (rule rtranclp.rtrancl_into_rtrancl)
  then show ?thesis using Stopping by (intro exI [of _ "r1\<lparr>pr_waiter := Joined wr\<rparr>"]) simp
next
  case (Joined wr)
  show ?thesis
    by (rule exI, rule conjI, rule r_into_rtranclp, rule pty_step.close_pty [OF Joined]) (simp add: Joined)
next
  case (Closed wr)
  show ?thesis
    by (rule exI, rule conjI, rule r_into_rtranclp, rule pty_step.send_exit [OF Closed]) (simp add: Closed)
qed (use assms(2) in simp)

lemma pty_steps_inv: "(pty_step b cfg self)\<^sup>*\<^sup>* r r' \<Longrightarrow> pty_inv l r \<Longrightarrow> pty_inv l r'"
  by (induction rule: rtranclp_induct) (auto intro: pty_step_inv)

lemma pty_run_ends:
  assumes "pty_inv l r"
  shows "\<exists>r'. (pty_step b cfg self)\<^sup>*\<^sup>* r r' \<and> pr_waiter r' = Sent"
  using assms
proof (induction "stage (pr_waiter r)" arbitrary: r rule: less_induct)
  case less
  show ?case
  proof (cases "pr_waiter r = Sent")
    case False
    from waiter_moves [OF less.prems False] obtain r1 where
      "(pty_step b cfg self)\<^sup>*\<^sup>* r r1" "stage (pr_waiter r1) < stage (pr_waiter r)" by blast
    with less.hyps [OF _ pty_steps_inv] less.prems show ?thesis by (meson rtranclp_trans)
  qed blast
qed

text \<open>
  C11: a command with a terminal ends cleanly, in every interleaving of the goroutine that waits for it, the applier
  of window sizes and the request loop. The terminal is closed only after the applier has stopped, so no size is
  ever set on a closed terminal, and the exit status is sent only after that; the run is a run of the session as
  \<open>AgentSession\<close> has it, in which a size that was taken counts as applied; and from every state it can reach there is
  a way on to the end.
\<close>

theorem pty_run_safe:
  assumes "reachable b cfg self sock s" and "cn_phase s = Running l" and "la_pty l"
    and "(pty_step b cfg self)\<^sup>*\<^sup>* (start_pty s) r"
  shows "\<not> pr_raced r \<and> (pr_open r \<or> pr_applier r = Gone)
    \<and> (cn_phase (pr_conn r) = Over \<longleftrightarrow> pr_waiter r = Sent) \<and> (cn_phase (pr_conn r) = Over \<longrightarrow> \<not> pr_open r)
    \<and> reachable b cfg self sock (pty_abs r)
    \<and> (\<exists>r'. (pty_step b cfg self)\<^sup>*\<^sup>* r r' \<and> pr_waiter r' = Sent)"
proof -
  have inv: "pty_inv l r" "reachable b cfg self sock (pty_abs r)" using pty_run_inv [OF assms(4,1,2,3)] by simp_all
  then have "\<not> pr_raced r" "cn_phase (pr_conn r) = Over \<longleftrightarrow> pr_waiter r = Sent"
    by (auto simp: pty_inv_def split: if_splits)
  moreover have "pr_open r \<or> pr_applier r = Gone" "pr_waiter r = Sent \<longrightarrow> \<not> pr_open r"
    using inv(1) by (auto simp: pty_inv_def split: waiter.splits)
  ultimately show ?thesis using inv(2) pty_run_ends [OF inv(1)] by blast
qed

text \<open>A session that asked for a terminal and a shell.\<close>

definition terminal_request :: request where
  "terminal_request = \<lparr>rq_type = ''pty-req'', rq_want = True, rq_payload = replicate 20 (CHR 0x00)\<rparr>"

lemma terminal_reachable: "\<exists>s l. reachable b cfg self [] s \<and> cn_phase s = Running l \<and> la_pty l"
proof -
  let ?step = "step b cfg self"
  let ?s1 = "handle cfg None terminal_request (new_conn [])"
  have "parse_pty_req (rq_payload terminal_request) = Got \<lparr>pq_term = [], pq_cols = 0, pq_rows = 0, pq_width = 0, pq_height = 0\<rparr>"
    by code_simp
  then have s1: "cn_loop ?s1 = Discarding 0 (0, 0) True True" "\<not> cn_panicked ?s1" "cn_pty ?s1" "cn_phase ?s1 = Idle"
      "\<not> cn_started ?s1"
    by (simp_all add: handle_def new_conn_def handle_pty_req_def terminal_request_def)
  have first: "?step (new_conn []) ?s1" by (rule step.receive) (simp_all add: new_conn_def terminal_request_def)
  obtain s2 where s2: "?step\<^sup>*\<^sup>* ?s1 s2" "cn_loop s2 = Ready" "\<not> cn_panicked s2" "cn_pty s2" "\<not> cn_started s2"
  proof -
    let ?a = "?s1\<lparr>cn_loop := Sending 0 (0, 0) True True, cn_slot := None\<rparr>"
    have a: "?step ?s1 ?a" by (rule step.discard [OF s1(1,2)])
    let ?b = "reply 0 True True (?a\<lparr>cn_loop := Ready,
        cn_slot := (case cn_slot ?a of None \<Rightarrow> Some (0, 0) | Some w' \<Rightarrow> Some w')\<rparr>)"
    have "?step ?a ?b"
      by (rule step.send) (simp_all add: s1)
    with a have "?step\<^sup>*\<^sup>* ?s1 ?b" by (meson converse_rtranclp_into_rtranclp rtranclp.rtrancl_refl)
    then show thesis using that [of ?b] s1 by (simp add: reply_def)
  qed
  have third: "?step s2 (handle cfg None (demo_request ''shell'') s2)"
    using s2(2,3) by (intro step.receive) (simp_all add: demo_request_def)
  have "\<exists>s3 l. ?step\<^sup>*\<^sup>* (handle cfg None (demo_request ''shell'') s2) s3 \<and> cn_phase s3 = Running l \<and> la_pty l"
  proof -
    let ?c = "handle cfg None (demo_request ''shell'') s2"
    have c: "cn_phase ?c = Claimed Shell (length (cn_seen s2)) True" "\<not> cn_panicked ?c" "cn_pty ?c"
      using s2 by (simp_all add: handle_def demo_request_def spawn_def Let_def)
    let ?l = "build_command b cfg self (cn_sock ?c) (snapshot ?c) Shell"
    let ?d = "reply (length (cn_seen s2)) True True (?c\<lparr>cn_phase := Starting ?l\<rparr>)"
    have "?step ?c ?d" by (rule step.begin_command [OF c(1) _ c(2)]) simp
    moreover have "?step ?d (?d\<lparr>cn_phase := Running ?l\<rparr>)" by (rule step.started) (simp_all add: c)
    ultimately have "?step\<^sup>*\<^sup>* ?c (?d\<lparr>cn_phase := Running ?l\<rparr>)" by (meson converse_rtranclp_into_rtranclp rtranclp.rtrancl_refl)
    moreover have "la_pty ?l" using c(3) by (simp add: user_command_def snapshot_def Let_def)
    ultimately show ?thesis by (intro exI [of _ "?d\<lparr>cn_phase := Running ?l\<rparr>"] exI [of _ ?l]) simp
  qed
  then obtain s3 l where "?step\<^sup>*\<^sup>* (handle cfg None (demo_request ''shell'') s2) s3" "cn_phase s3 = Running l" "la_pty l"
    by blast
  moreover from this(1) third have "?step\<^sup>*\<^sup>* s2 s3" by (rule converse_rtranclp_into_rtranclp [rotated])
  ultimately show ?thesis using first s2(1) by (meson converse_rtranclp_into_rtranclp rtranclp_trans)
qed

lemma pty_run_safe_witness:
  "\<forall>b cfg self. \<exists>s r. reachable b cfg self [] s \<and> (pty_step b cfg self)\<^sup>*\<^sup>* (start_pty s) r \<and> pr_waiter r = Sent \<and> \<not> pr_raced r"
proof (intro allI)
  fix b cfg self
  obtain s l where s: "reachable b cfg self [] s" "cn_phase s = Running l" "la_pty l"
    using terminal_reachable by blast
  obtain r where r: "(pty_step b cfg self)\<^sup>*\<^sup>* (start_pty s) r" "pr_waiter r = Sent"
    using pty_run_safe [OF s rtranclp.rtrancl_refl] by blast
  with pty_run_safe [OF s r(1)] s(1)
  show "\<exists>s r. reachable b cfg self [] s \<and> (pty_step b cfg self)\<^sup>*\<^sup>* (start_pty s) r \<and> pr_waiter r = Sent \<and> \<not> pr_raced r"
    by blast
qed

end
