(* ===== verification/Bridge.thy ===== *)
theory Bridge
  imports Prelude "HOL-Library.Word"
begin

text \<open>
  Copying bytes between an ssh channel and a connection (\<open>bridge\<close> of \<open>agent/forward.go\<close>), which carries every
  forwarded port and the forwarded agent. Two goroutines each run \<open>io.Copy\<close> in one direction and then close the
  write half of their destination; the call returns when both are done. Reading and writing are the steps of \<open>io.Copy\<close>
  with its buffer of 32 KiB; how much a read yields and whether one fails is the choice of the step.
\<close>

section \<open>Accepting\<close>

text \<open>
  The loops of \<open>accept\<close> and \<open>serveAgentForward\<close>: each answer of \<open>Accept\<close> is a connection or, when the listener is closed, an
  error, which ends the loop. The connections are those handed to a goroutine of their own, in order.
\<close>

fun accepted :: "'c option list \<Rightarrow> 'c list" where
  "accepted [] = []"
| "accepted (None # rs) = []"
| "accepted (Some c # rs) = c # accepted rs"

lemma accepted_until_closed: "accepted (map Some cs @ None # rs) = cs"
  by (induction cs) simp_all

definition serve_agent_forward :: "'c option list \<Rightarrow> 'c list" where
  "serve_agent_forward rs = accepted rs"

text \<open>\<open>splitHostPort\<close>: the address and port of a TCP peer, of any other kind none.\<close>

definition split_host_port :: "(string \<times> int) option \<Rightarrow> string \<times> 32 word" where
  "split_host_port a = (case a of Some (ip, port) \<Rightarrow> (ip, word_of_int port) | None \<Rightarrow> ([], 0))"

lemma split_host_port_tcp: "0 \<le> port \<Longrightarrow> port \<le> 65535 \<Longrightarrow> uint (snd (split_host_port (Some (ip, port)))) = port"
  by (simp add: split_host_port_def unsigned_of_int take_bit_int_eq_self)

section \<open>One direction\<close>

datatype copy_stage = Copying | CopyEnded | HalfClosed

text \<open>
  \<open>pm_sent\<close> is all that the source has sent so far, \<open>pm_in\<close> what was not read of it, \<open>pm_buf\<close> what was read and not
  written; \<open>pm_ended\<close>: the source will send no more; \<open>pm_failed\<close>: a read or a write failed; \<open>pm_shut\<close>: the write half
  of the destination has been closed.
\<close>

record pump =
  pm_sent :: string
  pm_in :: string
  pm_ended :: bool
  pm_buf :: string
  pm_out :: string
  pm_failed :: bool
  pm_stage :: copy_stage
  pm_shut :: bool

definition new_pump :: pump where
  "new_pump = \<lparr>pm_sent = [], pm_in = [], pm_ended = False, pm_buf = [], pm_out = [], pm_failed = False,
     pm_stage = Copying, pm_shut = False\<rparr>"

definition copy_buffer :: nat where
  "copy_buffer = 32768"

definition pump_read :: "nat \<Rightarrow> pump \<Rightarrow> pump" where
  "pump_read n p = p\<lparr>pm_buf := take n (pm_in p), pm_in := drop n (pm_in p)\<rparr>"

definition pump_write :: "pump \<Rightarrow> pump" where
  "pump_write p = p\<lparr>pm_out := pm_out p @ pm_buf p, pm_buf := []\<rparr>"

text \<open>What the goroutine does; \<open>half\<close> tells whether the destination can close its write half alone.\<close>

inductive pump_step :: "bool \<Rightarrow> pump \<Rightarrow> pump \<Rightarrow> bool" for half :: bool where
  take_in: "pm_stage p = Copying \<Longrightarrow> pm_buf p = [] \<Longrightarrow> pm_in p \<noteq> [] \<Longrightarrow> 0 < n \<Longrightarrow> n \<le> copy_buffer \<Longrightarrow>
    pump_step half p (pump_read n p)"
| put_out: "pm_stage p = Copying \<Longrightarrow> pm_buf p \<noteq> [] \<Longrightarrow> pump_step half p (pump_write p)"
| end_of_input: "pm_stage p = Copying \<Longrightarrow> pm_buf p = [] \<Longrightarrow> pm_in p = [] \<Longrightarrow> pm_ended p \<Longrightarrow>
    pump_step half p (p\<lparr>pm_stage := CopyEnded\<rparr>)"
| failure: "pm_stage p = Copying \<Longrightarrow> pump_step half p (p\<lparr>pm_stage := CopyEnded, pm_failed := True\<rparr>)"
| close_write: "pm_stage p = CopyEnded \<Longrightarrow> pump_step half p (p\<lparr>pm_stage := HalfClosed, pm_shut := half\<rparr>)"

inductive_cases pump_stepE: "pump_step half p p'"

text \<open>What the source does.\<close>

inductive source_step :: "pump \<Rightarrow> pump \<Rightarrow> bool" where
  send: "\<not> pm_ended p \<Longrightarrow> source_step p (p\<lparr>pm_sent := pm_sent p @ t, pm_in := pm_in p @ t\<rparr>)"
| finish: "source_step p (p\<lparr>pm_ended := True\<rparr>)"

section \<open>Both directions\<close>

record bridge =
  br_up :: pump
  br_down :: pump

definition new_bridge :: bridge where
  "new_bridge = \<lparr>br_up = new_pump, br_down = new_pump\<rparr>"

text \<open>
  From the channel to the connection, whose kind decides whether it can be closed by halves, and from the connection to
  the channel, which always can.
\<close>

inductive own_step :: "bool \<Rightarrow> bridge \<Rightarrow> bridge \<Rightarrow> bool" for half :: bool where
  up: "pump_step half (br_up b) p \<Longrightarrow> own_step half b (b\<lparr>br_up := p\<rparr>)"
| down: "pump_step True (br_down b) p \<Longrightarrow> own_step half b (b\<lparr>br_down := p\<rparr>)"

inductive bridge_step :: "bool \<Rightarrow> bridge \<Rightarrow> bridge \<Rightarrow> bool" for half :: bool where
  own: "own_step half b b' \<Longrightarrow> bridge_step half b b'"
| client: "source_step (br_up b) p \<Longrightarrow> bridge_step half b (b\<lparr>br_up := p\<rparr>)"
| peer: "source_step (br_down b) p \<Longrightarrow> bridge_step half b (b\<lparr>br_down := p\<rparr>)"

text \<open>\<open>wg.Wait\<close> is over.\<close>

definition returned :: "bridge \<Rightarrow> bool" where
  "returned b \<longleftrightarrow> pm_stage (br_up b) = HalfClosed \<and> pm_stage (br_down b) = HalfClosed"

section \<open>Nothing is lost, changed or reordered\<close>

definition pump_inv :: "pump \<Rightarrow> bool" where
  "pump_inv p \<longleftrightarrow>
     pm_sent p = pm_out p @ pm_buf p @ pm_in p
     \<and> (pm_stage p \<noteq> Copying \<and> \<not> pm_failed p \<longrightarrow> pm_ended p \<and> pm_buf p = [] \<and> pm_in p = [])
     \<and> (pm_shut p \<longrightarrow> pm_stage p = HalfClosed)"

lemma new_pump_inv: "pump_inv new_pump"
  by (simp add: pump_inv_def new_pump_def)

lemma pump_step_inv: "pump_step half p p' \<Longrightarrow> pump_inv p \<Longrightarrow> pump_inv p'"
  by (induction rule: pump_step.induct) (auto simp: pump_inv_def pump_read_def pump_write_def)

lemma source_step_inv: "source_step p p' \<Longrightarrow> pump_inv p \<Longrightarrow> pump_inv p'"
  by (induction rule: source_step.induct) (auto simp: pump_inv_def)

definition bridge_inv :: "bridge \<Rightarrow> bool" where
  "bridge_inv b \<longleftrightarrow> pump_inv (br_up b) \<and> pump_inv (br_down b)"

lemma bridge_step_inv: "bridge_step half b b' \<Longrightarrow> bridge_inv b \<Longrightarrow> bridge_inv b'"
  by (induction rule: bridge_step.induct)
    (auto simp: bridge_inv_def intro: pump_step_inv source_step_inv elim!: own_step.cases)

lemma bridge_reachable_inv: "(bridge_step half)\<^sup>*\<^sup>* new_bridge b \<Longrightarrow> bridge_inv b"
  by (induction rule: rtranclp_induct) (auto simp: bridge_inv_def new_bridge_def new_pump_inv dest: bridge_step_inv)

section \<open>The work left\<close>

fun stage_work :: "copy_stage \<Rightarrow> nat" where
  "stage_work Copying = 2" | "stage_work CopyEnded = 1" | "stage_work HalfClosed = 0"

definition pump_work :: "pump \<Rightarrow> nat" where
  "pump_work p = stage_work (pm_stage p)
     + (if pm_stage p = Copying then 2 * length (pm_in p) + (if pm_buf p = [] then 0 else 1) else 0)"

definition work :: "bridge \<Rightarrow> nat" where
  "work b = pump_work (br_up b) + pump_work (br_down b)"

lemma pump_step_work: "pump_step half p p' \<Longrightarrow> pump_work p' < pump_work p"
proof (induction rule: pump_step.induct)
  case (take_in p n)
  have "Suc (2 * (length (pm_in p) - n)) < 2 * length (pm_in p)" using take_in.hyps(3,4) by (cases "pm_in p") auto
  with take_in.hyps show ?case by (simp add: pump_work_def pump_read_def)
qed (auto simp: pump_work_def pump_write_def)

lemma own_step_work: "own_step half b b' \<Longrightarrow> work b' < work b"
  by (induction rule: own_step.induct) (auto simp: work_def dest: pump_step_work)

lemma own_steps_bounded: "(own_step half ^^ n) b b' \<Longrightarrow> n + work b' \<le> work b"
proof (induction n arbitrary: b')
  case (Suc n)
  then obtain b1 where "(own_step half ^^ n) b b1" "own_step half b1 b'" by auto
  with Suc.IH own_step_work show ?case by fastforce
qed simp

text \<open>A direction whose source has ended goes on by itself, without a failure of its own.\<close>

lemma pump_goes_on:
  assumes "pm_ended p" and "pm_stage p \<noteq> HalfClosed"
  shows "\<exists>p'. pump_step half p p' \<and> pm_failed p' = pm_failed p"
proof (cases "pm_stage p")
  case Copying
  show ?thesis
  proof (cases "pm_buf p = []")
    case False
    then show ?thesis using pump_step.put_out [OF Copying, of half] by (auto simp: pump_write_def)
  next
    case empty: True
    show ?thesis
    proof (cases "pm_in p = []")
      case True
      then show ?thesis using pump_step.end_of_input [OF Copying empty True assms(1), of half] by auto
    next
      case False
      then show ?thesis using pump_step.take_in [OF Copying empty False, of 1 half]
        by (intro exI [of _ "pump_read 1 p"]) (simp add: pump_read_def copy_buffer_def)
    qed
  qed
next
  case CopyEnded
  then show ?thesis using pump_step.close_write [of p half] by auto
qed (use assms(2) in simp)

lemma bridge_goes_on:
  assumes "pm_ended (br_up b)" "pm_ended (br_down b)" and "\<not> returned b"
  shows "\<exists>b'. own_step half b b' \<and> pm_failed (br_up b') = pm_failed (br_up b) \<and> pm_failed (br_down b') = pm_failed (br_down b)"
proof (cases "pm_stage (br_up b) = HalfClosed")
  case True
  then have "pm_stage (br_down b) \<noteq> HalfClosed" using assms(3) by (simp add: returned_def)
  from pump_goes_on [OF assms(2) this, of True] show ?thesis by (fastforce intro: own_step.down)
next
  case False
  from pump_goes_on [OF assms(1) this, of half] show ?thesis by (fastforce intro: own_step.up)
qed

lemma own_step_ended: "own_step half b b' \<Longrightarrow> pm_ended (br_up b') = pm_ended (br_up b) \<and> pm_ended (br_down b') = pm_ended (br_down b)"
  by (induction rule: own_step.induct) (auto elim!: pump_stepE simp: pump_read_def pump_write_def)

lemma own_steps_ended: "(own_step half)\<^sup>*\<^sup>* b b' \<Longrightarrow> pm_ended (br_up b') = pm_ended (br_up b) \<and> pm_ended (br_down b') = pm_ended (br_down b)"
  by (induction rule: rtranclp_induct) (auto dest: own_step_ended)

lemma bridge_gets_done:
  assumes "pm_ended (br_up b)" and "pm_ended (br_down b)"
  shows "\<exists>b'. (own_step half)\<^sup>*\<^sup>* b b' \<and> returned b' \<and> pm_failed (br_up b') = pm_failed (br_up b)
    \<and> pm_failed (br_down b') = pm_failed (br_down b)"
  using assms
proof (induction "work b" arbitrary: b rule: less_induct)
  case less
  show ?case
  proof (cases "returned b")
    case False
    from bridge_goes_on [OF less.prems False] obtain b1 where b1: "own_step half b b1"
      "pm_failed (br_up b1) = pm_failed (br_up b)" "pm_failed (br_down b1) = pm_failed (br_down b)" by blast
    with less.hyps [OF own_step_work [OF b1(1)]] own_step_ended [OF b1(1)] less.prems show ?thesis
      by (metis converse_rtranclp_into_rtranclp)
  qed blast
qed

text \<open>
  C12: a bridge passes on exactly what it was given. However the two directions, the client and the peer interleave,
  what has been written to a side is a prefix of what the other has sent, in order and without loss; the write half
  of a side is closed only when everything for it was written or a read or write failed; when the call returns
  without a failure both sides have got everything.
\<close>

theorem bridge_delivers:
  assumes "(bridge_step half)\<^sup>*\<^sup>* new_bridge b"
  shows "prefix (pm_out (br_up b)) (pm_sent (br_up b)) \<and> prefix (pm_out (br_down b)) (pm_sent (br_down b))
    \<and> (\<forall>p \<in> {br_up b, br_down b}. pm_shut p \<or> pm_stage p \<noteq> Copying \<longrightarrow>
         pm_failed p \<or> (pm_ended p \<and> pm_out p = pm_sent p))
    \<and> (returned b \<and> \<not> pm_failed (br_up b) \<and> \<not> pm_failed (br_down b) \<longrightarrow>
         pm_out (br_up b) = pm_sent (br_up b) \<and> pm_out (br_down b) = pm_sent (br_down b))"
proof -
  have inv: "pump_inv p" if "p \<in> {br_up b, br_down b}" for p
    using bridge_reachable_inv [OF assms] that by (auto simp: bridge_inv_def)
  have out: "prefix (pm_out p) (pm_sent p)" if "p \<in> {br_up b, br_down b}" for p
    using inv [OF that] by (simp add: pump_inv_def)
  have done': "pm_failed p \<or> (pm_ended p \<and> pm_out p = pm_sent p)"
    if "p \<in> {br_up b, br_down b}" "pm_shut p \<or> pm_stage p \<noteq> Copying" for p
    using inv [OF that(1)] that(2) by (auto simp: pump_inv_def)
  have all: "pm_out p = pm_sent p" if "returned b" "\<not> pm_failed p" "p \<in> {br_up b, br_down b}" for p
    using done' [OF that(3)] that by (auto simp: returned_def)
  show ?thesis
    by (intro conjI ballI impI) (simp_all add: out done' all)
qed

text \<open>
  C26: a bridge ends. Once both sides have ended, whatever is left to copy, every run of the bridge's own steps has at
  most \<open>work b\<close> steps, and from each state on the way it gets to its return, without a failure of its own.
\<close>

theorem bridge_ends:
  assumes "pm_ended (br_up b)" and "pm_ended (br_down b)"
  shows "(\<forall>n b'. (own_step half ^^ n) b b' \<longrightarrow> n \<le> work b)
    \<and> (\<forall>b'. (own_step half)\<^sup>*\<^sup>* b b' \<longrightarrow> (\<exists>b''. (own_step half)\<^sup>*\<^sup>* b' b'' \<and> returned b''
         \<and> pm_failed (br_up b'') = pm_failed (br_up b') \<and> pm_failed (br_down b'') = pm_failed (br_down b')))"
proof (intro conjI allI impI)
  fix n b'
  assume "(own_step half ^^ n) b b'"
  from own_steps_bounded [OF this] show "n \<le> work b" by simp
next
  fix b'
  assume "(own_step half)\<^sup>*\<^sup>* b b'"
  from own_steps_ended [OF this] assms
  show "\<exists>b''. (own_step half)\<^sup>*\<^sup>* b' b'' \<and> returned b''
      \<and> pm_failed (br_up b'') = pm_failed (br_up b') \<and> pm_failed (br_down b'') = pm_failed (br_down b')"
    by (intro bridge_gets_done) simp_all
qed

lemma bridge_ends_witness:
  "let p = new_pump\<lparr>pm_sent := ''hi'', pm_in := ''hi'', pm_ended := True\<rparr>; b = \<lparr>br_up = p, br_down = p\<rparr> in
   work b = 12 \<and> (\<exists>b'. (own_step True)\<^sup>*\<^sup>* b b' \<and> returned b' \<and> \<not> pm_failed (br_up b'))"
proof -
  let ?p = "new_pump\<lparr>pm_sent := ''hi'', pm_in := ''hi'', pm_ended := True\<rparr>"
  let ?b = "\<lparr>br_up = ?p, br_down = ?p\<rparr>"
  have ended: "pm_ended (br_up ?b)" "pm_ended (br_down ?b)" by simp_all
  from bridge_ends [OF ended, of True, THEN conjunct2, THEN spec, THEN mp, OF rtranclp.rtrancl_refl]
  have "\<exists>b'. (own_step True)\<^sup>*\<^sup>* ?b b' \<and> returned b' \<and> pm_failed (br_up b') = pm_failed (br_up ?b)" by blast
  then show ?thesis by (simp add: work_def pump_work_def new_pump_def)
qed

text \<open>One side that has ended does not end the call: it waits for both.\<close>

lemma one_side_is_not_enough:
  "\<exists>b. (bridge_step half)\<^sup>*\<^sup>* new_bridge b \<and> pm_stage (br_up b) = HalfClosed \<and> \<not> returned b
     \<and> pm_stage (br_down b) = Copying"
proof -
  let ?a = "new_bridge\<lparr>br_up := new_pump\<lparr>pm_ended := True\<rparr>\<rparr>"
  let ?b = "?a\<lparr>br_up := (br_up ?a)\<lparr>pm_stage := CopyEnded\<rparr>\<rparr>"
  let ?c = "?b\<lparr>br_up := (br_up ?b)\<lparr>pm_stage := HalfClosed, pm_shut := half\<rparr>\<rparr>"
  have "bridge_step half new_bridge ?a"
    using bridge_step.client [OF source_step.finish, of half new_bridge] by (simp add: new_bridge_def)
  moreover have "bridge_step half ?a ?b"
    by (rule bridge_step.own, rule own_step.up, rule pump_step.end_of_input) (simp_all add: new_pump_def)
  moreover have "bridge_step half ?b ?c"
    by (rule bridge_step.own, rule own_step.up, rule pump_step.close_write) simp
  ultimately have "(bridge_step half)\<^sup>*\<^sup>* new_bridge ?c"
    by (meson converse_rtranclp_into_rtranclp rtranclp.rtrancl_refl)
  then show ?thesis by (intro exI [of _ ?c]) (simp add: returned_def new_bridge_def new_pump_def)
qed

lemma bridge_delivers_witness:
  "\<exists>b. (bridge_step True)\<^sup>*\<^sup>* new_bridge b \<and> pm_shut (br_up b) \<and> pm_sent (br_up b) = ''hi'' \<and> pm_out (br_up b) = ''hi''"
proof -
  let ?p1 = "new_pump\<lparr>pm_sent := ''hi'', pm_in := ''hi''\<rparr>"
  let ?p2 = "?p1\<lparr>pm_ended := True\<rparr>"
  let ?p3 = "pump_read 2 ?p2"
  let ?p4 = "pump_write ?p3"
  let ?p5 = "?p4\<lparr>pm_stage := CopyEnded\<rparr>"
  let ?p6 = "?p5\<lparr>pm_stage := HalfClosed, pm_shut := True\<rparr>"
  let ?b = "\<lambda>p. new_bridge\<lparr>br_up := p\<rparr>"
  have up: "pump_step True p p' \<Longrightarrow> bridge_step True (?b p) (?b p')" for p p'
    using bridge_step.own [OF own_step.up, of True "?b p" p'] by simp
  have src: "source_step p p' \<Longrightarrow> bridge_step True (?b p) (?b p')" for p p'
    using bridge_step.client [of "?b p" p' True] by simp
  have "source_step new_pump ?p1" using source_step.send [of new_pump "''hi''"] by (simp add: new_pump_def)
  from src [OF this] have s1: "bridge_step True new_bridge (?b ?p1)" by (simp add: new_bridge_def)
  have s2: "bridge_step True (?b ?p1) (?b ?p2)" by (rule src, rule source_step.finish)
  have s3: "bridge_step True (?b ?p2) (?b ?p3)"
    by (rule up, rule pump_step.take_in) (simp_all add: new_pump_def copy_buffer_def)
  have s4: "bridge_step True (?b ?p3) (?b ?p4)"
    by (rule up, rule pump_step.put_out) (simp_all add: new_pump_def pump_read_def)
  have s5: "bridge_step True (?b ?p4) (?b ?p5)"
    by (rule up, rule pump_step.end_of_input) (simp_all add: new_pump_def pump_read_def pump_write_def)
  have s6: "bridge_step True (?b ?p5) (?b ?p6)" by (rule up, rule pump_step.close_write) simp
  note more = converse_rtranclp_into_rtranclp [where r = "bridge_step True"]
  have "(bridge_step True)\<^sup>*\<^sup>* (?b ?p3) (?b ?p6)"
    by (rule more, rule s4, rule more, rule s5, rule more, rule s6, rule rtranclp.rtrancl_refl)
  then have r: "(bridge_step True)\<^sup>*\<^sup>* new_bridge (?b ?p6)"
    by - (rule more, rule s1, rule more, rule s2, rule more, rule s3)
  have "\<not> pm_failed ?p6" "pm_shut ?p6" "pm_sent ?p6 = ''hi''" by (simp_all add: new_pump_def pump_read_def pump_write_def)
  moreover have "pm_out ?p6 = pm_sent ?p6"
    using bridge_delivers [OF r] calculation(1,2) by simp
  ultimately show ?thesis using r by (intro exI [of _ "?b ?p6"]) simp
qed

end
